(* ===== verification/Prelude.thy ===== *)
theory Prelude
  imports Complex_Main "HOL-Library.Multiset"
begin

text \<open>
  Shared vocabulary of the development.  The application stores every amount as a
  JavaScript number; the model reads these as exact rationals (\<open>money = rat\<close>), so the
  theorems speak about the arithmetic the code writes down, not about IEEE rounding.
  Row identifiers of the hosted database (UUID strings) and user identifiers are opaque
  and modelled as natural numbers.  A SQL \<open>UPDATE ... WHERE\<close> over a table held as a
  list of rows is \<open>update_where\<close>.  The lemmas here are the generic facts on lists,
  maps and rational numerals that the component theories share.
\<close>

type_synonym money = rat
type_synonym uid = nat
type_synonym row_id = nat

named_theorems table_simps \<open>characteristic equations of the table operations\<close>

definition update_where :: "('a \<Rightarrow> bool) \<Rightarrow> ('a \<Rightarrow> 'a) \<Rightarrow> 'a list \<Rightarrow> 'a list" where
  "update_where P f xs = map (\<lambda>x. if P x then f x else x) xs"

definition js_round :: "rat \<Rightarrow> int" where
  \<comment> \<open>\<open>Math.round\<close>: the nearest integer, halves rounded towards \<open>+\<infinity>\<close>\<close>
  "js_round x = \<lfloor>x + 1/2\<rfloor>"

lemma floor_numeral_div [simp]:
  "\<lfloor>(numeral a / numeral b :: 'a::floor_ceiling)\<rfloor> = numeral a div numeral b"
  using floor_divide_of_int_eq [where 'a='a, of "numeral a" "numeral b"] by simp

lemma floor_one_div_numeral [simp]:
  "\<lfloor>(1 / numeral b :: 'a::floor_ceiling)\<rfloor> = 1 div numeral b"
  using floor_divide_of_int_eq [where 'a='a, of 1 "numeral b"] by simp

lemma js_round_eq_round: "js_round x = round x"
  by (simp add: js_round_def round_def)

lemma js_round_bounds: "of_int (js_round x) - 1/2 \<le> x \<and> x < of_int (js_round x) + 1/2"
  unfolding js_round_def by linarith

lemma update_where_Nil [simp, table_simps]: "update_where P f [] = []"
  by (simp add: update_where_def)

lemma update_where_append [simp, table_simps]:
  "update_where P f (xs @ ys) = update_where P f xs @ update_where P f ys"
  by (simp add: update_where_def)

lemma update_where_Cons [simp, table_simps]:
  "update_where P f (x # xs) = (if P x then f x else x) # update_where P f xs"
  by (simp add: update_where_def)

lemma length_update_where [simp]: "length (update_where P f xs) = length xs"
  by (simp add: update_where_def)

lemma update_where_no_match:
  "(\<forall>x \<in> set xs. \<not> P x) \<Longrightarrow> update_where P f xs = xs"
  by (induction xs) auto

lemma filter_update_where_other:
  assumes "\<And>x. P x \<Longrightarrow> \<not> Q x \<and> \<not> Q (f x)"
  shows "filter Q (update_where P f xs) = filter Q xs"
  using assms by (induction xs) auto

lemma set_update_where:
  "set (update_where P f xs) = {f x |x. x \<in> set xs \<and> P x} \<union> {x \<in> set xs. \<not> P x}"
  by (auto simp: update_where_def)

lemma sum_list_map_filter_snoc [simp]:
  "sum_list (map g (filter P (xs @ [x]))) =
     sum_list (map g (filter P xs)) + (if P x then g x else 0)"
  by simp

lemma map_filter_snoc [simp]:
  "map g (filter P (xs @ [x])) = map g (filter P xs) @ (if P x then [g x] else [])"
  by simp

lemma upt_Suc_snoc: "[1..<Suc n + 1] = [1..<n + 1] @ [Suc n]"
  by simp

lemma sum_list_replicate_of_nat:
  "sum_list (replicate n (a :: rat)) = of_nat n * a"
  by (simp add: sum_list_replicate)

lemma update_where_compose:
  "(\<And>x. P x \<Longrightarrow> P (f x)) \<Longrightarrow> update_where P g (update_where P f xs) = update_where P (g \<circ> f) xs"
  by (induction xs) auto


lemma map_update_where_key:
  "(\<And>x. k (g x) = k x) \<Longrightarrow> map k (update_where P g xs) = map k xs"
  by (induction xs) auto


lemma distinct_key_eq:
  "distinct (map k xs) \<Longrightarrow> x \<in> set xs \<Longrightarrow> y \<in> set xs \<Longrightarrow> k x = k y \<Longrightarrow> x = y"
  by (metis distinct_map inj_onD)


lemma set_update_where_key:
  assumes "distinct (map k xs)" "s \<in> set xs"
  shows "set (update_where (\<lambda>x. k x = k s) g xs) = insert (g s) (set xs - {s})"
  using assms by (auto simp: set_update_where dest: distinct_key_eq)


lemma foldl_plus_sum_list [simp]:
  fixes f :: "'a \<Rightarrow> 'b::monoid_add"
  shows "foldl (\<lambda>s x. s + f x) a xs = a + sum_list (map f xs)"
  by (induction xs arbitrary: a) (simp_all add: add.assoc)

lemma list_eq_by_snd:
  assumes "map snd xs = map snd ys" "\<forall>p \<in> set xs. fst p = g (snd p)" "\<forall>p \<in> set ys. fst p = g (snd p)"
  shows "xs = ys"
  using assms
proof (induction xs arbitrary: ys)
  case (Cons x xs)
  then obtain y ys' where "ys = y # ys'" by (cases ys) auto
  then show ?case using Cons by (cases x, cases y) auto
qed simp

lemma find_append_eq:
  "find P (xs @ ys) = (case find P xs of None \<Rightarrow> find P ys | Some x \<Rightarrow> Some x)"
  by (induction xs) simp_all

end
