(* ===== verification/Gateway.thy ===== *)
theory Gateway
  imports Prelude
begin

text \<open>
  The two server functions of \<open>src/supabase/functions\<close>: \<open>create-razorpay-order\<close>
  (\<open>create_order\<close>) and \<open>verify-razorpay-payment\<close> (\<open>verify_payment\<close>).  Each request
  handler is one function from the request and the environment to a response; the
  verification handler also returns the updated \<open>investment_accounts\<close> and
  \<open>transactions\<close> tables.  Every \<open>throw\<close> of the handlers is a \<open>GwError\<close> value (the
  catch turns it into a 400 response), the OPTIONS preflight is \<open>Preflight\<close>.

  The external collaborators are parameters: the authenticated user (\<open>auth.getUser\<close>),
  the Razorpay order API (\<open>razorpay\<close>: the paise amount to an order or an error text),
  the Razorpay payment lookup (\<open>fetch\<close>: a payment id to its status and paise amount,
  \<open>None\<close> when the response is not ok), and HMAC-SHA256 rendered in lower-case hex
  (\<open>hmac key message\<close>, treated as an abstract function).  Which of the two database
  writes of the verification fail is an input, as in the ledger.  \<open>single()\<close> returns a
  row only when exactly one row matches.
\<close>

record investment_account =
  acc_id :: string
  acc_user :: uid
  wallet_balance :: money

record gateway_tx =
  tx_account :: string
  tx_type :: string
  tx_amount :: money
  tx_status :: string
  tx_payment :: string

record gateway_db =
  accounts :: "investment_account list"
  gw_transactions :: "gateway_tx list"

record rp_order =
  order_id :: string
  order_amount :: int
  order_currency :: string

record rp_payment =
  rp_status :: string
  rp_amount :: int

datatype gw_error =
    Unauthorized | MinimumAmount | AccountIdRequired | AccountNotFound | RazorpayApiError string
  | MissingPaymentDetails | InvalidSignature | FetchFailed | PaymentNotSuccessful | UpdateFailed

datatype 'a gw_response = Preflight | GwOk 'a | GwError gw_error

definition find_account :: "gateway_db \<Rightarrow> string \<Rightarrow> uid \<Rightarrow> investment_account option" where
  "find_account db aid u =
     (case filter (\<lambda>a. acc_id a = aid \<and> acc_user a = u) (accounts db) of [a] \<Rightarrow> Some a | _ \<Rightarrow> None)"

definition amount_in_paise :: "money \<Rightarrow> int" where
  "amount_in_paise a = js_round (a * 100)"

definition create_order ::
  "bool \<Rightarrow> uid option \<Rightarrow> money option \<Rightarrow> string \<Rightarrow> gateway_db \<Rightarrow> (int \<Rightarrow> string + rp_order) \<Rightarrow>
   rp_order gw_response" where
  "create_order is_options user amount aid db razorpay =
     (if is_options then Preflight
      else case user of
        None \<Rightarrow> GwError Unauthorized
      | Some u \<Rightarrow>
          (case amount of
             None \<Rightarrow> GwError MinimumAmount
           | Some a \<Rightarrow>
               if a = 0 \<or> a < 1 then GwError MinimumAmount
               else if aid = [] then GwError AccountIdRequired
               else case find_account db aid u of
                 None \<Rightarrow> GwError AccountNotFound
               | Some _ \<Rightarrow>
                   (case razorpay (amount_in_paise a) of
                      Inl t \<Rightarrow> GwError (RazorpayApiError t)
                    | Inr ord \<Rightarrow> GwOk ord)))"

definition signed_message :: "string \<Rightarrow> string \<Rightarrow> string" where
  "signed_message oid pid = oid @ ''|'' @ pid"

definition paise_to_rupees :: "int \<Rightarrow> money" where
  "paise_to_rupees p = of_int p / 100"

definition topup_tx :: "string \<Rightarrow> money \<Rightarrow> string \<Rightarrow> gateway_tx" where
  "topup_tx aid r pid = \<lparr>tx_account = aid, tx_type = ''wallet_topup'', tx_amount = r,
     tx_status = ''completed'', tx_payment = pid\<rparr>"

definition verify_payment ::
  "bool \<Rightarrow> uid option \<Rightarrow> string \<Rightarrow> string \<Rightarrow> string \<Rightarrow> string \<Rightarrow> string \<Rightarrow>
   (string \<Rightarrow> string \<Rightarrow> string) \<Rightarrow> (string \<Rightarrow> rp_payment option) \<Rightarrow> bool \<times> bool \<Rightarrow> gateway_db \<Rightarrow>
   (money \<times> money) gw_response \<times> gateway_db" where
  "verify_payment is_options user oid pid sig aid secret hmac fetch fails db =
     (if is_options then (Preflight, db)
      else case user of
        None \<Rightarrow> (GwError Unauthorized, db)
      | Some u \<Rightarrow>
          if oid = [] \<or> pid = [] \<or> sig = [] \<or> aid = [] then (GwError MissingPaymentDetails, db)
          else if hmac secret (signed_message oid pid) \<noteq> sig then (GwError InvalidSignature, db)
          else case fetch pid of
            None \<Rightarrow> (GwError FetchFailed, db)
          | Some p \<Rightarrow>
              if rp_status p \<noteq> ''captured'' \<and> rp_status p \<noteq> ''authorized''
              then (GwError PaymentNotSuccessful, db)
              else
                let r = paise_to_rupees (rp_amount p) in
                case find_account db aid u of
                  None \<Rightarrow> (GwError AccountNotFound, db)
                | Some acc \<Rightarrow>
                    let nb = wallet_balance acc + r in
                    if fst fails then (GwError UpdateFailed, db)
                    else
                      let db1 = db\<lparr>accounts := update_where (\<lambda>a. acc_id a = aid)
                                   (\<lambda>a. a\<lparr>wallet_balance := nb\<rparr>) (accounts db)\<rparr>;
                          db2 = (if snd fails then db1
                                 else db1\<lparr>gw_transactions := gw_transactions db1 @ [topup_tx aid r pid]\<rparr>)
                      in (GwOk (r, nb), db2))"

subsection \<open>Example environment\<close>

definition example_hmac :: "string \<Rightarrow> string \<Rightarrow> string" where
  "example_hmac k m = (if k = ''key'' \<and> m = ''order_1|pay_1'' then ''5f2a'' else ''0000'')"

definition example_fetch :: "string \<Rightarrow> rp_payment option" where
  "example_fetch pid = (if pid = ''pay_1'' then Some \<lparr>rp_status = ''captured'', rp_amount = 150000\<rparr> else None)"

definition example_gateway_db :: gateway_db where
  "example_gateway_db = \<lparr>accounts = [\<lparr>acc_id = ''acc_1'', acc_user = 7, wallet_balance = 200\<rparr>,
                                     \<lparr>acc_id = ''acc_2'', acc_user = 8, wallet_balance = 50\<rparr>],
                         gw_transactions = []\<rparr>"

subsection \<open>Properties\<close>

lemma find_account_Some:
  "find_account db aid u = Some a \<Longrightarrow> a \<in> set (accounts db) \<and> acc_id a = aid \<and> acc_user a = u"
proof -
  assume h: "find_account db aid u = Some a"
  then obtain xs where xs: "filter (\<lambda>a. acc_id a = aid \<and> acc_user a = u) (accounts db) = xs" and "xs = [a]"
    by (auto simp: find_account_def split: list.splits)
  then have "a \<in> set (filter (\<lambda>a. acc_id a = aid \<and> acc_user a = u) (accounts db))" by simp
  then show ?thesis by simp
qed

lemma verify_payment_changes:
  assumes "snd (verify_payment opt user oid pid sig aid secret hmac fetch fails db) \<noteq> db"
  shows "\<not> opt \<and> user \<noteq> None \<and> hmac secret (signed_message oid pid) = sig \<and>
    (\<exists>p. fetch pid = Some p \<and> (rp_status p = ''captured'' \<or> rp_status p = ''authorized'')) \<and>
    (\<exists>u acc. user = Some u \<and> find_account db aid u = Some acc) \<and> \<not> fst fails"
  using assms
  by (auto simp: verify_payment_def Let_def split: if_splits option.splits)

text \<open>C11: a payment whose signature does not verify leaves the wallet balances and transactions untouched.\<close>

theorem verify_payment_bad_signature:
  assumes "hmac secret (signed_message oid pid) \<noteq> sig"
  shows "snd (verify_payment opt user oid pid sig aid secret hmac fetch fails db) = db"
  using verify_payment_changes assms by blast

theorem verify_payment_only_captured:
  assumes "fetch pid = Some p" and "rp_status p \<noteq> ''captured''" and "rp_status p \<noteq> ''authorized''"
  shows "snd (verify_payment opt user oid pid sig aid secret hmac fetch fails db) = db"
  using verify_payment_changes assms by fastforce

theorem verify_payment_success:
  assumes "user = Some u" and "oid \<noteq> []" "pid \<noteq> []" "sig \<noteq> []" "aid \<noteq> []"
    and "hmac secret (signed_message oid pid) = sig" and "fetch pid = Some p"
    and "rp_status p = ''captured'' \<or> rp_status p = ''authorized''"
    and "find_account db aid u = Some acc"
  shows "verify_payment False user oid pid sig aid secret hmac fetch (False, False) db =
    (GwOk (paise_to_rupees (rp_amount p), wallet_balance acc + paise_to_rupees (rp_amount p)),
     \<lparr>accounts = update_where (\<lambda>a. acc_id a = aid)
        (\<lambda>a. a\<lparr>wallet_balance := wallet_balance acc + paise_to_rupees (rp_amount p)\<rparr>) (accounts db),
      gw_transactions = gw_transactions db @ [topup_tx aid (paise_to_rupees (rp_amount p)) pid]\<rparr>)"
  using assms by (auto simp: verify_payment_def Let_def)

text \<open>C23: replaying the same signed payment confirmation credits the wallet a second time.\<close>

theorem verify_payment_replay:
  assumes "user = Some u" and "oid \<noteq> []" "pid \<noteq> []" "sig \<noteq> []" "aid \<noteq> []"
    and "hmac secret (signed_message oid pid) = sig" and "fetch pid = Some p"
    and "rp_status p = ''captured''"
    and "accounts db = [acc]" and "acc_id acc = aid" and "acc_user acc = u"
  shows "accounts (snd (verify_payment False user oid pid sig aid secret hmac fetch (False, False)
            (snd (verify_payment False user oid pid sig aid secret hmac fetch (False, False) db)))) =
         [acc\<lparr>wallet_balance := wallet_balance acc + 2 * paise_to_rupees (rp_amount p)\<rparr>]"
  using assms by (simp add: verify_payment_def find_account_def Let_def)

theorem amount_in_paise_bounds:
  assumes "1 \<le> a"
  shows "100 \<le> amount_in_paise a \<and> \<bar>of_int (amount_in_paise a) - a * 100\<bar> \<le> 1 / 2"
proof -
  have b: "of_int (js_round (a * 100)) - 1/2 \<le> a * 100 \<and> a * 100 < of_int (js_round (a * 100)) + 1/2"
    by (rule js_round_bounds)
  then have "(99 :: rat) < of_int (js_round (a * 100))" using assms by linarith
  then have "99 < js_round (a * 100)" by simp
  moreover have "\<bar>of_int (js_round (a * 100)) - a * 100\<bar> \<le> 1 / 2"
    unfolding abs_le_iff using b by linarith
  ultimately show ?thesis by (simp add: amount_in_paise_def)
qed

theorem paise_roundtrip: "amount_in_paise (paise_to_rupees k) = k \<and> paise_to_rupees (amount_in_paise (paise_to_rupees k)) = paise_to_rupees k"
  by (simp add: amount_in_paise_def paise_to_rupees_def js_round_def)

theorem create_order_minimum:
  assumes "a < 1"
  shows "create_order False (Some u) (Some a) aid db razorpay = GwError MinimumAmount"
  using assms by (simp add: create_order_def)

theorem create_order_sends_paise:
  assumes "1 \<le> a" and "aid \<noteq> []" and "find_account db aid u = Some acc"
  shows "create_order False (Some u) (Some a) aid db razorpay =
    (case razorpay (amount_in_paise a) of Inl t \<Rightarrow> GwError (RazorpayApiError t) | Inr ord \<Rightarrow> GwOk ord)"
  using assms by (simp add: create_order_def)


lemma example_find_account:
  "find_account example_gateway_db ''acc_1'' 7 = Some \<lparr>acc_id = ''acc_1'', acc_user = 7, wallet_balance = 200\<rparr>"
  by (simp add: find_account_def example_gateway_db_def)

theorem verify_payment_bad_signature_witness:
  "example_hmac ''key'' (signed_message ''order_1'' ''pay_1'') \<noteq> ''beef'' \<and>
   snd (verify_payment False (Some 7) ''order_1'' ''pay_1'' ''beef'' ''acc_1'' ''key'' example_hmac example_fetch
     (False, False) example_gateway_db) = example_gateway_db"
proof -
  have h: "example_hmac ''key'' (signed_message ''order_1'' ''pay_1'') \<noteq> ''beef''"
    by (simp add: example_hmac_def signed_message_def)
  show ?thesis
    using h verify_payment_bad_signature [where hmac = example_hmac and secret = "''key''" and oid = "''order_1''"
      and pid = "''pay_1''" and sig = "''beef''", OF h] by blast
qed

theorem verify_payment_only_captured_witness:
  "(\<lambda>_. Some \<lparr>rp_status = ''failed'', rp_amount = 150000\<rparr>) ''pay_1'' = Some \<lparr>rp_status = ''failed'', rp_amount = 150000\<rparr> \<and>
   snd (verify_payment False (Some 7) ''order_1'' ''pay_1'' ''5f2a'' ''acc_1'' ''key'' example_hmac
     (\<lambda>_. Some \<lparr>rp_status = ''failed'', rp_amount = 150000\<rparr>) (False, False) example_gateway_db) = example_gateway_db"
  using verify_payment_only_captured [of "\<lambda>_. Some \<lparr>rp_status = ''failed'', rp_amount = 150000\<rparr>" "''pay_1''"
      "\<lparr>rp_status = ''failed'', rp_amount = 150000\<rparr>"]
  by simp

theorem verify_payment_success_witness:
  "example_hmac ''key'' (signed_message ''order_1'' ''pay_1'') = ''5f2a'' \<and>
   example_fetch ''pay_1'' = Some \<lparr>rp_status = ''captured'', rp_amount = 150000\<rparr> \<and>
   find_account example_gateway_db ''acc_1'' 7 = Some \<lparr>acc_id = ''acc_1'', acc_user = 7, wallet_balance = 200\<rparr> \<and>
   fst (verify_payment False (Some 7) ''order_1'' ''pay_1'' ''5f2a'' ''acc_1'' ''key'' example_hmac example_fetch
     (False, False) example_gateway_db) = GwOk (1500, 1700)"
proof -
  have h: "example_hmac ''key'' (signed_message ''order_1'' ''pay_1'') = ''5f2a''"
    by (simp add: example_hmac_def signed_message_def)
  have f: "example_fetch ''pay_1'' = Some \<lparr>rp_status = ''captured'', rp_amount = 150000\<rparr>"
    by (simp add: example_fetch_def)
  show ?thesis
    using h f example_find_account
      verify_payment_success [where hmac = example_hmac and fetch = example_fetch and secret = "''key''"
        and oid = "''order_1''" and pid = "''pay_1''" and sig = "''5f2a''" and user = "Some 7" and u = 7
        and aid = "''acc_1''" and db = example_gateway_db, OF refl _ _ _ _ h f _ example_find_account]
    by (simp add: paise_to_rupees_def)
qed

theorem verify_payment_replay_witness:
  "example_hmac ''key'' (signed_message ''order_1'' ''pay_1'') = ''5f2a'' \<and>
   example_fetch ''pay_1'' = Some \<lparr>rp_status = ''captured'', rp_amount = 150000\<rparr> \<and>
   accounts (snd (verify_payment False (Some 7) ''order_1'' ''pay_1'' ''5f2a'' ''acc_1'' ''key'' example_hmac example_fetch
     (False, False) (snd (verify_payment False (Some 7) ''order_1'' ''pay_1'' ''5f2a'' ''acc_1'' ''key'' example_hmac
     example_fetch (False, False) \<lparr>accounts = [\<lparr>acc_id = ''acc_1'', acc_user = 7, wallet_balance = 200\<rparr>],
     gw_transactions = []\<rparr>)))) = [\<lparr>acc_id = ''acc_1'', acc_user = 7, wallet_balance = 3200\<rparr>]"
proof -
  have h: "example_hmac ''key'' (signed_message ''order_1'' ''pay_1'') = ''5f2a''"
    by (simp add: example_hmac_def signed_message_def)
  have f: "example_fetch ''pay_1'' = Some \<lparr>rp_status = ''captured'', rp_amount = 150000\<rparr>"
    by (simp add: example_fetch_def)
  show ?thesis
    using h f verify_payment_replay [where hmac = example_hmac and fetch = example_fetch and secret = "''key''"
        and oid = "''order_1''" and pid = "''pay_1''" and sig = "''5f2a''" and user = "Some 7" and u = 7
        and aid = "''acc_1''", OF refl _ _ _ _ h f, of "\<lparr>accounts = [\<lparr>acc_id = ''acc_1'', acc_user = 7,
      wallet_balance = 200\<rparr>], gw_transactions = []\<rparr>" "\<lparr>acc_id = ''acc_1'', acc_user = 7, wallet_balance = 200\<rparr>"]
    by (simp add: paise_to_rupees_def)
qed

theorem amount_in_paise_bounds_witness:
  "1 \<le> (12345 / 1000 :: money) \<and> amount_in_paise (12345 / 1000) = 1235 \<and>
   100 \<le> amount_in_paise (12345 / 1000) \<and> \<bar>of_int (amount_in_paise (12345 / 1000)) - 12345 / 1000 * 100\<bar> \<le> (1 / 2 :: money)"
proof -
  have h: "1 \<le> (12345 / 1000 :: money)" by simp
  show ?thesis using h amount_in_paise_bounds [OF h] by (simp add: amount_in_paise_def js_round_def)
qed

theorem create_order_minimum_witness:
  "(1 / 2 :: money) < 1 \<and> create_order False (Some 7) (Some (1 / 2)) ''acc_1'' example_gateway_db
     (\<lambda>p. Inr \<lparr>order_id = ''order_1'', order_amount = p, order_currency = ''INR''\<rparr>) = GwError MinimumAmount"
  using create_order_minimum [of "1 / 2"] by simp

theorem create_order_sends_paise_witness:
  "1 \<le> (1500 :: money) \<and> ''acc_1'' \<noteq> [] \<and>
   find_account example_gateway_db ''acc_1'' 7 = Some \<lparr>acc_id = ''acc_1'', acc_user = 7, wallet_balance = 200\<rparr> \<and>
   create_order False (Some 7) (Some 1500) ''acc_1'' example_gateway_db
     (\<lambda>p. Inr \<lparr>order_id = ''order_1'', order_amount = p, order_currency = ''INR''\<rparr>) =
   GwOk \<lparr>order_id = ''order_1'', order_amount = 150000, order_currency = ''INR''\<rparr>"
  using example_find_account create_order_sends_paise [OF _ _ example_find_account, of 1500]
  by (simp add: amount_in_paise_def js_round_def)

end
