(* ===== verification/Wallet.thy ===== *)
theory Wallet
  imports Prelude
begin

text \<open>
  The wallet store: one \<open>wallets\<close> row per user with the columns the home screen reads
  (\<open>src/app/(tabs)/index.tsx\<close>, \<open>WalletData\<close>).  Registration inserts a zero wallet
  (\<open>src/app/auth/register.tsx\<close>); the payment flow adds gold through the
  \<open>execute_sql\<close> remote procedure, an \<open>UPDATE wallets SET gold_balance_mg = ... WHERE
  user_id = ...\<close> that changes nothing when the user has no wallet row
  (\<open>src/app/(tabs)/plans.tsx\<close>).  The credit and debit operations of the spec
  (section 4.5, the balance mutation surface of the commission engine) are not in the
  repository's sources and are modelled from the spec.
\<close>

record wallet =
  saving_balance :: money
  referral_balance :: money
  total_balance :: money
  gold_balance_mg :: money
  total_earnings :: money
  total_withdrawn :: money

type_synonym wallets = "uid \<rightharpoonup> wallet"

datatype wallet_field = SavingsBalance | ReferralBalance | GoldBalanceMg | TotalEarnings | TotalWithdrawn

datatype wallet_error = InsufficientBalance

definition new_wallet :: wallet where
  "new_wallet = \<lparr>saving_balance = 0, referral_balance = 0, total_balance = 0,
                 gold_balance_mg = 0, total_earnings = 0, total_withdrawn = 0\<rparr>"

definition add_gold_mg :: "uid \<Rightarrow> money \<Rightarrow> wallets \<Rightarrow> wallets" where
  "add_gold_mg u mg ws =
     (case ws u of
        None \<Rightarrow> ws
      | Some w \<Rightarrow> ws(u \<mapsto> w\<lparr>gold_balance_mg := gold_balance_mg w + mg\<rparr>))"

definition recompute_total :: "wallet \<Rightarrow> wallet" where
  "recompute_total w = w\<lparr>total_balance := saving_balance w + referral_balance w\<rparr>"

fun field_value :: "wallet \<Rightarrow> wallet_field \<Rightarrow> money" where
  "field_value w SavingsBalance = saving_balance w"
| "field_value w ReferralBalance = referral_balance w"
| "field_value w GoldBalanceMg = gold_balance_mg w"
| "field_value w TotalEarnings = total_earnings w"
| "field_value w TotalWithdrawn = total_withdrawn w"

fun set_field :: "wallet \<Rightarrow> wallet_field \<Rightarrow> money \<Rightarrow> wallet" where
  "set_field w SavingsBalance a = recompute_total (w\<lparr>saving_balance := a\<rparr>)"
| "set_field w ReferralBalance a = recompute_total (w\<lparr>referral_balance := a\<rparr>)"
| "set_field w GoldBalanceMg a = w\<lparr>gold_balance_mg := a\<rparr>"
| "set_field w TotalEarnings a = w\<lparr>total_earnings := a\<rparr>"
| "set_field w TotalWithdrawn a = w\<lparr>total_withdrawn := a\<rparr>"

definition credit :: "wallet \<Rightarrow> wallet_field \<Rightarrow> money \<Rightarrow> wallet" where
  "credit w f a = set_field w f (field_value w f + a)"

definition debit :: "wallet \<Rightarrow> wallet_field \<Rightarrow> money \<Rightarrow> wallet_error + wallet" where
  "debit w f a =
     (if field_value w f < a then Inl InsufficientBalance else Inr (set_field w f (field_value w f - a)))"

definition wallet_ok :: "wallet \<Rightarrow> bool" where
  "wallet_ok w \<longleftrightarrow>
     total_balance w = saving_balance w + referral_balance w \<and>
     0 \<le> saving_balance w \<and> 0 \<le> referral_balance w \<and> 0 \<le> gold_balance_mg w \<and>
     0 \<le> total_earnings w \<and> 0 \<le> total_withdrawn w"

definition wallets_ok :: "wallets \<Rightarrow> bool" where
  "wallets_ok ws \<longleftrightarrow> (\<forall>w \<in> ran ws. wallet_ok w)"

lemma field_value_set_field [simp]: "field_value (set_field w f a) f = a"
  by (cases f) (simp_all add: recompute_total_def)

lemma set_field_ok:
  "wallet_ok w \<Longrightarrow> 0 \<le> a \<Longrightarrow> wallet_ok (set_field w f a)"
  by (cases f) (auto simp: wallet_ok_def recompute_total_def)

lemma wallet_ok_field_nonneg: "wallet_ok w \<Longrightarrow> 0 \<le> field_value w f"
  by (cases f) (auto simp: wallet_ok_def)

lemma wallets_ok_upd [simp]:
  "wallets_ok ws \<Longrightarrow> wallet_ok w \<Longrightarrow> wallets_ok (ws(u \<mapsto> w))"
  by (auto simp: wallets_ok_def ran_def)

lemma wallets_ok_lookup: "wallets_ok ws \<Longrightarrow> ws u = Some w \<Longrightarrow> wallet_ok w"
  by (auto simp: wallets_ok_def ran_def)

lemma add_gold_mg_other [simp]: "v \<noteq> u \<Longrightarrow> add_gold_mg u mg ws v = ws v"
  by (simp add: add_gold_mg_def split: option.splits)

lemma add_gold_mg_same:
  "add_gold_mg u mg ws u = map_option (\<lambda>w. w\<lparr>gold_balance_mg := gold_balance_mg w + mg\<rparr>) (ws u)"
  by (simp add: add_gold_mg_def split: option.splits)

end
