(* ===== verification/Auth.thy ===== *)
theory Auth
  imports Wallet
begin

text \<open>
  Registration, sign-in and the session context.
  \<^item> \<open>src/app/auth/register.tsx\<close>: the input filters of the form, the guard chain of
    \<open>handleRegister\<close>, the sign-up with the e-mail derived from the phone digits, the
    referral-code lookup (\<open>maybeSingle\<close>), the profile insert (an error is thrown) and the
    wallet insert (an error is only logged).
  \<^item> \<open>src/contexts/AuthContext.tsx\<close>: \<open>signInWithPassword\<close>, \<open>fetchProfile\<close>,
    \<open>reloadProfile\<close>, \<open>signOut\<close>, the session restore on mount and the auth-state
    listener, over a state record of the context and the stored session.
  \<^item> \<open>src/app/auth/login.tsx\<close>: \<open>handleLogin\<close>, which compares the input with a
    hard-coded phone and password and never calls the context.
  The hosted authentication service is modelled by its observable contract: a list of
  accounts (e-mail, password, user id), sign-up fails on a known e-mail and otherwise
  creates an account with a fresh id, sign-in succeeds on a matching e-mail and password.
  Characters are bytes; the JavaScript character classes are modelled on ASCII
  (\<open>\d\<close> is \<open>0-9\<close>, \<open>toUpperCase\<close> maps \<open>a-z\<close>, \<open>trim\<close> removes the ASCII white space
  and the no-break space).  A failure of the profile or wallet insert is an input.
\<close>

definition is_digit :: "char \<Rightarrow> bool" where
  "is_digit c \<longleftrightarrow> 48 \<le> (of_char c :: nat) \<and> (of_char c :: nat) \<le> 57"

definition is_upper_ascii :: "char \<Rightarrow> bool" where
  "is_upper_ascii c \<longleftrightarrow> 65 \<le> (of_char c :: nat) \<and> (of_char c :: nat) \<le> 90"

definition js_upper_char :: "char \<Rightarrow> char" where
  "js_upper_char c =
     (case map_of (zip ''abcdefghijklmnopqrstuvwxyz'' ''ABCDEFGHIJKLMNOPQRSTUVWXYZ'') c of
        None \<Rightarrow> c
      | Some u \<Rightarrow> u)"

definition js_upper :: "string \<Rightarrow> string" where
  "js_upper s = map js_upper_char s"

definition js_is_space :: "char \<Rightarrow> bool" where
  "js_is_space c \<longleftrightarrow> (of_char c :: nat) \<in> {9, 10, 11, 12, 13, 32, 160}"

definition js_trim :: "string \<Rightarrow> string" where
  "js_trim s = rev (dropWhile js_is_space (rev (dropWhile js_is_space s)))"

definition strip_non_digits :: "string \<Rightarrow> string" where
  \<comment> \<open>\<open>phone.replace(/\D+/g, '')\<close>\<close>
  "strip_non_digits s = filter is_digit s"

definition auth_email :: "string \<Rightarrow> string" where
  "auth_email phone = strip_non_digits phone @ ''@asjewellers.app''"

definition aadhar_ok :: "string \<Rightarrow> bool" where
  \<comment> \<open>\<open>/^\d{12}$/\<close>\<close>
  "aadhar_ok s \<longleftrightarrow> length s = 12 \<and> list_all is_digit s"

definition pan_ok :: "string \<Rightarrow> bool" where
  \<comment> \<open>\<open>/^[A-Z]{5}[0-9]{4}[A-Z]$/\<close>\<close>
  "pan_ok s \<longleftrightarrow>
     length s = 10 \<and> list_all is_upper_ascii (take 5 s) \<and> list_all is_digit (take 4 (drop 5 s)) \<and>
     is_upper_ascii (s ! 9)"

definition aadhar_input :: "string \<Rightarrow> string" where
  "aadhar_input t = take 12 (filter is_digit t)"

definition pan_input :: "string \<Rightarrow> string" where
  "pan_input t = take 10 (js_upper t)"

definition referral_input :: "string \<Rightarrow> string" where
  "referral_input t = js_upper t"

primrec digit_chars :: "nat \<Rightarrow> nat \<Rightarrow> string" where
  \<comment> \<open>the decimal numeral of a number, padded to the given number of digits\<close>
  "digit_chars 0 n = []"
| "digit_chars (Suc k) n = digit_chars k (n div 10) @ [''0123456789'' ! (n mod 10)]"

fun digits_value :: "string \<Rightarrow> nat" where
  "digits_value [] = 0"
| "digits_value (c # cs) = (of_char c - 48) * 10 ^ length cs + digits_value cs"

definition generated_referral_code :: "nat \<Rightarrow> string" where
  \<comment> \<open>\<open>'REF' + Math.floor(100000 + Math.random() * 900000)\<close>, for the drawn integer \<open>n < 900000\<close>\<close>
  "generated_referral_code n = ''REF'' @ digit_chars 6 (100000 + n)"

record reg_form =
  rf_full_name :: string
  rf_phone :: string
  rf_password :: string
  rf_confirm :: string
  rf_aadhar :: string
  rf_pan :: string
  rf_referral :: string

record profile =
  prof_id :: uid
  prof_phone :: string
  prof_name :: string
  prof_aadhar :: string
  prof_pan :: string
  prof_code :: string
  prof_referred_by :: "uid option"
  prof_active :: bool
  prof_kyc :: bool

record auth_account =
  acc_email :: string
  acc_password :: string
  acc_uid :: uid

record auth_db =
  accounts :: "auth_account list"
  next_uid :: uid
  profiles :: "profile list"
  reg_wallets :: wallets

datatype reg_error =
    ErrFullName | ErrPhone | ErrPassword | ErrMismatch | ErrAadhar | ErrPan
  | ErrAlreadyRegistered | ErrReferralLookup | ErrInvalidReferralCode | ErrProfileInsert

datatype reg_write = W_ProfileInsert | W_WalletInsert

definition validate_registration :: "reg_form \<Rightarrow> reg_error option" where
  "validate_registration f =
     (if js_trim (rf_full_name f) = [] then Some ErrFullName
      else if rf_phone f = [] \<or> length (rf_phone f) < 10 then Some ErrPhone
      else if length (rf_password f) < 6 then Some ErrPassword
      else if rf_password f \<noteq> rf_confirm f then Some ErrMismatch
      else if \<not> aadhar_ok (rf_aadhar f) then Some ErrAadhar
      else if \<not> pan_ok (rf_pan f) then Some ErrPan
      else None)"

definition auth_sign_up :: "string \<Rightarrow> string \<Rightarrow> auth_db \<Rightarrow> reg_error + (uid \<times> auth_db)" where
  "auth_sign_up email pw db =
     (if list_ex (\<lambda>a. acc_email a = email) (accounts db) then Inl ErrAlreadyRegistered
      else Inr (next_uid db,
                db\<lparr>accounts := accounts db @ [\<lparr>acc_email = email, acc_password = pw, acc_uid = next_uid db\<rparr>],
                   next_uid := Suc (next_uid db)\<rparr>))"

definition lookup_referrer :: "string \<Rightarrow> profile list \<Rightarrow> reg_error + uid option" where
  \<comment> \<open>\<open>maybeSingle\<close> on \<open>referral_code = code\<close>: several rows are an error\<close>
  "lookup_referrer code ps =
     (case filter (\<lambda>p. prof_code p = code) ps of
        [] \<Rightarrow> Inr None
      | [p] \<Rightarrow> Inr (Some (prof_id p))
      | _ \<Rightarrow> Inl ErrReferralLookup)"

definition new_profile :: "uid \<Rightarrow> reg_form \<Rightarrow> string \<Rightarrow> uid option \<Rightarrow> profile" where
  "new_profile u f code r =
     \<lparr>prof_id = u, prof_phone = strip_non_digits (rf_phone f), prof_name = js_trim (rf_full_name f),
      prof_aadhar = rf_aadhar f, prof_pan = js_upper (rf_pan f), prof_code = code,
      prof_referred_by = r, prof_active = True, prof_kyc = False\<rparr>"

definition resolve_referrer :: "string \<Rightarrow> profile list \<Rightarrow> reg_error + uid option" where
  "resolve_referrer code ps =
     (if js_trim code = [] then Inr None
      else (case lookup_referrer (js_upper (js_trim code)) ps of
              Inl e \<Rightarrow> Inl e
            | Inr None \<Rightarrow> Inl ErrInvalidReferralCode
            | Inr (Some r) \<Rightarrow> Inr (Some r)))"

definition insert_profile_wallet :: "reg_write set \<Rightarrow> profile \<Rightarrow> auth_db \<Rightarrow> (reg_error + uid) \<times> auth_db" where
  "insert_profile_wallet F p db =
     (if W_ProfileInsert \<in> F then (Inl ErrProfileInsert, db)
      else
        (let db2 = db\<lparr>profiles := profiles db @ [p]\<rparr>
         in if W_WalletInsert \<in> F \<or> reg_wallets db2 (prof_id p) \<noteq> None then (Inr (prof_id p), db2)
            else (Inr (prof_id p), db2\<lparr>reg_wallets := (reg_wallets db2)(prof_id p \<mapsto> new_wallet)\<rparr>)))"

definition handle_register :: "reg_write set \<Rightarrow> nat \<Rightarrow> reg_form \<Rightarrow> auth_db \<Rightarrow> (reg_error + uid) \<times> auth_db" where
  "handle_register F n f db =
     (case validate_registration f of
        Some e \<Rightarrow> (Inl e, db)
      | None \<Rightarrow>
          (case auth_sign_up (auth_email (rf_phone f)) (rf_password f) db of
             Inl e \<Rightarrow> (Inl e, db)
           | Inr (u, db1) \<Rightarrow>
               (case resolve_referrer (rf_referral f) (profiles db1) of
                  Inl e \<Rightarrow> (Inl e, db1)
                | Inr r \<Rightarrow> insert_profile_wallet F (new_profile u f (generated_referral_code n) r) db1)))"

datatype login_outcome = LoginOk | LoginError string

definition handle_login :: "string \<Rightarrow> string \<Rightarrow> login_outcome" where
  "handle_login phone pw =
     (if phone = ''1234567890'' \<and> pw = ''123456'' then LoginOk
      else LoginError ''Invalid phone number or password'')"

record auth_ctx =
  ctx_user :: "uid option"
  ctx_profile :: "profile option"
  ctx_loading :: bool
  stored_session :: "uid option"

definition initial_ctx :: auth_ctx where
  "initial_ctx = \<lparr>ctx_user = None, ctx_profile = None, ctx_loading = True, stored_session = None\<rparr>"

definition fetch_profile :: "profile list \<Rightarrow> uid \<Rightarrow> profile option" where
  "fetch_profile ps u = (case filter (\<lambda>p. prof_id p = u) ps of [p] \<Rightarrow> Some p | _ \<Rightarrow> None)"

definition sign_in_with_password :: "string \<Rightarrow> string \<Rightarrow> auth_db \<Rightarrow> auth_ctx \<Rightarrow> string option \<times> auth_ctx" where
  "sign_in_with_password phone pw db ctx =
     (case find (\<lambda>a. acc_email a = auth_email phone \<and> acc_password a = pw) (accounts db) of
        None \<Rightarrow> (Some ''Invalid login credentials'', ctx)
      | Some a \<Rightarrow> (None, ctx\<lparr>ctx_user := Some (acc_uid a), ctx_profile := fetch_profile (profiles db) (acc_uid a),
                              stored_session := Some (acc_uid a)\<rparr>))"

definition sign_out :: "auth_ctx \<Rightarrow> auth_ctx" where
  "sign_out ctx = ctx\<lparr>ctx_user := None, ctx_profile := None, stored_session := None\<rparr>"

definition restore_session :: "auth_db \<Rightarrow> auth_ctx \<Rightarrow> auth_ctx" where
  "restore_session db ctx =
     (case stored_session ctx of
        None \<Rightarrow> ctx\<lparr>ctx_loading := False\<rparr>
      | Some u \<Rightarrow> ctx\<lparr>ctx_user := Some u, ctx_profile := fetch_profile (profiles db) u, ctx_loading := False\<rparr>)"

definition auth_state_change :: "uid option \<Rightarrow> auth_db \<Rightarrow> auth_ctx \<Rightarrow> auth_ctx" where
  "auth_state_change s db ctx =
     (case s of
        Some u \<Rightarrow> ctx\<lparr>ctx_user := Some u, ctx_profile := fetch_profile (profiles db) u, stored_session := Some u\<rparr>
      | None \<Rightarrow> ctx\<lparr>ctx_user := None, ctx_profile := None, stored_session := None\<rparr>)"

definition reload_profile :: "auth_db \<Rightarrow> auth_ctx \<Rightarrow> auth_ctx" where
  "reload_profile db ctx =
     (case ctx_user ctx of
        None \<Rightarrow> ctx\<lparr>ctx_profile := None\<rparr>
      | Some u \<Rightarrow> ctx\<lparr>ctx_profile := fetch_profile (profiles db) u\<rparr>)"

definition example_form :: reg_form where
  "example_form =
     \<lparr>rf_full_name = '' Asha '', rf_phone = ''98765-43210'', rf_password = ''secret1'', rf_confirm = ''secret1'',
      rf_aadhar = ''123412341234'', rf_pan = ''ABCDE1234F'', rf_referral = ''''\<rparr>"

definition empty_auth_db :: auth_db where
  "empty_auth_db = \<lparr>accounts = [], next_uid = 1, profiles = [], reg_wallets = Map.empty\<rparr>"

definition auth_inv :: "auth_db \<Rightarrow> bool" where
  "auth_inv db \<longleftrightarrow>
     distinct (map acc_email (accounts db)) \<and>
     (\<forall>a \<in> set (accounts db). acc_uid a < next_uid db) \<and>
     (\<forall>p \<in> set (profiles db). prof_id p < next_uid db) \<and>
     distinct (map prof_id (profiles db)) \<and>
     (\<forall>p \<in> set (profiles db). \<forall>r. prof_referred_by p = Some r \<longrightarrow> r \<in> prof_id ` set (profiles db) \<and> r \<noteq> prof_id p)"

inductive auth_reach :: "auth_db \<Rightarrow> bool" where
  auth_init: "auth_reach empty_auth_db"
| auth_register: "auth_reach db \<Longrightarrow> auth_reach (snd (handle_register F n f db))"

definition example_registered :: auth_db where
  "example_registered = snd (handle_register {} 42 example_form empty_auth_db)"

lemma auth_sign_up_Inr:
  "auth_sign_up email pw db = Inr (u, db1) \<Longrightarrow>
     u = next_uid db \<and> \<not> list_ex (\<lambda>a. acc_email a = email) (accounts db) \<and>
     db1 = db\<lparr>accounts := accounts db @ [\<lparr>acc_email = email, acc_password = pw, acc_uid = u\<rparr>],
              next_uid := Suc (next_uid db)\<rparr>"
  by (auto simp: auth_sign_up_def split: if_splits)

lemma lookup_referrer_Some: "lookup_referrer code ps = Inr (Some r) \<Longrightarrow> r \<in> prof_id ` set ps"
proof -
  assume "lookup_referrer code ps = Inr (Some r)"
  then obtain p where "filter (\<lambda>p. prof_code p = code) ps = [p]" "r = prof_id p"
    by (auto simp: lookup_referrer_def split: list.splits)
  then have "p \<in> set (filter (\<lambda>p. prof_code p = code) ps)" by simp
  then have "p \<in> set ps" by simp
  then show ?thesis using \<open>r = prof_id p\<close> by blast
qed

lemma resolve_referrer_Some: "resolve_referrer code ps = Inr (Some r) \<Longrightarrow> r \<in> prof_id ` set ps"
  by (auto simp: resolve_referrer_def dest: lookup_referrer_Some split: if_splits sum.splits option.splits)

lemma auth_inv_sign_up:
  assumes "auth_inv db" "auth_sign_up email pw db = Inr (u, db1)"
  shows "auth_inv db1 \<and> u = next_uid db \<and> next_uid db1 = Suc u \<and> profiles db1 = profiles db \<and>
         reg_wallets db1 = reg_wallets db \<and> u \<notin> prof_id ` set (profiles db)"
proof -
  have d: "u = next_uid db" "\<not> list_ex (\<lambda>a. acc_email a = email) (accounts db)"
    "db1 = db\<lparr>accounts := accounts db @ [\<lparr>acc_email = email, acc_password = pw, acc_uid = u\<rparr>],
              next_uid := Suc (next_uid db)\<rparr>"
    using auth_sign_up_Inr [OF assms(2)] by auto
  then have "auth_inv db1" using assms(1) by (auto simp: auth_inv_def list_ex_iff less_SucI)
  moreover have "u \<notin> prof_id ` set (profiles db)" using assms(1) d(1) by (auto simp: auth_inv_def)
  ultimately show ?thesis using d by simp
qed

lemma auth_inv_wallets [simp]: "auth_inv (db\<lparr>reg_wallets := w\<rparr>) = auth_inv db"
  by (simp add: auth_inv_def)

lemma auth_inv_insert:
  assumes "auth_inv db" "prof_id p < next_uid db" "prof_id p \<notin> prof_id ` set (profiles db)"
    and "\<forall>r. prof_referred_by p = Some r \<longrightarrow> r \<in> prof_id ` set (profiles db)"
  shows "auth_inv (snd (insert_profile_wallet F p db))"
proof -
  have p: "auth_inv (db\<lparr>profiles := profiles db @ [p]\<rparr>)"
    using assms unfolding auth_inv_def by (auto 4 3)
  show ?thesis
  proof (cases "W_ProfileInsert \<in> F")
    case True
    then show ?thesis using assms(1) by (simp add: insert_profile_wallet_def)
  next
    case False
    then show ?thesis using p by (simp add: insert_profile_wallet_def Let_def)
  qed
qed

lemma new_profile_sel [simp]:
  "prof_id (new_profile u f c r) = u" "prof_referred_by (new_profile u f c r) = r"
  by (simp_all add: new_profile_def)

lemma auth_inv_register: "auth_inv db \<Longrightarrow> auth_inv (snd (handle_register F n f db))"
proof -
  assume inv: "auth_inv db"
  show ?thesis
  proof (cases "validate_registration f = None \<and>
                (\<exists>u db1. auth_sign_up (auth_email (rf_phone f)) (rf_password f) db = Inr (u, db1))")
    case True
    then obtain u db1 where v: "validate_registration f = None"
      and su: "auth_sign_up (auth_email (rf_phone f)) (rf_password f) db = Inr (u, db1)" by blast
    note s = auth_inv_sign_up [OF inv su]
    show ?thesis
    proof (cases "resolve_referrer (rf_referral f) (profiles db1)")
      case (Inl e)
      then show ?thesis using v su s by (simp add: handle_register_def)
    next
      case (Inr r)
      have "\<forall>a. r = Some a \<longrightarrow> a \<in> prof_id ` set (profiles db1)"
        using Inr resolve_referrer_Some by blast
      then have "auth_inv (snd (insert_profile_wallet F (new_profile u f (generated_referral_code n) r) db1))"
        using s by (intro auth_inv_insert) auto
      then show ?thesis using v su Inr by (simp add: handle_register_def)
    qed
  next
    case False
    then have "snd (handle_register F n f db) = db"
      by (auto simp: handle_register_def split: option.splits sum.splits)
    then show ?thesis using inv by simp
  qed
qed

lemma auth_inv_empty: "auth_inv empty_auth_db"
  by (simp add: auth_inv_def empty_auth_db_def)

lemma auth_reach_inv: "auth_reach db \<Longrightarrow> auth_inv db"
  by (induction rule: auth_reach.induct) (auto intro: auth_inv_empty auth_inv_register)

lemma digit_chars_numeral [simp]:
  "digit_chars (numeral k) n = digit_chars (pred_numeral k) (n div 10) @ [''0123456789'' ! (n mod 10)]"
  by (simp only: numeral_eq_Suc [of k] digit_chars.simps(2))

lemma handle_register_Inr:
  assumes "handle_register F n f db = (Inr u, db')"
  shows "\<exists>db1 r. validate_registration f = None \<and>
           auth_sign_up (auth_email (rf_phone f)) (rf_password f) db = Inr (u, db1) \<and>
           resolve_referrer (rf_referral f) (profiles db1) = Inr r \<and>
           accounts db' = accounts db1 \<and>
           profiles db' = profiles db1 @ [new_profile u f (generated_referral_code n) r]"
  using assms
  by (auto simp: handle_register_def insert_profile_wallet_def Let_def
      split: option.splits sum.splits prod.splits if_splits)

lemma of_char_digit: "of_char (''0123456789'' ! (n mod 10)) = 48 + n mod (10::nat)"
proof -
  have "n mod 10 < 10" by simp
  moreover have "d < 10 \<Longrightarrow> of_char (''0123456789'' ! d) = 48 + (d::nat)" for d
    by (auto simp: less_Suc_eq numeral_eq_Suc)
  ultimately show ?thesis by blast
qed

lemma digits_value_snoc: "digits_value (xs @ [c]) = 10 * digits_value xs + (of_char c - 48)"
  by (induction xs) (simp_all add: algebra_simps)

lemma length_digit_chars [simp]: "length (digit_chars k n) = k"
  by (induction k arbitrary: n) simp_all

lemma digits_value_digit_chars: "digits_value (digit_chars k n) = n mod 10 ^ k"
proof (induction k arbitrary: n)
  case (Suc k)
  have "digits_value (digit_chars (Suc k) n) = 10 * ((n div 10) mod 10 ^ k) + n mod 10"
    using Suc by (simp add: digits_value_snoc of_char_digit)
  also have "\<dots> = n mod 10 ^ Suc k"
    by (simp add: mod_mult2_eq mult.commute)
  finally show ?case .
qed simp

lemma example_registered_eval:
  "handle_register {} 42 example_form empty_auth_db = (Inr 1, example_registered) \<and>
   accounts example_registered =
     [\<lparr>acc_email = ''9876543210@asjewellers.app'', acc_password = ''secret1'', acc_uid = 1\<rparr>]"
proof -
  have "handle_register {} 42 example_form empty_auth_db = (Inr 1, snd (handle_register {} 42 example_form empty_auth_db))"
    by (simp add: handle_register_def example_form_def validate_registration_def js_trim_def js_is_space_def
        aadhar_ok_def pan_ok_def is_digit_def is_upper_ascii_def auth_sign_up_def empty_auth_db_def
        resolve_referrer_def insert_profile_wallet_def Let_def)
  moreover have "accounts example_registered =
     [\<lparr>acc_email = ''9876543210@asjewellers.app'', acc_password = ''secret1'', acc_uid = 1\<rparr>]"
    unfolding example_registered_def
    by (simp add: handle_register_def example_form_def validate_registration_def js_trim_def js_is_space_def
        aadhar_ok_def pan_ok_def is_digit_def is_upper_ascii_def auth_sign_up_def empty_auth_db_def
        resolve_referrer_def insert_profile_wallet_def Let_def auth_email_def strip_non_digits_def)
  ultimately show ?thesis by (simp add: example_registered_def)
qed

text \<open>C15: after any sequence of registrations, e-mails and profile ids are unique and every referrer is an existing other profile.\<close>

theorem auth_reachable_inv:
  assumes "auth_reach db"
  shows "distinct (map acc_email (accounts db)) \<and> distinct (map prof_id (profiles db)) \<and>
         (\<forall>p \<in> set (profiles db). \<forall>r. prof_referred_by p = Some r \<longrightarrow>
             r \<in> prof_id ` set (profiles db) \<and> r \<noteq> prof_id p)"
  using auth_reach_inv [OF assms] by (simp add: auth_inv_def)

theorem auth_reachable_inv_witness:
  "distinct (map acc_email (accounts example_registered))"
proof -
  have "auth_reach example_registered"
    unfolding example_registered_def by (rule auth_register [OF auth_init])
  then show ?thesis using auth_reachable_inv by blast
qed

text \<open>C16: after a successful registration, signing in with the same phone and password succeeds and loads the new profile.\<close>

theorem register_then_sign_in:
  assumes "auth_inv db" "handle_register F n f db = (Inr u, db')"
  shows "fst (sign_in_with_password (rf_phone f) (rf_password f) db' ctx) = None \<and>
         ctx_user (snd (sign_in_with_password (rf_phone f) (rf_password f) db' ctx)) = Some u \<and>
         (\<exists>r. ctx_profile (snd (sign_in_with_password (rf_phone f) (rf_password f) db' ctx)) =
                Some (new_profile u f (generated_referral_code n) r))"
proof -
  obtain db1 r where v: "auth_sign_up (auth_email (rf_phone f)) (rf_password f) db = Inr (u, db1)"
    and acc: "accounts db' = accounts db1"
    and prof: "profiles db' = profiles db1 @ [new_profile u f (generated_referral_code n) r]"
    using handle_register_Inr [OF assms(2)] by blast
  note s = auth_inv_sign_up [OF assms(1) v]
  have su: "\<not> list_ex (\<lambda>a. acc_email a = auth_email (rf_phone f)) (accounts db)"
    "accounts db1 = accounts db @ [\<lparr>acc_email = auth_email (rf_phone f), acc_password = rf_password f, acc_uid = u\<rparr>]"
    using auth_sign_up_Inr [OF v] by auto
  have "find (\<lambda>a. acc_email a = auth_email (rf_phone f) \<and> acc_password a = rf_password f) (accounts db') =
        Some \<lparr>acc_email = auth_email (rf_phone f), acc_password = rf_password f, acc_uid = u\<rparr>"
  proof -
    have "find (\<lambda>a. acc_email a = auth_email (rf_phone f) \<and> acc_password a = rf_password f) (accounts db) = None"
      using su(1) by (auto simp: find_None_iff list_ex_iff)
    then show ?thesis using su(2) acc by (simp add: find_append_eq)
  qed
  moreover have "fetch_profile (profiles db') u = Some (new_profile u f (generated_referral_code n) r)"
  proof -
    have "filter (\<lambda>p. prof_id p = u) (profiles db1) = []"
      using s by (force simp: filter_empty_conv)
    then show ?thesis by (simp add: fetch_profile_def prof)
  qed
  ultimately show ?thesis by (auto simp: sign_in_with_password_def)
qed

theorem register_then_sign_in_witness:
  "auth_inv empty_auth_db \<and> ctx_user (snd (sign_in_with_password ''98765-43210'' ''secret1'' example_registered initial_ctx)) = Some 1"
  using auth_inv_empty register_then_sign_in [OF auth_inv_empty conjunct1 [OF example_registered_eval], of initial_ctx]
  by (simp add: example_form_def)

theorem login_screen_rejects_registered:
  "fst (sign_in_with_password (rf_phone example_form) (rf_password example_form) example_registered initial_ctx) = None \<and>
   handle_login (rf_phone example_form) (rf_password example_form) = LoginError ''Invalid phone number or password'' \<and>
   accounts empty_auth_db = [] \<and> handle_login ''1234567890'' ''123456'' = LoginOk"
  using example_registered_eval
  by (simp add: sign_in_with_password_def handle_login_def example_form_def empty_auth_db_def
      auth_email_def strip_non_digits_def is_digit_def)

text \<open>C17: an unknown referral code leaves an auth account without a profile, and a retry with the same phone is refused.\<close>

theorem invalid_referral_orphans_account:
  assumes "validate_registration f = None"
    and "\<not> list_ex (\<lambda>a. acc_email a = auth_email (rf_phone f)) (accounts db)"
    and "js_trim (rf_referral f) \<noteq> []"
    and "\<not> list_ex (\<lambda>p. prof_code p = js_upper (js_trim (rf_referral f))) (profiles db)"
  shows "fst (handle_register F n f db) = Inl ErrInvalidReferralCode \<and>
         profiles (snd (handle_register F n f db)) = profiles db \<and>
         list_ex (\<lambda>a. acc_email a = auth_email (rf_phone f)) (accounts (snd (handle_register F n f db))) \<and>
         fst (handle_register F m f (snd (handle_register F n f db))) = Inl ErrAlreadyRegistered"
proof -
  have look: "lookup_referrer (js_upper (js_trim (rf_referral f))) (profiles db) = Inr None"
    using assms(4) by (simp add: lookup_referrer_def filter_empty_conv list_ex_iff)
  have h: "handle_register F n f db =
      (Inl ErrInvalidReferralCode,
       db\<lparr>accounts := accounts db @ [\<lparr>acc_email = auth_email (rf_phone f), acc_password = rf_password f,
                                      acc_uid = next_uid db\<rparr>], next_uid := Suc (next_uid db)\<rparr>)"
    using assms(1-3) look by (simp add: handle_register_def auth_sign_up_def resolve_referrer_def)
  then show ?thesis
    using assms(1) by (simp add: handle_register_def auth_sign_up_def)
qed

theorem invalid_referral_orphans_account_witness:
  "fst (handle_register {} 7 (example_form\<lparr>rf_referral := ''ref999''\<rparr>) empty_auth_db) = Inl ErrInvalidReferralCode"
proof -
  have v: "validate_registration (example_form\<lparr>rf_referral := ''ref999''\<rparr>) = None"
    by (simp add: example_form_def validate_registration_def js_trim_def js_is_space_def
        aadhar_ok_def pan_ok_def is_digit_def is_upper_ascii_def)
  have t: "js_trim (rf_referral (example_form\<lparr>rf_referral := ''ref999''\<rparr>)) \<noteq> []"
    by (simp add: js_trim_def js_is_space_def)
  show ?thesis
    using invalid_referral_orphans_account [OF v _ t, of empty_auth_db "{}" 7 7]
    by (simp add: empty_auth_db_def)
qed

theorem generated_referral_code_roundtrip:
  assumes "n < 900000"
  shows "length (generated_referral_code n) = 9 \<and> take 3 (generated_referral_code n) = ''REF'' \<and>
         digits_value (drop 3 (generated_referral_code n)) = 100000 + n"
  using assms by (simp add: generated_referral_code_def digits_value_digit_chars del: digit_chars_numeral)

theorem generated_referral_code_roundtrip_witness:
  "(42::nat) < 900000 \<and> digits_value (drop 3 (generated_referral_code 42)) = 100042"
  using generated_referral_code_roundtrip [of 42] by simp

theorem phone_checked_before_sanitising:
  "validate_registration (example_form\<lparr>rf_phone := ''----------''\<rparr>) = None \<and>
   auth_email ''----------'' = ''@asjewellers.app''"
  by (simp add: example_form_def validate_registration_def js_trim_def js_is_space_def aadhar_ok_def
      pan_ok_def is_digit_def is_upper_ascii_def auth_email_def strip_non_digits_def)

end
