(* ===== verification/Accounts.thy ===== *)
theory Accounts
  imports Auth
begin

text \<open>
  Investment accounts and their KYC details.
  \<^item> \<open>src/contexts/AccountContext.tsx\<close>: \<open>loadAccounts\<close> (the user's rows, primary first
    and then by creation time, and the selection: the saved id, else the primary, else the
    first row), \<open>setSelectedAccount\<close> (also saves the id), \<open>createAccount\<close> and the effect
    that clears the context when the user signs out.  The saved id lives in
    \<open>localStorage\<close>, which is shared by every user of the device (\<open>ac_saved\<close>).
  \<^item> \<open>src/app/accounts.tsx\<close> and \<open>src/components/AccountSwitcher.tsx\<close>: the account
    creation handler and the values the two screens show (counts, free slots, the masked
    Aadhar number, whether the switcher is shown at all).
  \<^item> \<open>src/app/kyc/[accountId].tsx\<close>: loading one account by id and the KYC submission
    with its three guards.
  The database side (the account-number generator and the trigger that refuses an
  eleventh account with a message containing \<open>Maximum 10\<close>) is not in the repository;
  the number generator is a parameter, and \<open>insert_account\<close> assumes that rule, which
  only the message test of \<open>createAccount\<close> refers to.
  The row type is the full \<open>investment_accounts\<close> row; \<open>Gateway\<close> uses the projection
  of the same table onto its wallet balance.
\<close>

record account_row =
  ia_id :: nat
  ia_user :: uid
  ia_number :: string
  ia_name :: string
  ia_aadhar :: "string option"
  ia_pan :: "string option"
  ia_kyc :: bool
  ia_primary :: bool
  ia_created :: nat

record account_db =
  acct_rows :: "account_row list"
  acct_next :: nat

record account_ctx =
  ac_accounts :: "account_row list"
  ac_selected :: "account_row option"
  ac_loading :: bool
  ac_saved :: "nat option"

definition max_accounts :: nat where
  "max_accounts = 10"

definition account_order :: "account_row list \<Rightarrow> account_row list" where
  \<comment> \<open>\<open>order('is_primary', desc)\<close> then \<open>order('created_at', asc)\<close>; both sorts are stable\<close>
  "account_order rs = sort_key (\<lambda>a. if ia_primary a then 0::nat else 1) (sort_key ia_created rs)"

definition user_accounts :: "uid \<Rightarrow> account_db \<Rightarrow> account_row list" where
  "user_accounts u db = account_order (filter (\<lambda>a. ia_user a = u) (acct_rows db))"

definition select_account :: "nat option \<Rightarrow> account_row list \<Rightarrow> account_row option" where
  "select_account saved rs =
     (case saved of
        Some i \<Rightarrow> find (\<lambda>a. ia_id a = i) rs
      | None \<Rightarrow> (case find ia_primary rs of Some a \<Rightarrow> Some a | None \<Rightarrow> Some (hd rs)))"

definition load_accounts :: "uid option \<Rightarrow> bool \<Rightarrow> account_db \<Rightarrow> account_ctx \<Rightarrow> account_ctx" where
  "load_accounts user failed db ctx =
     (case user of
        None \<Rightarrow> ctx
      | Some u \<Rightarrow>
          (if failed then ctx\<lparr>ac_loading := False\<rparr>
           else (let rs = user_accounts u db in
                 if rs = [] then ctx\<lparr>ac_loading := False\<rparr>
                 else ctx\<lparr>ac_accounts := rs, ac_selected := select_account (ac_saved ctx) rs,
                          ac_loading := False\<rparr>)))"

definition user_changed :: "uid option \<Rightarrow> bool \<Rightarrow> account_db \<Rightarrow> account_ctx \<Rightarrow> account_ctx" where
  "user_changed user failed db ctx =
     (case user of
        None \<Rightarrow> ctx\<lparr>ac_accounts := [], ac_selected := None, ac_loading := False\<rparr>
      | Some u \<Rightarrow> load_accounts user failed db ctx)"

definition set_selected_account :: "account_row \<Rightarrow> account_ctx \<Rightarrow> account_ctx" where
  "set_selected_account a ctx = ctx\<lparr>ac_selected := Some a, ac_saved := Some (ia_id a)\<rparr>"

datatype create_result = Created | CreateFailed string

definition insert_account :: "uid \<Rightarrow> string \<Rightarrow> string \<Rightarrow> nat \<Rightarrow> account_db \<Rightarrow> string + account_db" where
  \<comment> \<open>the insert, with the assumed database rule that refuses an eleventh account (not in
      the repository; \<open>createAccount\<close> only tests the message)\<close>
  "insert_account u no name now db =
     (if max_accounts \<le> length (filter (\<lambda>a. ia_user a = u) (acct_rows db))
      then Inl ''Maximum 10 investment accounts per user''
      else Inr (db\<lparr>acct_rows := acct_rows db @
                   [\<lparr>ia_id = acct_next db, ia_user = u, ia_number = no, ia_name = name, ia_aadhar = None,
                     ia_pan = None, ia_kyc = False, ia_primary = False, ia_created = now\<rparr>],
                  acct_next := Suc (acct_next db)\<rparr>))"

definition is_infix :: "string \<Rightarrow> string \<Rightarrow> bool" where
  \<comment> \<open>\<open>String.prototype.includes\<close>\<close>
  "is_infix x s \<longleftrightarrow> list_ex (\<lambda>i. take (length x) (drop i s) = x) [0..<Suc (length s)]"

definition create_account :: "uid option \<Rightarrow> (uid \<Rightarrow> string + string) \<Rightarrow> nat \<Rightarrow> string \<Rightarrow>
    account_db \<Rightarrow> account_ctx \<Rightarrow> create_result \<times> account_db \<times> account_ctx" where
  "create_account user gen now name db ctx =
     (case user of
        None \<Rightarrow> (CreateFailed ''User not logged in'', db, ctx)
      | Some u \<Rightarrow>
          (case gen u of
             Inl msg \<Rightarrow> (CreateFailed msg, db, ctx)
           | Inr no \<Rightarrow>
               (case insert_account u no name now db of
                  Inl msg \<Rightarrow>
                    (if is_infix ''Maximum 10'' msg
                     then CreateFailed ''You can only create up to 10 investment accounts''
                     else CreateFailed msg, db, ctx)
                | Inr db' \<Rightarrow> (Created, db', load_accounts user False db' ctx))))"

definition handle_create_account :: "uid option \<Rightarrow> (uid \<Rightarrow> string + string) \<Rightarrow> nat \<Rightarrow> string \<Rightarrow>
    account_db \<Rightarrow> account_ctx \<Rightarrow> create_result \<times> account_db \<times> account_ctx" where
  "handle_create_account user gen now name db ctx =
     (if js_trim name = [] then (CreateFailed ''Please enter an account name'', db, ctx)
      else create_account user gen now (js_trim name) db ctx)"

definition accounts_stats :: "account_ctx \<Rightarrow> nat \<times> int \<times> nat" where
  \<comment> \<open>Active Accounts, Slots Available, KYC Verified\<close>
  "accounts_stats ctx =
     (length (ac_accounts ctx), 10 - int (length (ac_accounts ctx)), length (filter ia_kyc (ac_accounts ctx)))"

definition can_add_account :: "account_ctx \<Rightarrow> bool" where
  "can_add_account ctx \<longleftrightarrow> length (ac_accounts ctx) < 10"

definition masked_aadhar :: "string option \<Rightarrow> string" where
  \<comment> \<open>\<open>'****' + aadhar_number?.slice(-4)\<close>; an absent number renders nothing\<close>
  "masked_aadhar a = ''****'' @ (case a of None \<Rightarrow> [] | Some s \<Rightarrow> drop (length s - 4) s)"

definition switcher_shown :: "account_ctx \<Rightarrow> bool" where
  "switcher_shown ctx \<longleftrightarrow> ac_selected ctx \<noteq> None"

datatype kyc_error = KycMissing | KycBadAadhar | KycBadPan | KycUpdateFailed | KycLoadFailed

definition load_account_data :: "nat \<Rightarrow> account_db \<Rightarrow> kyc_error + account_row" where
  \<comment> \<open>\<open>.eq('id', accountId).single()\<close>\<close>
  "load_account_data i db = (case filter (\<lambda>a. ia_id a = i) (acct_rows db) of [a] \<Rightarrow> Inr a | _ \<Rightarrow> Inl KycLoadFailed)"

definition kyc_submit :: "bool \<Rightarrow> nat \<Rightarrow> string \<Rightarrow> string \<Rightarrow> account_db \<Rightarrow> kyc_error + account_db" where
  "kyc_submit failed i aadhar pan db =
     (if js_trim aadhar = [] \<or> js_trim pan = [] then Inl KycMissing
      else if \<not> aadhar_ok aadhar then Inl KycBadAadhar
      else if \<not> pan_ok (js_upper pan) then Inl KycBadPan
      else if failed then Inl KycUpdateFailed
      else Inr (db\<lparr>acct_rows := update_where (\<lambda>a. ia_id a = i)
                   (\<lambda>a. a\<lparr>ia_aadhar := Some aadhar, ia_pan := Some (js_upper pan)\<rparr>) (acct_rows db)\<rparr>))"

definition kyc_handle_submit :: "bool \<Rightarrow> nat \<Rightarrow> string \<Rightarrow> string \<Rightarrow> uid option \<Rightarrow> account_db \<Rightarrow> account_ctx \<Rightarrow>
    kyc_error option \<times> account_db \<times> account_ctx" where
  "kyc_handle_submit failed i aadhar pan user db ctx =
     (case kyc_submit failed i aadhar pan db of
        Inl e \<Rightarrow> (Some e, db, ctx)
      | Inr db' \<Rightarrow> (None, db', load_accounts user False db' ctx))"

definition example_rows :: "account_row list" where
  "example_rows =
     [\<lparr>ia_id = 1, ia_user = 7, ia_number = ''INV7-002'', ia_name = ''Family'', ia_aadhar = None, ia_pan = None,
       ia_kyc = False, ia_primary = False, ia_created = 2\<rparr>,
      \<lparr>ia_id = 0, ia_user = 7, ia_number = ''INV7-001'', ia_name = ''Primary'', ia_aadhar = None, ia_pan = None,
       ia_kyc = True, ia_primary = True, ia_created = 1\<rparr>,
      \<lparr>ia_id = 2, ia_user = 8, ia_number = ''INV8-001'', ia_name = ''Primary'', ia_aadhar = None, ia_pan = None,
       ia_kyc = False, ia_primary = True, ia_created = 3\<rparr>]"

definition example_account_db :: account_db where
  "example_account_db = \<lparr>acct_rows = example_rows, acct_next = 3\<rparr>"

definition empty_account_ctx :: account_ctx where
  "empty_account_ctx = \<lparr>ac_accounts = [], ac_selected = None, ac_loading = True, ac_saved = None\<rparr>"

definition full_account_db :: "uid \<Rightarrow> account_db" where
  "full_account_db u =
     \<lparr>acct_rows = map (\<lambda>n. \<lparr>ia_id = n, ia_user = u, ia_number = [], ia_name = [], ia_aadhar = None, ia_pan = None,
                          ia_kyc = False, ia_primary = (n = 0), ia_created = n\<rparr>) [0..<10],
      acct_next = 10\<rparr>"

lemma set_account_order [simp]: "set (account_order rs) = set rs"
  by (simp add: account_order_def)

lemma account_order_Nil_iff [simp]: "account_order rs = [] \<longleftrightarrow> rs = []"
  by (metis set_account_order set_empty)

lemma user_accounts_member: "a \<in> set (user_accounts u db) \<longleftrightarrow> a \<in> set (acct_rows db) \<and> ia_user a = u"
  by (simp add: user_accounts_def)

lemma account_order_primary_first:
  assumes "\<exists>a \<in> set rs. ia_primary a"
  shows "ia_primary (hd (account_order rs))"
proof -
  let ?k = "\<lambda>a. if ia_primary a then 0::nat else 1"
  let ?s = "account_order rs"
  have srt: "sorted (map ?k ?s)" by (simp add: account_order_def sorted_sort_key)
  obtain a where a: "a \<in> set ?s" "ia_primary a" using assms by auto
  then obtain x xs where s: "?s = x # xs" by (cases ?s) auto
  have h: "\<forall>y \<in> set (map ?k xs). ?k x \<le> y" using srt s by simp
  have "?k x \<le> ?k a"
  proof (cases "a = x")
    case False
    then have "a \<in> set xs" using a(1) s by simp
    then show ?thesis using h by simp
  qed simp
  then show ?thesis using s a(2) by (simp split: if_splits)
qed

lemma select_account_None_saved:
  assumes "rs \<noteq> []" and that: "rs = account_order xs"
  shows "select_account None rs = Some (hd rs)"
proof (cases "\<exists>a \<in> set rs. ia_primary a")
  case True
  then have p: "ia_primary (hd rs)" using that account_order_primary_first [of xs] by simp
  obtain y ys where "rs = y # ys" using assms(1) by (cases rs) auto
  then show ?thesis using p by (simp add: select_account_def)
next
  case False
  then have "find ia_primary rs = None" by (simp add: find_None_iff)
  then show ?thesis by (simp add: select_account_def)
qed

lemma user_accounts_ne:
  assumes "user_accounts u db \<noteq> []"
  shows "load_accounts (Some u) False db ctx =
           ctx\<lparr>ac_accounts := user_accounts u db, ac_selected := select_account (ac_saved ctx) (user_accounts u db),
               ac_loading := False\<rparr>"
  using assms by (simp add: load_accounts_def Let_def)

lemma kyc_submit_Inr:
  "kyc_submit failed i aadhar pan db = Inr db' \<longleftrightarrow>
     js_trim aadhar \<noteq> [] \<and> js_trim pan \<noteq> [] \<and> aadhar_ok aadhar \<and> pan_ok (js_upper pan) \<and> \<not> failed \<and>
     db' = db\<lparr>acct_rows := update_where (\<lambda>a. ia_id a = i)
                (\<lambda>a. a\<lparr>ia_aadhar := Some aadhar, ia_pan := Some (js_upper pan)\<rparr>) (acct_rows db)\<rparr>"
  unfolding kyc_submit_def by (simp only: if_split_eq1 sum.inject sum.distinct simp_thms) blast

lemma kyc_submit_rows:
  assumes "kyc_submit failed i aadhar pan db = Inr db'"
  shows "acct_rows db' = update_where (\<lambda>a. ia_id a = i)
        (\<lambda>a. a\<lparr>ia_aadhar := Some aadhar, ia_pan := Some (js_upper pan)\<rparr>) (acct_rows db)"
  using assms unfolding kyc_submit_Inr by (elim conjE) (hypsubst, simp (no_asm))

lemma update_where_sets_ids:
  "\<forall>a \<in> set (update_where (\<lambda>a. ia_id a = i)
        (\<lambda>a. a\<lparr>ia_aadhar := x, ia_pan := y\<rparr>) rs). ia_id a = i \<longrightarrow> ia_aadhar a = x \<and> ia_pan a = y"
  by (induction rs) auto

theorem saved_account_not_found:
  assumes "ac_saved ctx = Some i" "i \<notin> ia_id ` set (user_accounts u db)" "user_accounts u db \<noteq> []"
  shows "ac_accounts (load_accounts (Some u) False db ctx) = user_accounts u db \<and>
         ac_selected (load_accounts (Some u) False db ctx) = None \<and>
         \<not> switcher_shown (load_accounts (Some u) False db ctx)"
proof -
  have "find (\<lambda>a. ia_id a = i) (user_accounts u db) = None"
    using assms(2) by (auto simp: find_None_iff)
  then show ?thesis
    using assms(1) user_accounts_ne [OF assms(3)] by (simp add: select_account_def switcher_shown_def)
qed

theorem saved_account_not_found_witness:
  "user_accounts 7 example_account_db \<noteq> [] \<and>
   ac_selected (load_accounts (Some 7) False example_account_db (empty_account_ctx\<lparr>ac_saved := Some 2\<rparr>)) = None"
proof -
  have ne: "user_accounts 7 example_account_db \<noteq> []"
    by (simp add: user_accounts_def example_account_db_def example_rows_def)
  have "2 \<notin> ia_id ` set (user_accounts 7 example_account_db)"
    by (auto simp: user_accounts_member example_account_db_def example_rows_def)
  then show ?thesis
    using ne saved_account_not_found [of "empty_account_ctx\<lparr>ac_saved := Some 2\<rparr>" 2 7 example_account_db]
    by simp
qed

theorem default_selection_primary:
  assumes "ac_saved ctx = None" "user_accounts u db \<noteq> []"
    and "\<exists>a \<in> set (acct_rows db). ia_user a = u \<and> ia_primary a"
  shows "\<exists>a. ac_selected (load_accounts (Some u) False db ctx) = Some a \<and> ia_primary a \<and> ia_user a = u"
proof -
  let ?rs = "user_accounts u db"
  have sel: "select_account None ?rs = Some (hd ?rs)"
    using select_account_None_saved [OF assms(2)] by (simp add: user_accounts_def)
  have "ia_primary (hd ?rs)"
    using assms(3) account_order_primary_first [of "filter (\<lambda>a. ia_user a = u) (acct_rows db)"]
    by (auto simp: user_accounts_def)
  moreover have "hd ?rs \<in> set ?rs" using assms(2) by simp
  ultimately show ?thesis
    using sel assms(1) user_accounts_ne [OF assms(2)] by (auto simp: user_accounts_member)
qed

theorem default_selection_primary_witness:
  "\<exists>a. ac_selected (load_accounts (Some 7) False example_account_db empty_account_ctx) = Some a \<and>
       ia_primary a \<and> ia_user a = 7"
proof -
  have ne: "user_accounts 7 example_account_db \<noteq> []"
    by (simp add: user_accounts_def example_account_db_def example_rows_def)
  have "\<exists>a \<in> set (acct_rows example_account_db). ia_user a = 7 \<and> ia_primary a"
    by (simp add: example_account_db_def example_rows_def)
  then show ?thesis
    using ne default_selection_primary [of empty_account_ctx 7 example_account_db]
    by (simp add: empty_account_ctx_def)
qed

theorem stale_accounts_after_user_switch:
  "ac_accounts (user_changed (Some 9) False example_account_db
      (load_accounts (Some 7) False example_account_db empty_account_ctx)) = user_accounts 7 example_account_db \<and>
   user_accounts 9 example_account_db = [] \<and> user_accounts 7 example_account_db \<noteq> []"
  by (simp add: user_changed_def load_accounts_def user_accounts_def example_account_db_def example_rows_def Let_def)

theorem kyc_submit_valid:
  assumes "kyc_submit failed i aadhar pan db = Inr db'"
  shows "aadhar_ok aadhar \<and> pan_ok (js_upper pan) \<and>
         map ia_kyc (acct_rows db') = map ia_kyc (acct_rows db) \<and>
         (\<forall>a \<in> set (acct_rows db'). ia_id a = i \<longrightarrow> ia_aadhar a = Some aadhar \<and> ia_pan a = Some (js_upper pan))"
proof -
  have ok: "aadhar_ok aadhar" "pan_ok (js_upper pan)"
    using assms unfolding kyc_submit_Inr by blast+
  note rows = kyc_submit_rows [OF assms]
  have "map ia_kyc (acct_rows db') = map ia_kyc (acct_rows db)"
    unfolding rows by (rule map_update_where_key) simp
  then show ?thesis using ok update_where_sets_ids unfolding rows by blast
qed
theorem kyc_submit_valid_witness:
  "kyc_submit False 1 ''123456789012'' ''abcde1234f'' example_account_db =
     Inr (example_account_db\<lparr>acct_rows := update_where (\<lambda>a. ia_id a = 1)
       (\<lambda>a. a\<lparr>ia_aadhar := Some ''123456789012'', ia_pan := Some ''ABCDE1234F''\<rparr>) (acct_rows example_account_db)\<rparr>) \<and>
   aadhar_ok ''123456789012'' \<and> pan_ok ''ABCDE1234F''"
proof -
  have up: "js_upper ''abcde1234f'' = ''ABCDE1234F''"
    by (simp add: js_upper_def js_upper_char_def)
  have ok: "aadhar_ok ''123456789012'' \<and> pan_ok ''ABCDE1234F''"
    by (simp add: aadhar_ok_def pan_ok_def is_digit_def is_upper_ascii_def)
  have "kyc_submit False 1 ''123456789012'' ''abcde1234f'' example_account_db =
     Inr (example_account_db\<lparr>acct_rows := update_where (\<lambda>a. ia_id a = 1)
       (\<lambda>a. a\<lparr>ia_aadhar := Some ''123456789012'', ia_pan := Some ''ABCDE1234F''\<rparr>) (acct_rows example_account_db)\<rparr>)"
    using ok by (simp add: kyc_submit_def up js_trim_def js_is_space_def)
  moreover note kyc_submit_valid [OF this]
  ultimately show ?thesis using up by simp
qed

theorem eleventh_account_refused:
  assumes "length (filter (\<lambda>a. ia_user a = u) (acct_rows db)) = 10" "gen u = Inr no"
  shows "create_account (Some u) gen now name db ctx =
           (CreateFailed ''You can only create up to 10 investment accounts'', db, ctx)"
  using assms by (simp add: create_account_def insert_account_def max_accounts_def is_infix_def)

theorem eleventh_account_refused_witness:
  "create_account (Some 5) (\<lambda>_. Inr ''INV5-011'') 0 ''Eleventh'' (full_account_db 5) empty_account_ctx =
     (CreateFailed ''You can only create up to 10 investment accounts'', full_account_db 5, empty_account_ctx)"
  using eleventh_account_refused [of 5 "full_account_db 5" "\<lambda>_. Inr ''INV5-011''" "''INV5-011''"]
  by (simp add: full_account_db_def)

end
