(* ===== verification/View.thy ===== *)
theory View
  imports Auth
begin

text \<open>
  What the screens display.  A screen is modelled by a view function from its state to the
  list of widgets it renders, in the order of its JSX, and by a step function on the events its
  buttons raise.  Layout and styles are left out; a widget is a text, a button holding the
  widgets drawn on it and the event it raises, or a group drawn with the highlighted style.
  A text is a list of fragments: literal strings, a number formatted by \<open>toFixed\<close>,
  a number printed by the default conversion of JavaScript or by \<open>toLocaleString\<close>, a natural number, a date passed
  through the screen's date formatter (a timestamp, or a date string given to \<open>new Date\<close>), or a symbol that carries information (the rupee sign,
  the account icons, the check mark).  Navigation by \<open>router.push\<close> is a \<open>route\<close>.
  The formatting of \<open>Number.prototype.toFixed\<close> (ECMA-262, 21.1.3.3) is defined here on exact
  rationals for magnitudes below \<open>10\<^sup>2\<^sup>1\<close>, the range of every amount of the app, and
  for the digit counts 0 to 3 the app uses (the RangeError above 100 digits is left out),
  with its roundtrip through a decimal reader and its rounding bound.
\<close>

datatype glyph = RupeeSign | Crown | Briefcase | CheckMark | CloseMark | Bullet | ShieldIcon | UserIcon | ClockIcon
  | CrossMark | ActiveDot | Bulb | WarningSign | ChevronDown | ChevronRight | UsersIcon | BackArrow | CopyIcon
  | Ellipsis | ArrowDownIcon | ArrowUpIcon | DollarIcon

datatype frag = Str string | Fixed nat rat | Num rat | Locale rat | NatF nat | DateF nat | Glyph glyph | DateStr string

datatype 'e widget = Text "frag list" | Button "'e widget list" 'e | Highlight "'e widget list"

fun widget_events :: "'e widget \<Rightarrow> 'e list" where
  "widget_events (Text fs) = []"
| "widget_events (Button ws e) = e # concat (map widget_events ws)"
| "widget_events (Highlight ws) = concat (map widget_events ws)"

definition view_events :: "'e widget list \<Rightarrow> 'e list" where
  \<comment> \<open>the events the buttons of a rendered screen can raise\<close>
  "view_events ws = concat (map widget_events ws)"

fun is_highlight :: "'e widget \<Rightarrow> bool" where
  "is_highlight (Highlight ws) = True"
| "is_highlight _ = False"

datatype route = ToPlans | ToReferrals | ToAccounts | ToTree | ToKyc nat | GoBack | ToLogin | ToRoot
  | ToAdminUsers | ToAdminTransactions | ToAdminWithdrawals | ToPlanScreen string
  | ToMyActivityPlan "string option" | ToPlanDetail "string option" | ToWallet | ToAdmin | ToHome | ToRegister

fun decimal_len :: "nat \<Rightarrow> nat" where
  "decimal_len n = (if n < 10 then 1 else Suc (decimal_len (n div 10)))"

declare decimal_len.simps [simp del]

definition nat_str :: "nat \<Rightarrow> string" where
  \<comment> \<open>\<open>ToString\<close> of a non-negative integer\<close>
  "nat_str n = digit_chars (decimal_len n) n"

definition js_to_fixed :: "nat \<Rightarrow> rat \<Rightarrow> string" where
  "js_to_fixed f x =
     (let s = (if x < 0 then ''-'' else []);
          n = nat (js_round (\<bar>x\<bar> * 10 ^ f));
          m = nat_str n
      in if f = 0 then s @ m
         else (let k = length m;
                   m' = (if k \<le> f then replicate (Suc f - k) (CHR ''0'') @ m else m);
                   k' = length m'
               in s @ take (k' - f) m' @ ''.'' @ drop (k' - f) m'))"

definition fixed_round :: "nat \<Rightarrow> rat \<Rightarrow> rat" where
  \<comment> \<open>the number a \<open>toFixed\<close> string denotes\<close>
  "fixed_round f x = (if x < 0 then -1 else 1) * of_nat (nat (js_round (\<bar>x\<bar> * 10 ^ f))) / 10 ^ f"

definition unsigned_value :: "string \<Rightarrow> rat" where
  "unsigned_value t =
     (let a = takeWhile (\<lambda>c. c \<noteq> CHR ''.'') t; b = drop (Suc (length a)) t in
      of_nat (digits_value a) + of_nat (digits_value b) / 10 ^ length b)"

definition decimal_value :: "string \<Rightarrow> rat" where
  \<comment> \<open>\<open>parseFloat\<close> on an optional minus sign, digits and an optional fraction\<close>
  "decimal_value s = (case s of c # t \<Rightarrow> if c = CHR ''-'' then - unsigned_value t else unsigned_value s
                               | [] \<Rightarrow> unsigned_value s)"

lemma view_events_append [simp]: "view_events (xs @ ys) = view_events xs @ view_events ys"
  by (simp add: view_events_def)

lemma view_events_Cons [simp]: "view_events (w # ws) = widget_events w @ view_events ws"
  by (simp add: view_events_def)

lemma view_events_Nil [simp]: "view_events [] = []"
  by (simp add: view_events_def)

lemma digits_value_append:
  "digits_value (xs @ ys) = digits_value xs * 10 ^ length ys + digits_value ys"
proof (induction xs)
  case (Cons c xs)
  then show ?case by (simp add: power_add distrib_left mult.commute mult.left_commute)
qed simp


lemma of_char_zero: "of_char (CHR ''0'') = (48::nat)"
  by simp

lemma digits_value_zeros [simp]: "digits_value (replicate j (CHR ''0'')) = 0"
  by (induction j) (simp_all only: replicate.simps digits_value.simps of_char_zero diff_self_eq_0 mult_0 add_0)


lemma decimal_len_bound: "n < 10 ^ decimal_len n"
proof (induction n rule: decimal_len.induct)
  case (1 n)
  show ?case
  proof (cases "n < 10")
    case False
    then have "n div 10 < 10 ^ decimal_len (n div 10)" using 1 by simp
    then have "n < 10 * 10 ^ decimal_len (n div 10)" by linarith
    then show ?thesis using False by (subst decimal_len.simps) simp
  qed (subst decimal_len.simps, simp)
qed

lemma nat_str_value [simp]: "digits_value (nat_str n) = n"
  using decimal_len_bound [of n] by (simp add: nat_str_def digits_value_digit_chars)


lemma set_digit_chars: "set (digit_chars k n) \<subseteq> set ''0123456789''"
proof (induction k arbitrary: n)
  case (Suc k)
  have "''0123456789'' ! (n mod 10) \<in> set ''0123456789''"
    by (rule nth_mem) simp
  then show ?case using Suc [of "n div 10"] by simp
qed simp

lemma set_nat_str: "set (nat_str n) \<subseteq> set ''0123456789''"
  unfolding nat_str_def by (rule set_digit_chars)

lemma unsigned_value_no_dot: "CHR ''.'' \<notin> set a \<Longrightarrow> unsigned_value a = of_nat (digits_value a)"
proof -
  assume "CHR ''.'' \<notin> set a"
  then have tw: "takeWhile (\<lambda>c. c \<noteq> CHR ''.'') a = a"
    by (simp only: takeWhile_eq_all_conv) blast
  show ?thesis by (simp add: unsigned_value_def Let_def tw)
qed

lemma unsigned_value_point:
  assumes "CHR ''.'' \<notin> set a" "CHR ''.'' \<notin> set b"
  shows "unsigned_value (a @ ''.'' @ b) = of_nat (digits_value (a @ b)) / 10 ^ length b"
proof -
  have "takeWhile (\<lambda>c. c \<noteq> CHR ''.'') (a @ ''.'' @ b) = a"
    using assms(1) by (subst takeWhile_append2) auto
  then have "unsigned_value (a @ ''.'' @ b) = of_nat (digits_value a) + of_nat (digits_value b) / 10 ^ length b"
    by (simp add: unsigned_value_def)
  also have "\<dots> = of_nat (digits_value (a @ b)) / 10 ^ length b"
    by (simp add: digits_value_append field_simps)
  finally show ?thesis .
qed


lemma decimal_value_minus: "decimal_value (CHR ''-'' # t) = - unsigned_value t"
  by (simp add: decimal_value_def)

lemma decimal_value_unsigned: "CHR ''-'' \<notin> set t \<Longrightarrow> decimal_value t = unsigned_value t"
  by (cases t) (auto simp: decimal_value_def)

lemma fixed_padding:
  fixes m :: string and f :: nat
  defines "m' \<equiv> (if length m \<le> f then replicate (Suc f - length m) (CHR ''0'') @ m else m)"
  shows "digits_value m' = digits_value m" "set m' \<subseteq> insert (CHR ''0'') (set m)" "f < length m'"
  unfolding m'_def by (auto simp: digits_value_append)

lemma fixed_digits_split:
  assumes "set m \<subseteq> set ''0123456789''" "f < length m"
  shows "unsigned_value (take (length m - f) m @ ''.'' @ drop (length m - f) m) = of_nat (digits_value m) / 10 ^ f"
proof -
  have "CHR ''.'' \<notin> set m" using assms(1) by auto
  then have "CHR ''.'' \<notin> set (take (length m - f) m)" "CHR ''.'' \<notin> set (drop (length m - f) m)"
    by (auto dest: in_set_takeD in_set_dropD)
  note unsigned_value_point [OF this]
  moreover have "length (drop (length m - f) m) = f" using assms(2) by simp
  ultimately show ?thesis by (simp only: append_take_drop_id)
qed

theorem js_to_fixed_roundtrip: "decimal_value (js_to_fixed f x) = fixed_round f x"
proof -
  define n where "n = nat (js_round (\<bar>x\<bar> * 10 ^ f))"
  define m where "m = nat_str n"
  define m' where "m' = (if length m \<le> f then replicate (Suc f - length m) (CHR ''0'') @ m else m)"
  define body where "body = (if f = 0 then m else take (length m' - f) m' @ ''.'' @ drop (length m' - f) m')"
  have digits: "set m \<subseteq> set ''0123456789''" unfolding m_def by (rule set_nat_str)
  have pad: "digits_value m' = n" "set m' \<subseteq> set ''0123456789''" "f < length m'"
    using fixed_padding [where m=m and f=f] digits unfolding m'_def m_def by auto
  have val: "unsigned_value body = of_nat n / 10 ^ f"
  proof (cases "f = 0")
    case True
    have "CHR ''.'' \<notin> set m" using digits by auto
    then show ?thesis using True by (simp add: body_def unsigned_value_no_dot m_def)
  next
    case False
    then show ?thesis using fixed_digits_split [OF pad(2,3)] pad(1) by (simp add: body_def)
  qed
  have "CHR ''-'' \<notin> set body"
  proof
    assume "CHR ''-'' \<in> set body"
    then have "CHR ''-'' \<in> set m \<or> CHR ''-'' \<in> set m'"
      by (auto simp: body_def split: if_splits dest: in_set_takeD in_set_dropD)
    then show False using digits pad(2) by auto
  qed
  moreover have "js_to_fixed f x = (if x < 0 then CHR ''-'' # body else body)"
    by (simp add: js_to_fixed_def Let_def body_def m'_def m_def n_def)
  ultimately show ?thesis
    using val by (simp add: fixed_round_def decimal_value_minus decimal_value_unsigned n_def)
qed


lemma js_round_dist: "\<bar>of_int (js_round y) - y\<bar> \<le> (1/2::rat)"
  using js_round_bounds [of y] by (simp only: abs_le_iff) linarith

lemma abs_div_pow10: "\<bar>z::rat\<bar> \<le> 1/2 \<Longrightarrow> \<bar>z / 10 ^ f\<bar> \<le> 1 / (2 * 10 ^ f)"
  by (simp only: abs_divide power_abs abs_numeral divide_divide_eq_left [symmetric])
     (rule divide_right_mono, simp_all)

theorem js_to_fixed_bound: "\<bar>fixed_round f x - x\<bar> \<le> 1 / (2 * 10 ^ f)"
proof -
  define y where "y = \<bar>x\<bar> * 10 ^ f"
  have "0 \<le> y" by (simp add: y_def)
  then have "0 \<le> js_round y" using js_round_bounds [of y] by linarith
  then have n: "(of_nat (nat (js_round y)) :: rat) = of_int (js_round y)" by simp
  have p: "(10::rat) ^ f \<noteq> 0" by simp
  have d: "(of_int (js_round y) - y) / 10 ^ f = of_int (js_round y) / 10 ^ f - \<bar>x\<bar>"
    using p by (simp add: y_def diff_divide_distrib)
  have fr: "fixed_round f x = (if x < 0 then -1 else 1) * of_int (js_round y) / 10 ^ f"
    unfolding fixed_round_def y_def [symmetric] n ..
  have "\<bar>fixed_round f x - x\<bar> = \<bar>(of_int (js_round y) - y) / 10 ^ f\<bar>"
  proof (cases "x < 0")
    case True
    then have "fixed_round f x - x = - ((of_int (js_round y) - y) / 10 ^ f)"
      unfolding d fr by simp
    then show ?thesis by (simp only: abs_minus_cancel)
  next
    case False
    then show ?thesis unfolding d fr by simp
  qed
  then show ?thesis using abs_div_pow10 [OF js_round_dist] by simp
qed



end
