(* ===== verification/AccountViews.thy ===== *)
theory AccountViews
  imports Accounts View
begin

text \<open>
  The screens over the account context, rendered with the widgets of \<open>View\<close>.
  \<^item> \<open>src/app/accounts.tsx\<close>: the statistics, one card per account (highlighted when it is
    the selected one), the add-account block while fewer than ten accounts exist, the
    independence notes and the create modal (\<open>accounts_view\<close>, \<open>accounts_step\<close>).
  \<^item> \<open>src/components/AccountSwitcher.tsx\<close>: nothing without a selected account, else the
    current-account card and the switch modal (\<open>switcher_view\<close>, \<open>switcher_step\<close>).
  \<^item> \<open>src/app/kyc/[accountId].tsx\<close>: the loading state, the page of a verified account and
    the form with its two inputs (\<open>kyc_view\<close>, \<open>kyc_step\<close>).
  The \<open>kyc_verified_at\<close> column, which the account rows of \<open>Accounts\<close> do not carry, is
  the parameter \<open>verified_at\<close>.
\<close>

section \<open>Accounts screen\<close>

record accounts_screen =
  as_modal :: bool
  as_name :: string
  as_creating :: bool

definition initial_accounts_screen :: accounts_screen where
  "initial_accounts_screen = \<lparr>as_modal = False, as_name = [], as_creating = False\<rparr>"

datatype accounts_event = AccBack | SwitchTo account_row | GoKyc nat | OpenCreate | CancelCreate
  | SetName string | ConfirmCreate

definition is_selected :: "account_ctx \<Rightarrow> account_row \<Rightarrow> bool" where
  \<comment> \<open>\<open>selectedAccount?.id === account.id\<close>\<close>
  "is_selected ctx a \<longleftrightarrow> (case ac_selected ctx of None \<Rightarrow> False | Some s \<Rightarrow> ia_id s = ia_id a)"

definition slots_text :: "int \<Rightarrow> frag list" where
  "slots_text n = [Num (of_int n), Str (if n \<noteq> 1 then '' slots available'' else '' slot available'')]"

definition account_card :: "(nat \<Rightarrow> nat option) \<Rightarrow> account_ctx \<Rightarrow> account_row \<Rightarrow> accounts_event widget list" where
  "account_card verified_at ctx a =
     (let body =
        [Text [Glyph (if ia_primary a then Crown else Briefcase)]] @
        (if ia_primary a then [Text [Str ''PRIMARY'']] else []) @
        (if is_selected ctx a then [Text [Glyph ActiveDot, Str '' ACTIVE'']] else []) @
        [Text [Str (ia_name a)], Text [Str (ia_number a)],
         Text (if ia_kyc a then [Glyph CheckMark, Str ''Verified''] else [Glyph CrossMark, Str ''Pending''])] @
        (if ia_kyc a then (case verified_at (ia_id a) of None \<Rightarrow> [] | Some d \<Rightarrow> [Text [DateF d]]) else []) @
        (if ia_kyc a then [Text [Str ''Aadhar''], Text [Str (masked_aadhar (ia_aadhar a))],
                           Text [Str ''PAN''], Text [Str (case ia_pan a of None \<Rightarrow> [] | Some p \<Rightarrow> p)]] else []) @
        (if is_selected ctx a then [Text [Str ''Currently Using'']]
         else [Button [Text [Str ''Switch to Account'']] (SwitchTo a)]) @
        (if \<not> ia_kyc a then [Button [Text [Glyph ShieldIcon], Text [Str ''Complete KYC'']] (GoKyc (ia_id a))] else [])
      in if is_selected ctx a then [Highlight body] else body)"

definition accounts_view :: "(nat \<Rightarrow> nat option) \<Rightarrow> account_ctx \<Rightarrow> accounts_screen \<Rightarrow> accounts_event widget list" where
  "accounts_view verified_at ctx st =
     (if ac_loading ctx then [Button [] AccBack, Text [Str ''My Investment Accounts'']]
      else (case accounts_stats ctx of (n, slots, kyc) \<Rightarrow>
        [Button [] AccBack, Text [Str ''My Investment Accounts''],
         Text [NatF n], Text [Str ''Active Accounts''], Text [Num (of_int slots)], Text [Str ''Slots Available''],
         Text [NatF kyc], Text [Str ''KYC Verified''],
         Text [Str ''Switch Between Accounts''],
         Text [Str ''Each account is completely independent with its own wallet, investments, and KYC'']] @
        concat (map (account_card verified_at ctx) (ac_accounts ctx)) @
        (if can_add_account ctx
         then [Button [Text [Str ''Add New Account''], Text (slots_text slots), Text [Str ''Create Account'']] OpenCreate]
         else []) @
        [Text [Glyph Bulb, Str '' Account Independence Features''], Text [Str ''Separate Wallet''],
         Text [Str ''Own Investments''], Text [Str ''Individual KYC''], Text [Str ''Separate History'']] @
        (if as_modal st
         then [Text [Str ''Create New Account''], Text [Str ''Enter a name for your investment account''],
               Text [Str (as_name st)]] @
              (if as_creating st then [Text [Str ''Cancel''], Text []]
               else [Button [Text [Str ''Cancel'']] CancelCreate, Button [Text [Str ''Create'']] ConfirmCreate])
         else [])))"

definition accounts_step :: "uid option \<Rightarrow> (uid \<Rightarrow> string + string) \<Rightarrow> nat \<Rightarrow> accounts_event \<Rightarrow>
    account_db \<times> account_ctx \<times> accounts_screen \<Rightarrow> (account_db \<times> account_ctx \<times> accounts_screen) \<times> route option" where
  "accounts_step user gen now e s =
     (case s of (db, ctx, st) \<Rightarrow>
       (case e of
          AccBack \<Rightarrow> ((db, ctx, st), Some GoBack)
        | SwitchTo a \<Rightarrow> ((db, set_selected_account a ctx, st), None)
        | GoKyc i \<Rightarrow> ((db, ctx, st), Some (ToKyc i))
        | OpenCreate \<Rightarrow> ((db, ctx, st\<lparr>as_modal := True\<rparr>), None)
        | CancelCreate \<Rightarrow> ((db, ctx, st\<lparr>as_modal := False, as_name := []\<rparr>), None)
        | SetName t \<Rightarrow> ((db, ctx, st\<lparr>as_name := take 50 t\<rparr>), None)
        | ConfirmCreate \<Rightarrow>
            (case handle_create_account user gen now (as_name st) db ctx of
               (Created, db', ctx') \<Rightarrow> ((db', ctx', st\<lparr>as_modal := False, as_name := [], as_creating := False\<rparr>), None)
             | (CreateFailed msg, db', ctx') \<Rightarrow> ((db', ctx', st\<lparr>as_creating := False\<rparr>), None))))"

section \<open>Account switcher\<close>

datatype switcher_event = OpenSwitcher | CloseSwitcher | PickAcct account_row | SwitcherToAccounts

definition switcher_item :: "account_ctx \<Rightarrow> account_row \<Rightarrow> switcher_event widget" where
  "switcher_item ctx a =
     (let b = Button ([Text [Glyph (if ia_primary a then Crown else Briefcase)], Text [Str (ia_name a)],
                       Text [Str (ia_number a)]] @
                      (if ia_primary a then [Text [Str ''PRIMARY'']] else []) @
                      [Text [Str (if ia_kyc a then ''Verified'' else ''Pending'')]] @
                      (if is_selected ctx a then [Text [Glyph CheckMark]] else []))
                     (PickAcct a)
      in if is_selected ctx a then Highlight [b] else b)"

definition switcher_view :: "bool \<Rightarrow> account_ctx \<Rightarrow> switcher_event widget list" where
  "switcher_view modal ctx =
     (case ac_selected ctx of
        None \<Rightarrow> []
      | Some s \<Rightarrow>
          [Button [Text [Glyph (if ia_primary s then Crown else Briefcase)], Text [Str ''Current Account''],
                   Text [Str (ia_name s)], Text [Str (ia_number s)]] OpenSwitcher] @
          (if modal
           then [Text [Str ''Switch Account''], Button [Text [Glyph CloseMark]] CloseSwitcher,
                 Text [NatF (length (ac_accounts ctx)), Str '' of 10 accounts '', Glyph Bullet,
                       Str '' Each account is independent'']] @
                map (switcher_item ctx) (ac_accounts ctx) @
                (if length (ac_accounts ctx) < 10
                 then [Button [Text [Str ''Create New Account''],
                               Text (slots_text (10 - int (length (ac_accounts ctx))))] SwitcherToAccounts]
                 else []) @
                [Button [Text [Str ''Manage All Accounts'']] SwitcherToAccounts]
           else []))"

definition switcher_step :: "switcher_event \<Rightarrow> bool \<times> account_ctx \<Rightarrow> (bool \<times> account_ctx) \<times> route option" where
  "switcher_step e s =
     (case s of (modal, ctx) \<Rightarrow>
       (case e of
          OpenSwitcher \<Rightarrow> ((True, ctx), None)
        | CloseSwitcher \<Rightarrow> ((False, ctx), None)
        | PickAcct a \<Rightarrow> ((False, set_selected_account a ctx), None)
        | SwitcherToAccounts \<Rightarrow> ((False, ctx), Some ToAccounts)))"

section \<open>KYC screen\<close>

record kyc_screen =
  ks_account :: "account_row option"
  ks_loading :: bool
  ks_submitting :: bool
  ks_aadhar :: string
  ks_pan :: string

definition initial_kyc_screen :: kyc_screen where
  "initial_kyc_screen = \<lparr>ks_account = None, ks_loading = True, ks_submitting = False, ks_aadhar = [], ks_pan = []\<rparr>"

definition kyc_load :: "nat \<Rightarrow> account_db \<Rightarrow> kyc_screen \<Rightarrow> kyc_screen \<times> route option" where
  \<comment> \<open>\<open>loadAccountData\<close>: the form is prefilled with the stored numbers when they are non-empty\<close>
  "kyc_load i db st =
     (case load_account_data i db of
        Inl _ \<Rightarrow> (st\<lparr>ks_loading := False\<rparr>, Some GoBack)
      | Inr a \<Rightarrow>
          (st\<lparr>ks_account := Some a,
              ks_aadhar := (case ia_aadhar a of Some x \<Rightarrow> if x = [] then ks_aadhar st else x | None \<Rightarrow> ks_aadhar st),
              ks_pan := (case ia_pan a of Some x \<Rightarrow> if x = [] then ks_pan st else x | None \<Rightarrow> ks_pan st),
              ks_loading := False\<rparr>, None))"

datatype kyc_event = KycBack | SetAadhar string | SetPan string | SubmitKyc

definition kyc_view :: "(nat \<Rightarrow> nat option) \<Rightarrow> kyc_screen \<Rightarrow> kyc_event widget list" where
  "kyc_view verified_at st =
     (if ks_loading st then [Button [] KycBack, Text [Str ''KYC Verification'']]
      else case ks_account st of
        Some a \<Rightarrow>
          (if ia_kyc a
           then [Button [] KycBack, Text [Str ''KYC Verification''],
                 Text [Glyph CheckMark, Str '' KYC Verified''],
                 Text [Str ''This account has been verified on '',
                       DateF (case verified_at (ia_id a) of None \<Rightarrow> 0 | Some d \<Rightarrow> d)],
                 Text [Str ''Account Name''], Text [Str (ia_name a)],
                 Text [Str ''Account Number''], Text [Str (ia_number a)],
                 Text [Str ''Aadhar Number''], Text [Str (masked_aadhar (ia_aadhar a))],
                 Text [Str ''PAN Number''], Text [Str (case ia_pan a of None \<Rightarrow> [] | Some p \<Rightarrow> p)],
                 Button [Text [Str ''Go Back'']] KycBack]
           else [Button [] KycBack, Text [Str ''KYC Verification''],
                 Text [Str ''Account''], Text [Str (ia_name a)], Text [Str (ia_number a)]])
      | None \<Rightarrow> [Button [] KycBack, Text [Str ''KYC Verification''], Text [Str ''Account''], Text [], Text []]) @
     (if ks_loading st \<or> (case ks_account st of Some a \<Rightarrow> ia_kyc a | None \<Rightarrow> False) then []
      else [Text [Str ''Complete Your KYC''],
            Text [Str ''This account requires separate KYC verification. Provide your Aadhar and PAN details below.''],
            Text [Str ''Aadhar Number *''], Text [Str (ks_aadhar st)], Text [Str ''Must be exactly 12 digits''],
            Text [Str ''PAN Number *''], Text [Str (ks_pan st)], Text [Str ''Format: 5 letters + 4 digits + 1 letter''],
            Text [Glyph WarningSign, Str '' Important Information''],
            Text [Glyph Bullet, Str '' Details will be verified by admin''],
            Text [Glyph Bullet, Str '' Must match official documents''],
            Text [Glyph Bullet, Str '' Each account needs unique Aadhar & PAN''],
            Text [Glyph Bullet, Str '' Verification takes 1-2 business days''],
            Text [Glyph Bullet, Str '' Cannot transact until verified'']] @
           (if ks_submitting st then [Text []] else [Button [Text [Str ''Submit for Verification'']] SubmitKyc]))"

definition kyc_step :: "bool \<Rightarrow> nat \<Rightarrow> uid option \<Rightarrow> kyc_event \<Rightarrow> account_db \<times> account_ctx \<times> kyc_screen \<Rightarrow>
    (account_db \<times> account_ctx \<times> kyc_screen) \<times> route option" where
  "kyc_step failed i user e s =
     (case s of (db, ctx, st) \<Rightarrow>
       (case e of
          KycBack \<Rightarrow> ((db, ctx, st), Some GoBack)
        | SetAadhar t \<Rightarrow> ((db, ctx, st\<lparr>ks_aadhar := take 12 t\<rparr>), None)
        | SetPan t \<Rightarrow> ((db, ctx, st\<lparr>ks_pan := take 10 (js_upper t)\<rparr>), None)
        | SubmitKyc \<Rightarrow>
            (case kyc_handle_submit failed i (ks_aadhar st) (ks_pan st) user db ctx of
               (None, db', ctx') \<Rightarrow> ((db', ctx', st\<lparr>ks_submitting := False\<rparr>), Some GoBack)
             | (Some err, db', ctx') \<Rightarrow> ((db', ctx', st\<lparr>ks_submitting := False\<rparr>), None))))"

definition accounts_event_ok :: "account_ctx \<Rightarrow> accounts_event \<Rightarrow> bool" where
  \<comment> \<open>the events a button of the accounts screen may carry\<close>
  "accounts_event_ok ctx e =
     (case e of
        SwitchTo a \<Rightarrow> a \<in> set (ac_accounts ctx) \<and> \<not> is_selected ctx a
      | GoKyc i \<Rightarrow> (\<exists>a \<in> set (ac_accounts ctx). ia_id a = i \<and> \<not> ia_kyc a)
      | SetName t \<Rightarrow> False
      | _ \<Rightarrow> True)"

lemma upper_table_Some:
  assumes "map_of (zip ''abcdefghijklmnopqrstuvwxyz'' ''ABCDEFGHIJKLMNOPQRSTUVWXYZ'') c = Some u"
  shows "c \<in> set ''abcdefghijklmnopqrstuvwxyz'' \<and> u \<in> set ''ABCDEFGHIJKLMNOPQRSTUVWXYZ''"
proof -
  have "(c, u) \<in> set (zip ''abcdefghijklmnopqrstuvwxyz'' ''ABCDEFGHIJKLMNOPQRSTUVWXYZ'')"
    by (rule map_of_SomeD [OF assms])
  then show ?thesis by (blast dest: set_zip_leftD set_zip_rightD)
qed

lemma upper_not_lower: "u \<in> set ''ABCDEFGHIJKLMNOPQRSTUVWXYZ'' \<Longrightarrow> u \<notin> set ''abcdefghijklmnopqrstuvwxyz''"
  by auto

lemma upper_table_None:
  "u \<in> set ''ABCDEFGHIJKLMNOPQRSTUVWXYZ'' \<Longrightarrow>
   map_of (zip ''abcdefghijklmnopqrstuvwxyz'' ''ABCDEFGHIJKLMNOPQRSTUVWXYZ'') u = None"
proof -
  assume u: "u \<in> set ''ABCDEFGHIJKLMNOPQRSTUVWXYZ''"
  have "fst ` set (zip ''abcdefghijklmnopqrstuvwxyz'' ''ABCDEFGHIJKLMNOPQRSTUVWXYZ'') = set ''abcdefghijklmnopqrstuvwxyz''"
    by (subst set_map [symmetric], subst map_fst_zip) simp_all
  then show ?thesis using upper_not_lower [OF u] by (simp only: map_of_eq_None_iff) simp
qed

lemma js_upper_char_idem: "js_upper_char (js_upper_char c) = js_upper_char c"
proof (cases "map_of (zip ''abcdefghijklmnopqrstuvwxyz'' ''ABCDEFGHIJKLMNOPQRSTUVWXYZ'') c")
  case (Some u)
  then have "map_of (zip ''abcdefghijklmnopqrstuvwxyz'' ''ABCDEFGHIJKLMNOPQRSTUVWXYZ'') u = None"
    using upper_table_None upper_table_Some by blast
  then show ?thesis using Some by (simp only: js_upper_char_def option.case)
qed (simp only: js_upper_char_def option.case)

lemma js_upper_idem [simp]: "js_upper (js_upper s) = js_upper s"
  by (simp add: js_upper_def comp_def js_upper_char_idem)

lemma js_is_space_upper: "js_is_space (js_upper_char c) = js_is_space c"
proof (cases "map_of (zip ''abcdefghijklmnopqrstuvwxyz'' ''ABCDEFGHIJKLMNOPQRSTUVWXYZ'') c")
  case (Some u)
  then have cu: "c \<in> set ''abcdefghijklmnopqrstuvwxyz''" "u \<in> set ''ABCDEFGHIJKLMNOPQRSTUVWXYZ''"
    using upper_table_Some by blast+
  have "\<not> js_is_space c" using cu(1) by (auto simp: js_is_space_def)
  moreover have "\<not> js_is_space u" using cu(2) by (auto simp: js_is_space_def)
  ultimately show ?thesis using Some by (simp only: js_upper_char_def option.case)
qed (simp only: js_upper_char_def option.case)

lemma js_trim_upper_Nil: "js_trim (js_upper s) = [] \<longleftrightarrow> js_trim s = []"
proof -
  have "dropWhile js_is_space (map js_upper_char xs) = map js_upper_char (dropWhile js_is_space xs)" for xs
    by (induction xs) (simp_all add: js_is_space_upper)
  then show ?thesis by (simp add: js_trim_def js_upper_def rev_map)
qed

theorem kyc_pan_field_upper_redundant:
  "kyc_submit failed i aadhar (js_upper pan) db = kyc_submit failed i aadhar pan db"
  by (simp add: kyc_submit_def js_trim_upper_Nil)

lemma accounts_step_open_name:
  "snd (snd (fst (accounts_step user gen now (SetName t)
      (db, ctx, snd (snd (fst (accounts_step user gen now OpenCreate (db, ctx, st)))))))) =
   st\<lparr>as_modal := True, as_name := take 50 t\<rparr>"
  by (simp add: accounts_step_def)

lemma create_account_adds_row:
  assumes "gen u = Inr no" "length (filter (\<lambda>a. ia_user a = u) (acct_rows db)) < max_accounts"
  shows "fst (create_account (Some u) gen now name db ctx) = Created \<and>
         length (filter (\<lambda>a. ia_user a = u) (acct_rows (fst (snd (create_account (Some u) gen now name db ctx))))) =
         Suc (length (filter (\<lambda>a. ia_user a = u) (acct_rows db)))"
  using assms by (simp add: create_account_def insert_account_def)

text \<open>C27: a user with fewer than ten accounts can always add one through the buttons of the accounts screen.\<close>

theorem accounts_create_progress:
  assumes "\<not> ac_loading ctx" "can_add_account ctx" "\<not> as_creating st"
    and "gen u = Inr no" "length (filter (\<lambda>a. ia_user a = u) (acct_rows db)) < max_accounts"
    and "js_trim name \<noteq> []" "length name \<le> 50"
  shows "OpenCreate \<in> set (view_events (accounts_view va ctx st)) \<and>
         ConfirmCreate \<in> set (view_events (accounts_view va ctx (st\<lparr>as_modal := True, as_name := name\<rparr>))) \<and>
         snd (snd (fst (accounts_step (Some u) gen now (SetName name)
            (db, ctx, snd (snd (fst (accounts_step (Some u) gen now OpenCreate (db, ctx, st)))))))) =
           st\<lparr>as_modal := True, as_name := name\<rparr> \<and>
         length (filter (\<lambda>a. ia_user a = u)
           (acct_rows (fst (fst (accounts_step (Some u) gen now ConfirmCreate (db, ctx, st\<lparr>as_modal := True, as_name := name\<rparr>)))))) =
         Suc (length (filter (\<lambda>a. ia_user a = u) (acct_rows db)))"
proof -
  have ev1: "OpenCreate \<in> set (view_events (accounts_view va ctx st))"
    using assms(1,2) by (simp add: accounts_view_def accounts_stats_def view_events_def)
  have ev2: "ConfirmCreate \<in> set (view_events (accounts_view va ctx (st\<lparr>as_modal := True, as_name := name\<rparr>)))"
    using assms(1,3) by (simp add: accounts_view_def accounts_stats_def view_events_def)
  have nm: "snd (snd (fst (accounts_step (Some u) gen now (SetName name)
            (db, ctx, snd (snd (fst (accounts_step (Some u) gen now OpenCreate (db, ctx, st)))))))) =
           st\<lparr>as_modal := True, as_name := name\<rparr>"
    using accounts_step_open_name assms(7) by simp
  obtain r db' ctx' where c: "create_account (Some u) gen now (js_trim name) db ctx = (r, db', ctx')"
    by (metis prod_cases3)
  with create_account_adds_row [where gen = gen and u = u and db = db and now = now and name = "js_trim name" and ctx = ctx, OF assms(4,5)]
  have "r = Created" "length (filter (\<lambda>a. ia_user a = u) (acct_rows db')) = Suc (length (filter (\<lambda>a. ia_user a = u) (acct_rows db)))"
    by simp_all
  then have "length (filter (\<lambda>a. ia_user a = u)
           (acct_rows (fst (fst (accounts_step (Some u) gen now ConfirmCreate (db, ctx, st\<lparr>as_modal := True, as_name := name\<rparr>)))))) =
         Suc (length (filter (\<lambda>a. ia_user a = u) (acct_rows db)))"
    using c assms(6) by (simp add: accounts_step_def handle_create_account_def)
  then show ?thesis using ev1 ev2 nm by blast
qed

theorem accounts_create_progress_witness:
  "length (filter (\<lambda>a. ia_user a = 7)
     (acct_rows (fst (fst (accounts_step (Some 7) (\<lambda>_. Inr ''INV7-003'') 4 ConfirmCreate
        (example_account_db, empty_account_ctx\<lparr>ac_loading := False\<rparr>,
         initial_accounts_screen\<lparr>as_modal := True, as_name := ''Gold''\<rparr>)))))) = 3"
proof -
  have "length (filter (\<lambda>a. ia_user a = 7) (acct_rows example_account_db)) = 2"
    by (simp add: example_account_db_def example_rows_def)
  moreover have "\<not> ac_loading (empty_account_ctx\<lparr>ac_loading := False\<rparr>)"
    "can_add_account (empty_account_ctx\<lparr>ac_loading := False\<rparr>)" "\<not> as_creating initial_accounts_screen"
    "js_trim ''Gold'' \<noteq> []" "length ''Gold'' \<le> 50"
    by (simp_all add: can_add_account_def empty_account_ctx_def initial_accounts_screen_def js_trim_def js_is_space_def)
  ultimately show ?thesis
    using accounts_create_progress [of "empty_account_ctx\<lparr>ac_loading := False\<rparr>" initial_accounts_screen
        "\<lambda>_. Inr ''INV7-003''" 7 "''INV7-003''" example_account_db "''Gold''" "\<lambda>_. None" 4]
    by (simp add: max_accounts_def)
qed

lemma view_events_Highlight [simp]: "view_events [Highlight ws] = view_events ws"
  by (simp add: view_events_def)

lemma account_card_events:
  "a \<in> set (ac_accounts ctx) \<Longrightarrow> e \<in> set (view_events (account_card va ctx a)) \<Longrightarrow> accounts_event_ok ctx e"
  by (cases "is_selected ctx a"; cases "ia_kyc a"; cases "va (ia_id a)")
     (auto simp: account_card_def view_events_def accounts_event_ok_def Let_def)

theorem accounts_view_events_ok:
  "\<forall>e \<in> set (view_events (accounts_view va ctx st)). accounts_event_ok ctx e"
proof
  fix e assume e: "e \<in> set (view_events (accounts_view va ctx st))"
  show "accounts_event_ok ctx e"
  proof (cases "\<exists>a \<in> set (ac_accounts ctx). e \<in> set (view_events (account_card va ctx a))")
    case True
    then show ?thesis using account_card_events by blast
  next
    case False
    then have "e \<notin> set (view_events (concat (map (account_card va ctx) (ac_accounts ctx))))"
      by (auto simp: view_events_def)
    then show ?thesis using e
      by (auto simp: accounts_view_def accounts_stats_def view_events_def accounts_event_ok_def
               split: if_splits)
  qed
qed

theorem accounts_view_events_ok_witness:
  "GoKyc 1 \<in> set (view_events (accounts_view (\<lambda>_. None) (load_accounts (Some 7) False example_account_db empty_account_ctx)
      initial_accounts_screen)) \<and>
   accounts_event_ok (load_accounts (Some 7) False example_account_db empty_account_ctx) (GoKyc 1)"
proof -
  let ?ctx = "load_accounts (Some 7) False example_account_db empty_account_ctx"
  have acc: "ac_accounts ?ctx = user_accounts 7 example_account_db" "\<not> ac_loading ?ctx"
    by (simp_all add: load_accounts_def user_accounts_def example_account_db_def example_rows_def Let_def)
  have row: "\<lparr>ia_id = 1, ia_user = 7, ia_number = ''INV7-002'', ia_name = ''Family'', ia_aadhar = None, ia_pan = None,
       ia_kyc = False, ia_primary = False, ia_created = 2\<rparr> \<in> set (ac_accounts ?ctx)"
    unfolding acc(1) by (simp add: user_accounts_member example_account_db_def example_rows_def)
  have "GoKyc 1 \<in> set (view_events (accounts_view (\<lambda>_. None) ?ctx initial_accounts_screen))"
  proof -
    have "GoKyc 1 \<in> set (view_events (account_card (\<lambda>_. None) ?ctx
       \<lparr>ia_id = 1, ia_user = 7, ia_number = ''INV7-002'', ia_name = ''Family'', ia_aadhar = None, ia_pan = None,
        ia_kyc = False, ia_primary = False, ia_created = 2\<rparr>))"
      by (cases "is_selected ?ctx \<lparr>ia_id = 1, ia_user = 7, ia_number = ''INV7-002'', ia_name = ''Family'',
                 ia_aadhar = None, ia_pan = None, ia_kyc = False, ia_primary = False, ia_created = 2\<rparr>")
         (simp_all add: account_card_def view_events_def Let_def)
    then have "GoKyc 1 \<in> set (view_events (concat (map (account_card (\<lambda>_. None) ?ctx) (ac_accounts ?ctx))))"
      using row by (auto simp: view_events_def)
    then show ?thesis using acc(2) by (simp add: accounts_view_def accounts_stats_def view_events_def)
  qed
  moreover note bspec [OF accounts_view_events_ok this]
  ultimately show ?thesis by blast
qed

end
