(* ===== verification/RateProvider.thy ===== *)
theory RateProvider
  imports Prelude
begin

text \<open>
  The rate provider: the \<open>gold_rates\<close> table and the query the screens run on it,
  \<open>select rate_per_gram order by rate_date desc limit 1 maybeSingle\<close>
  (\<open>src/app/(tabs)/plans.tsx\<close>, \<open>loadGoldRate\<close> and \<open>makePayment\<close>;
  \<open>src/app/(tabs)/index.tsx\<close>, \<open>loadData\<close>).  The ordering is a stable sort on the
  negated date, so among rows with the same date the first one in table order is taken.
  The payment path falls back to 6500 when the query returns nothing or a falsy rate
  (\<open>goldRateData?.rate_per_gram || 6500\<close>); the display path keeps its previous state
  when the query returns nothing but shows a zero rate as it is.
\<close>

record gold_rate =
  rate_date :: nat
  rate_per_gram :: money

definition default_gold_rate :: money where
  "default_gold_rate = 6500"

definition latest_rate :: "gold_rate list \<Rightarrow> gold_rate option" where
  "latest_rate rs = (case sort_key (\<lambda>r. - int (rate_date r)) rs of [] \<Rightarrow> None | r # _ \<Rightarrow> Some r)"

definition gold_rate_used :: "gold_rate list \<Rightarrow> money" where
  "gold_rate_used rs =
     (case latest_rate rs of
        None \<Rightarrow> default_gold_rate
      | Some r \<Rightarrow> (if rate_per_gram r = 0 then default_gold_rate else rate_per_gram r))"

definition load_gold_rate :: "money \<Rightarrow> gold_rate list \<Rightarrow> money" where
  "load_gold_rate current rs = (case latest_rate rs of None \<Rightarrow> current | Some r \<Rightarrow> rate_per_gram r)"

lemma sort_key_Nil_iff [simp]: "sort_key k xs = [] \<longleftrightarrow> xs = []"
  by (metis length_0_conv length_sort)

lemma latest_rate_None_iff [simp]: "latest_rate rs = None \<longleftrightarrow> rs = []"
  by (cases "sort_key (\<lambda>r. - int (rate_date r)) rs") (auto simp: latest_rate_def)

lemma latest_rate_Some:
  assumes "latest_rate rs = Some r"
  shows "r \<in> set rs \<and> (\<forall>r' \<in> set rs. rate_date r' \<le> rate_date r)"
proof -
  let ?k = "\<lambda>r. - int (rate_date r)"
  obtain tl where srt: "sort_key ?k rs = r # tl"
    using assms by (auto simp: latest_rate_def split: list.splits)
  have mem: "r \<in> set rs"
    using srt by (metis list.set_intros(1) set_sort)
  have "sorted (map ?k (r # tl))"
    using srt by (metis sorted_sort_key)
  then have "\<forall>x \<in> set tl. ?k r \<le> ?k x"
    by simp
  moreover have "set rs = insert r (set tl)"
    using srt by (metis list.simps(15) set_sort)
  ultimately show ?thesis using mem by auto
qed

lemma gold_rate_used_cases:
  "gold_rate_used rs = default_gold_rate \<or>
   (\<exists>r \<in> set rs. gold_rate_used rs = rate_per_gram r \<and> rate_per_gram r \<noteq> 0)"
  by (auto simp: gold_rate_used_def dest: latest_rate_Some split: option.splits)


theorem gold_rate_used_nonzero: "gold_rate_used rs \<noteq> 0"
  by (simp add: gold_rate_used_def default_gold_rate_def split: option.splits)

theorem gold_rate_used_latest:
  assumes "latest_rate rs = Some r" and "rate_per_gram r \<noteq> 0"
  shows "gold_rate_used rs = rate_per_gram r \<and> r \<in> set rs \<and> (\<forall>r' \<in> set rs. rate_date r' \<le> rate_date r)"
  using assms latest_rate_Some [OF assms(1)] by (simp add: gold_rate_used_def)

theorem gold_rate_used_latest_witness:
  "latest_rate [\<lparr>rate_date = 3, rate_per_gram = 6400\<rparr>, \<lparr>rate_date = 5, rate_per_gram = 6550\<rparr>] =
     Some \<lparr>rate_date = 5, rate_per_gram = 6550\<rparr> \<and> rate_per_gram \<lparr>rate_date = 5, rate_per_gram = (6550::rat)\<rparr> \<noteq> 0 \<and>
   gold_rate_used [\<lparr>rate_date = 3, rate_per_gram = 6400\<rparr>, \<lparr>rate_date = 5, rate_per_gram = 6550\<rparr>] = 6550"
proof -
  have l: "latest_rate [\<lparr>rate_date = 3, rate_per_gram = 6400\<rparr>, \<lparr>rate_date = 5, rate_per_gram = 6550\<rparr>] =
     Some \<lparr>rate_date = 5, rate_per_gram = 6550\<rparr>"
    by (simp add: latest_rate_def)
  show ?thesis using l gold_rate_used_latest [OF l] by simp
qed

theorem zero_rate_display_divergence:
  "load_gold_rate 6500 [\<lparr>rate_date = 1, rate_per_gram = 0\<rparr>] = 0 \<and>
   gold_rate_used [\<lparr>rate_date = 1, rate_per_gram = 0\<rparr>] = 6500"
  by (simp add: load_gold_rate_def gold_rate_used_def latest_rate_def default_gold_rate_def)

end
