(* ===== verification/Ledger.thy ===== *)
theory Ledger
  imports RateProvider Wallet
begin

text \<open>
  The subscription ledger of \<open>src/app/(tabs)/plans.tsx\<close>: the rows of the tables
  \<open>plans\<close>, \<open>user_subscriptions\<close>, \<open>payments\<close>, \<open>gold_holdings\<close> and \<open>wallets\<close>,
  and the screen's operations on them.  \<open>subscribeToPlan\<close> is \<open>subscribe_to_plan\<close>,
  \<open>makePayment\<close> is \<open>make_payment\<close>, the queries \<open>loadPlans\<close>,
  \<open>loadSubscription\<close> and \<open>loadPayments\<close> are \<open>load_plans\<close>,
  \<open>load_subscription\<close> and \<open>load_payments\<close>, and one press of the pay button on a
  freshly loaded screen is \<open>pay_month\<close>.

  Every database write of \<open>makePayment\<close> is a separate request to the hosted store.
  Which of them fail is an input of the model (a set of \<open>db_write\<close>s); the code's reaction
  to each failure is modelled as written: a failed payment insert or subscription total
  update throws, a failed holding insert or wallet update is ignored, and a failed bonus
  payment insert throws a TypeError at \<open>bonusPayment.id\<close> after the subscription's bonus
  columns have already been written.  Row identifiers come from a counter \<open>next_id\<close>.
  Dates are \<open>(year, month0, day)\<close> triples and \<open>js_add_months\<close> is
  \<open>Date.setMonth(getMonth() + k)\<close> with JavaScript's day overflow.
\<close>

type_synonym date = "int \<times> nat \<times> nat"

record plan =
  plan_id :: string
  plan_name :: string
  monthly_amount :: money
  duration_months :: nat
  payment_months :: nat
  bonus_percentage :: money
  plan_active :: bool

datatype sub_status = Active | Completed | Cancelled

record subscription =
  sub_id :: row_id
  sub_user :: uid
  sub_plan :: string
  start_date :: date
  end_date :: date
  status :: sub_status
  total_paid :: money
  bonus_amount :: money
  final_amount :: money

datatype payment_type = MonthlyPayment | BonusPayment

datatype payment_status = Pending | PaymentCompleted | PaymentFailed

record payment =
  pay_id :: row_id
  pay_user :: uid
  pay_sub :: row_id
  amount :: money
  payment_type :: payment_type
  month_number :: nat
  pay_status :: payment_status
  gold_rate :: money
  gold_milligrams :: money

datatype holding_type = MonthlyPurchase | BonusGold

record gold_holding =
  gh_user :: uid
  gh_sub :: row_id
  gh_payment :: row_id
  amount_paid :: money
  gh_rate :: money
  gh_milligrams :: money
  gh_type :: holding_type

record ledger_db =
  plans :: "plan list"
  subscriptions :: "subscription list"
  payments :: "payment list"
  gold_holdings :: "gold_holding list"
  wallets :: wallets
  gold_rates :: "gold_rate list"
  next_id :: row_id

datatype db_write =
    W_SubInsert | W_PaymentInsert | W_HoldingInsert | W_WalletGold | W_SubTotal
  | W_SubBonus | W_BonusPaymentInsert | W_BonusHoldingInsert | W_BonusWalletGold

datatype subscribe_error = PlanNotFound | InsertRefused

datatype subscribe_outcome = SubscribeNoProfile | SubscribeFailed subscribe_error | Subscribed row_id

datatype pay_outcome = NoSession | PayTypeError | AllPaid | Paid nat money | PayFailed db_write

subsection \<open>Dates\<close>

definition leap_year :: "int \<Rightarrow> bool" where
  "leap_year y \<longleftrightarrow> (4 dvd y \<and> \<not> 100 dvd y) \<or> 400 dvd y"

definition days_in_month :: "int \<Rightarrow> nat \<Rightarrow> nat" where
  "days_in_month y m =
     (if m = 1 then (if leap_year y then 29 else 28) else if m \<in> {3, 5, 8, 10} then 30 else 31)"

definition js_add_months :: "date \<Rightarrow> nat \<Rightarrow> date" where
  "js_add_months d k =
     (case d of (y, m, dd) \<Rightarrow>
        let m' = m + k; y' = y + int (m' div 12); mm = m' mod 12; dim = days_in_month y' mm in
        if dd \<le> dim then (y', mm, dd)
        else if mm = 11 then (y' + 1, 0, dd - dim) else (y', Suc mm, dd - dim))"

subsection \<open>Queries\<close>

definition default_plan :: plan where
  "default_plan = \<lparr>plan_id = ''default-plan'', plan_name = ''Gold Saver Plan'', monthly_amount = 1500,
     duration_months = 12, payment_months = 11, bonus_percentage = 833 / 100, plan_active = True\<rparr>"

definition load_plans :: "ledger_db \<Rightarrow> plan list" where
  "load_plans db = (case filter plan_active (plans db) of [] \<Rightarrow> [default_plan] | ps \<Rightarrow> ps)"

definition plan_of :: "ledger_db \<Rightarrow> subscription \<Rightarrow> plan option" where
  "plan_of db s = find (\<lambda>p. plan_id p = sub_plan s) (plans db)"

definition load_subscription :: "ledger_db \<Rightarrow> uid \<Rightarrow> (subscription \<times> plan option) option" where
  "load_subscription db u =
     (case filter (\<lambda>s. sub_user s = u \<and> status s = Active) (subscriptions db) of
        [s] \<Rightarrow> Some (s, plan_of db s)
      | _ \<Rightarrow> None)"

definition monthly_of :: "payment list \<Rightarrow> row_id \<Rightarrow> payment list" where
  "monthly_of ps sid = filter (\<lambda>p. pay_sub p = sid \<and> payment_type p = MonthlyPayment) ps"

definition load_payments :: "ledger_db \<Rightarrow> row_id \<Rightarrow> payment list" where
  "load_payments db sid = sort_key month_number (monthly_of (payments db) sid)"

subsection \<open>Writes\<close>

definition bonus_amount_rs :: money where
  "bonus_amount_rs = 4500"

definition bonus_month :: nat where
  "bonus_month = 12"

definition gold_mg :: "money \<Rightarrow> money \<Rightarrow> money" where
  "gold_mg amt rate = amt / rate * 1000"

definition set_sub :: "row_id \<Rightarrow> (subscription \<Rightarrow> subscription) \<Rightarrow> ledger_db \<Rightarrow> ledger_db" where
  "set_sub sid f db = db\<lparr>subscriptions := update_where (\<lambda>s. sub_id s = sid) f (subscriptions db)\<rparr>"

definition payment_row ::
  "row_id \<Rightarrow> uid \<Rightarrow> row_id \<Rightarrow> money \<Rightarrow> payment_type \<Rightarrow> nat \<Rightarrow> money \<Rightarrow> payment" where
  "payment_row pid u sid amt ty m rate =
     \<lparr>pay_id = pid, pay_user = u, pay_sub = sid, amount = amt, payment_type = ty,
      month_number = m, pay_status = PaymentCompleted, gold_rate = rate,
      gold_milligrams = gold_mg amt rate\<rparr>"

definition holding_row ::
  "row_id \<Rightarrow> uid \<Rightarrow> row_id \<Rightarrow> money \<Rightarrow> money \<Rightarrow> holding_type \<Rightarrow> gold_holding" where
  "holding_row pid u sid amt rate hty =
     \<lparr>gh_user = u, gh_sub = sid, gh_payment = pid, amount_paid = amt, gh_rate = rate,
      gh_milligrams = gold_mg amt rate, gh_type = hty\<rparr>"

definition gold_credit ::
  "db_write set \<Rightarrow> db_write \<times> db_write \<times> db_write \<Rightarrow> uid \<Rightarrow> row_id \<Rightarrow> money \<Rightarrow> payment_type \<Rightarrow> nat \<Rightarrow>
   money \<Rightarrow> holding_type \<Rightarrow> ledger_db \<Rightarrow> db_write + ledger_db" where
  "gold_credit F ws u sid amt ty m rate hty db =
     (case ws of (wp, wh, ww) \<Rightarrow>
      if wp \<in> F then Inl wp
      else
        let pid = next_id db;
            db1 = db\<lparr>payments := payments db @ [payment_row pid u sid amt ty m rate], next_id := Suc pid\<rparr>;
            db2 = (if wh \<in> F then db1
                   else db1\<lparr>gold_holdings := gold_holdings db1 @ [holding_row pid u sid amt rate hty]\<rparr>);
            db3 = (if ww \<in> F then db2 else db2\<lparr>wallets := add_gold_mg u (gold_mg amt rate) (wallets db2)\<rparr>)
        in Inr db3)"

definition subscribe_to_plan ::
  "db_write set \<Rightarrow> uid option \<Rightarrow> plan list \<Rightarrow> string \<Rightarrow> date \<Rightarrow> ledger_db \<Rightarrow> subscribe_outcome \<times> ledger_db" where
  "subscribe_to_plan F profile shown pid today db =
     (case profile of
        None \<Rightarrow> (SubscribeNoProfile, db)
      | Some u \<Rightarrow>
          (case find (\<lambda>p. plan_id p = pid) shown of
             None \<Rightarrow> (SubscribeFailed PlanNotFound, db)
           | Some pl \<Rightarrow>
               \<comment> \<open>the insert fails, or is refused by the foreign key on \<open>plan_id\<close> when the
                   shown plan is the fallback plan that is not in the table (a schema
                   constraint assumed, not in the repository)\<close>
               if W_SubInsert \<in> F \<or> pid \<notin> set (map plan_id (plans db))
               then (SubscribeFailed InsertRefused, db)
               else
                 let sid = next_id db;
                     s = \<lparr>sub_id = sid, sub_user = u, sub_plan = pid, start_date = today,
                          end_date = js_add_months today (duration_months pl), status = Active,
                          total_paid = 0, bonus_amount = 0, final_amount = 0\<rparr>
                 in (Subscribed sid, db\<lparr>subscriptions := subscriptions db @ [s], next_id := Suc sid\<rparr>)))"

definition make_payment ::
  "db_write set \<Rightarrow> uid option \<Rightarrow> (subscription \<times> plan option) option \<Rightarrow> nat \<Rightarrow> ledger_db \<Rightarrow>
   pay_outcome \<times> ledger_db" where
  "make_payment F profile view npaid db =
     (case (view, profile) of
        (Some (s, Some pl), Some u) \<Rightarrow>
          (let next_month = npaid + 1 in
           if payment_months pl < next_month then (AllPaid, db)
           else
             let rate = gold_rate_used (gold_rates db);
                 mg = gold_mg (monthly_amount pl) rate
             in case gold_credit F (W_PaymentInsert, W_HoldingInsert, W_WalletGold) u (sub_id s)
                       (monthly_amount pl) MonthlyPayment next_month rate MonthlyPurchase db of
                  Inl w \<Rightarrow> (PayFailed w, db)
                | Inr db1 \<Rightarrow>
                    let new_total = total_paid s + monthly_amount pl in
                    if W_SubTotal \<in> F then (PayFailed W_SubTotal, db1)
                    else
                      let db2 = set_sub (sub_id s) (\<lambda>x. x\<lparr>total_paid := new_total\<rparr>) db1 in
                      if next_month = payment_months pl then
                        let db3 = (if W_SubBonus \<in> F then db2
                                   else set_sub (sub_id s) (\<lambda>x. x\<lparr>bonus_amount := bonus_amount_rs,
                                          final_amount := new_total + bonus_amount_rs\<rparr>) db2)
                        in case gold_credit F (W_BonusPaymentInsert, W_BonusHoldingInsert, W_BonusWalletGold)
                                  u (sub_id s) bonus_amount_rs BonusPayment bonus_month rate BonusGold db3 of
                             Inl w \<Rightarrow> (PayFailed w, db3)
                           | Inr db4 \<Rightarrow> (Paid next_month mg, db4)
                      else (Paid next_month mg, db2))
      | (Some (s, None), Some u) \<Rightarrow> (PayTypeError, db)
      | _ \<Rightarrow> (NoSession, db))"

definition pay_month :: "db_write set \<Rightarrow> uid \<Rightarrow> ledger_db \<Rightarrow> pay_outcome \<times> ledger_db" where
  "pay_month F u db =
     (case load_subscription db u of
        None \<Rightarrow> make_payment F (Some u) None 0 db
      | Some (s, pl) \<Rightarrow> make_payment F (Some u) (Some (s, pl)) (length (load_payments db (sub_id s))) db)"

subsection \<open>Runs of the screen and the ledger invariants\<close>

text \<open>
  A run is any sequence of subscriptions (from the plans the screen shows) and pay-button
  presses by any users, each press on a freshly loaded screen, each step with its own set
  of failing writes drawn from \<open>G\<close>.
\<close>

inductive ledger_step :: "db_write set \<Rightarrow> ledger_db \<Rightarrow> ledger_db \<Rightarrow> bool" for G where
  subscribe: "F \<subseteq> G \<Longrightarrow> ledger_step G db (snd (subscribe_to_plan F (Some u) (load_plans db) pid today db))"
| pay: "F \<subseteq> G \<Longrightarrow> ledger_step G db (snd (pay_month F u db))"

inductive ledger_reach :: "db_write set \<Rightarrow> ledger_db \<Rightarrow> ledger_db \<Rightarrow> bool" for G where
  refl: "ledger_reach G db db"
| step: "ledger_reach G db0 db \<Longrightarrow> ledger_step G db db' \<Longrightarrow> ledger_reach G db0 db'"

definition init_ledger :: "plan list \<Rightarrow> gold_rate list \<Rightarrow> wallets \<Rightarrow> ledger_db" where
  "init_ledger ps rs ws = \<lparr>plans = ps, subscriptions = [], payments = [], gold_holdings = [],
     wallets = ws, gold_rates = rs, next_id = 0\<rparr>"

definition bonus_of :: "payment list \<Rightarrow> row_id \<Rightarrow> payment list" where
  "bonus_of ps sid = filter (\<lambda>p. pay_sub p = sid \<and> payment_type p = BonusPayment) ps"

definition sub_consistent :: "ledger_db \<Rightarrow> subscription \<Rightarrow> bool" where
  "sub_consistent db s \<longleftrightarrow>
     (case plan_of db s of
        None \<Rightarrow> False
      | Some pl \<Rightarrow>
          (let ms = monthly_of (payments db) (sub_id s); n = length ms in
           map month_number ms = [1..<n + 1] \<and> n \<le> payment_months pl \<and>
           (\<forall>p \<in> set ms. amount p = monthly_amount pl) \<and>
           total_paid s = sum_list (map amount ms) \<and>
           (if 0 < n \<and> n = payment_months pl
            then map amount (bonus_of (payments db) (sub_id s)) = [bonus_amount_rs] \<and>
                 bonus_amount s = bonus_amount_rs \<and> final_amount s = total_paid s + bonus_amount_rs
            else bonus_of (payments db) (sub_id s) = [] \<and> bonus_amount s = 0 \<and> final_amount s = 0)))"

definition ledger_inv :: "ledger_db \<Rightarrow> bool" where
  "ledger_inv db \<longleftrightarrow>
     distinct (map sub_id (subscriptions db)) \<and>
     (\<forall>s \<in> set (subscriptions db). sub_id s < next_id db \<and> sub_consistent db s) \<and>
     (\<forall>p \<in> set (payments db). pay_sub p \<in> set (map sub_id (subscriptions db)))"

definition holdings_match :: "ledger_db \<Rightarrow> bool" where
  "holdings_match db \<longleftrightarrow>
     map (\<lambda>h. (gh_payment h, gh_user h, amount_paid h, gh_milligrams h)) (gold_holdings db) =
     map (\<lambda>p. (pay_id p, pay_user p, amount p, gold_milligrams p)) (payments db)"

definition gold_rows_ok :: "ledger_db \<Rightarrow> bool" where
  "gold_rows_ok db \<longleftrightarrow>
     (\<forall>p \<in> set (payments db). gold_milligrams p = gold_mg (amount p) (gold_rate p) \<and>
        gold_rate p = gold_rate_used (gold_rates db) \<and> pay_status p = PaymentCompleted)"

definition wallet_gold_ok :: "ledger_db \<Rightarrow> bool" where
  "wallet_gold_ok db \<longleftrightarrow>
     (\<forall>u w. wallets db u = Some w \<longrightarrow>
        gold_balance_mg w = sum_list (map gold_milligrams (filter (\<lambda>p. pay_user p = u) (payments db))))"

definition unsafe_writes :: "db_write set" where
  "unsafe_writes = {W_SubTotal, W_SubBonus, W_BonusPaymentInsert}"

definition sub_frame :: "subscription \<Rightarrow> row_id \<times> uid \<times> string \<times> sub_status" where
  "sub_frame x = (sub_id x, sub_user x, sub_plan x, status x)"


definition payment_writes :: "(db_write \<times> db_write \<times> db_write) set" where
  "payment_writes = {(W_PaymentInsert, W_HoldingInsert, W_WalletGold),
                     (W_BonusPaymentInsert, W_BonusHoldingInsert, W_BonusWalletGold)}"


subsection \<open>Example data\<close>

definition example_plan :: plan where
  "example_plan = \<lparr>plan_id = ''p1'', plan_name = ''Gold Plan'', monthly_amount = 1000,
     duration_months = 12, payment_months = 12, bonus_percentage = 5, plan_active = True\<rparr>"

definition short_plan :: plan where
  "short_plan = \<lparr>plan_id = ''p2'', plan_name = ''Bronze Plan'', monthly_amount = 300,
     duration_months = 1, payment_months = 1, bonus_percentage = 2, plan_active = True\<rparr>"

definition example_rates :: "gold_rate list" where
  "example_rates = [\<lparr>rate_date = 1, rate_per_gram = 6500\<rparr>]"

definition example_wallets :: wallets where
  "example_wallets = [1 \<mapsto> new_wallet]"

definition example_ledger :: ledger_db where
  "example_ledger = init_ledger [example_plan, short_plan] example_rates example_wallets"

definition example_subscribed :: "string \<Rightarrow> ledger_db" where
  "example_subscribed pid = snd (subscribe_to_plan {} (Some 1) (load_plans example_ledger) pid (2025, 0, 31) example_ledger)"


subsection \<open>Properties\<close>

lemma gold_credit_Inl_iff:
  "gold_credit F (wp, wh, ww) u sid amt ty m rate hty db = Inl w \<longleftrightarrow> wp \<in> F \<and> w = wp"
  by (auto simp: gold_credit_def Let_def)

lemma gold_credit_Inr_ex:
  "wp \<notin> F \<Longrightarrow> \<exists>db'. gold_credit F (wp, wh, ww) u sid amt ty m rate hty db = Inr db'"
  by (simp add: gold_credit_def Let_def)

lemma gold_credit_Inr:
  assumes "gold_credit F (wp, wh, ww) u sid amt ty m rate hty db = Inr db'"
  shows "wp \<notin> F" and "plans db' = plans db" and "subscriptions db' = subscriptions db"
    and "gold_rates db' = gold_rates db" and "next_id db' = Suc (next_id db)"
    and "payments db' = payments db @ [payment_row (next_id db) u sid amt ty m rate]"
    and "gold_holdings db' =
           gold_holdings db @ (if wh \<in> F then [] else [holding_row (next_id db) u sid amt rate hty])"
    and "wallets db' = (if ww \<in> F then wallets db else add_gold_mg u (gold_mg amt rate) (wallets db))"
  using assms by (auto simp: gold_credit_def Let_def split: if_splits)

lemma set_sub_fields [simp]:
  "plans (set_sub sid f db) = plans db" "payments (set_sub sid f db) = payments db"
  "gold_holdings (set_sub sid f db) = gold_holdings db" "wallets (set_sub sid f db) = wallets db"
  "gold_rates (set_sub sid f db) = gold_rates db" "next_id (set_sub sid f db) = next_id db"
  "subscriptions (set_sub sid f db) = update_where (\<lambda>s. sub_id s = sid) f (subscriptions db)"
  by (simp_all add: set_sub_def)

lemma load_subscription_Some:
  assumes "load_subscription db u = Some (s, opl)"
  shows "s \<in> set (subscriptions db) \<and> sub_user s = u \<and> status s = Active \<and> opl = plan_of db s"
proof -
  obtain xs where xs: "filter (\<lambda>s. sub_user s = u \<and> status s = Active) (subscriptions db) = xs"
    by simp
  with assms have "xs = [s] \<and> opl = plan_of db s"
    by (auto simp: load_subscription_def split: list.splits)
  moreover have "set xs \<subseteq> set (subscriptions db)" and "\<forall>x \<in> set xs. sub_user x = u \<and> status x = Active"
    using xs by auto
  ultimately show ?thesis by auto
qed

lemma length_load_payments [simp]:
  "length (load_payments db sid) = length (monthly_of (payments db) sid)"
  by (simp add: load_payments_def)

lemma sub_consistent_cong:
  assumes "plans db' = plans db"
    and "monthly_of (payments db') (sub_id s) = monthly_of (payments db) (sub_id s)"
    and "bonus_of (payments db') (sub_id s) = bonus_of (payments db) (sub_id s)"
  shows "sub_consistent db' s = sub_consistent db s"
  by (simp only: sub_consistent_def plan_of_def assms)

lemma monthly_of_append [simp]: "monthly_of (xs @ ys) sid = monthly_of xs sid @ monthly_of ys sid"
  by (simp add: monthly_of_def)

lemma bonus_of_append [simp]: "bonus_of (xs @ ys) sid = bonus_of xs sid @ bonus_of ys sid"
  by (simp add: bonus_of_def)

lemma monthly_of_other:
  "\<forall>p \<in> set ys. pay_sub p \<noteq> sid \<Longrightarrow> monthly_of ys sid = []"
  by (simp add: monthly_of_def filter_empty_conv)

lemma bonus_of_other:
  "\<forall>p \<in> set ys. pay_sub p \<noteq> sid \<Longrightarrow> bonus_of ys sid = []"
  by (simp add: bonus_of_def filter_empty_conv)

lemma sub_consistent_before_final:
  assumes "sub_consistent db s" "plan_of db s = Some pl"
    and "length (monthly_of (payments db) (sub_id s)) < payment_months pl"
  shows "bonus_of (payments db) (sub_id s) = [] \<and> bonus_amount s = 0 \<and> final_amount s = 0"
  using assms by (simp add: sub_consistent_def Let_def)

lemma ledger_inv_pay_step:
  assumes inv: "ledger_inv db" and s: "s \<in> set (subscriptions db)" and pl: "plan_of db s = Some pl"
    and n: "length (monthly_of (payments db) (sub_id s)) = n" and lt: "n < payment_months pl"
    and subs': "subscriptions db' = update_where (\<lambda>x. sub_id x = sub_id s) g (subscriptions db)"
    and gid: "\<And>x. sub_id (g x) = sub_id x" and gplan: "sub_plan (g s) = sub_plan s"
    and gtot: "total_paid (g s) = total_paid s + monthly_amount pl"
    and pays': "payments db' = payments db @ p # bs"
    and p: "pay_sub p = sub_id s" "payment_type p = MonthlyPayment" "month_number p = Suc n"
      "amount p = monthly_amount pl"
    and fin: "Suc n = payment_months pl \<Longrightarrow>
      (\<exists>b. bs = [b] \<and> pay_sub b = sub_id s \<and> payment_type b = BonusPayment \<and> amount b = bonus_amount_rs) \<and>
      bonus_amount (g s) = bonus_amount_rs \<and> final_amount (g s) = total_paid (g s) + bonus_amount_rs"
    and nfin: "Suc n \<noteq> payment_months pl \<Longrightarrow>
      bs = [] \<and> bonus_amount (g s) = bonus_amount s \<and> final_amount (g s) = final_amount s"
    and pl': "plans db' = plans db" and nid: "next_id db \<le> next_id db'"
  shows "ledger_inv db'"
proof -
  let ?subs = "subscriptions db"
  have dist: "distinct (map sub_id ?subs)" and old: "\<forall>x \<in> set ?subs. sub_id x < next_id db \<and> sub_consistent db x"
    and refs: "\<forall>q \<in> set (payments db). pay_sub q \<in> set (map sub_id ?subs)"
    using inv by (simp_all add: ledger_inv_def)
  have ids: "map sub_id (subscriptions db') = map sub_id ?subs"
    using subs' gid by (simp add: map_update_where_key)
  have set': "set (subscriptions db') = insert (g s) (set ?subs - {s})"
    using subs' set_update_where_key [OF dist s] by simp
  have bs_sub: "\<forall>b \<in> set bs. pay_sub b = sub_id s"
    using fin nfin by (cases "Suc n = payment_months pl") auto
  have cs: "sub_consistent db s" using old s by blast
  have pre: "bonus_of (payments db) (sub_id s) = [] \<and> bonus_amount s = 0 \<and> final_amount s = 0"
    using sub_consistent_before_final [OF cs pl] n lt by simp
  have other: "sub_consistent db' x" if x: "x \<in> set ?subs" "x \<noteq> s" for x
  proof -
    have "sub_id x \<noteq> sub_id s" using distinct_key_eq [OF dist x(1) s] x(2) by blast
    then have "\<forall>q \<in> set (p # bs). pay_sub q \<noteq> sub_id x" using p(1) bs_sub by auto
    then have "monthly_of (payments db') (sub_id x) = monthly_of (payments db) (sub_id x)"
      and "bonus_of (payments db') (sub_id x) = bonus_of (payments db) (sub_id x)"
      using pays' monthly_of_other bonus_of_other by (metis append.right_neutral monthly_of_append bonus_of_append)+
    with pl' have "sub_consistent db' x = sub_consistent db x" by (rule sub_consistent_cong)
    with old x(1) show ?thesis by blast
  qed
  have new: "sub_consistent db' (g s)"
  proof -
    have plan': "plan_of db' (g s) = Some pl" using pl pl' gplan by (simp add: plan_of_def)
    have mo: "monthly_of (payments db') (sub_id (g s)) = monthly_of (payments db) (sub_id s) @ [p]"
    proof -
      have "monthly_of bs (sub_id s) = []"
        using fin nfin by (cases "Suc n = payment_months pl") (auto simp: monthly_of_def)
      then show ?thesis using pays' p gid by (simp add: monthly_of_def)
    qed
    have bo: "bonus_of (payments db') (sub_id (g s)) = bs"
      using pays' p gid pre bs_sub fin nfin
      by (cases "Suc n = payment_months pl") (auto simp: bonus_of_def)
    obtain ms where ms_def: "monthly_of (payments db) (sub_id s) = ms" by simp
    have ms: "map month_number ms = [1..<n + 1]" "\<forall>q \<in> set ms. amount q = monthly_amount pl"
      "total_paid s = sum_list (map amount ms)" "length ms = n"
      using cs pl n ms_def by (simp_all add: sub_consistent_def Let_def)
    have h1: "map month_number (ms @ [p]) = [1..<length (ms @ [p]) + 1]"
      using ms(1,4) p(3) by simp
    have h2: "length (ms @ [p]) \<le> payment_months pl" "0 < length (ms @ [p])"
      using ms(4) lt by simp_all
    have h3: "\<forall>q \<in> set (ms @ [p]). amount q = monthly_amount pl"
      using ms(2) p(4) by simp
    have h4: "total_paid (g s) = sum_list (map amount (ms @ [p]))"
      using ms(3) gtot p(4) by simp
    have h5: "if 0 < length (ms @ [p]) \<and> length (ms @ [p]) = payment_months pl
              then map amount bs = [bonus_amount_rs] \<and> bonus_amount (g s) = bonus_amount_rs \<and>
                   final_amount (g s) = total_paid (g s) + bonus_amount_rs
              else bs = [] \<and> bonus_amount (g s) = 0 \<and> final_amount (g s) = 0"
      using fin nfin pre ms(4) by (cases "Suc n = payment_months pl") auto
    show ?thesis
      unfolding sub_consistent_def plan' mo bo ms_def Let_def option.case
      using h1 h2 h3 h4 h5 by (simp only: simp_thms)
  qed
  have "\<forall>x \<in> set (subscriptions db'). sub_id x < next_id db' \<and> sub_consistent db' x"
  proof
    fix x assume "x \<in> set (subscriptions db')"
    then have "x = g s \<or> (x \<in> set ?subs \<and> x \<noteq> s)" using set' by auto
    then show "sub_id x < next_id db' \<and> sub_consistent db' x"
    proof
      assume "x = g s"
      moreover have "sub_id s < next_id db" using old s by blast
      ultimately show ?thesis using new nid gid by simp
    next
      assume x: "x \<in> set ?subs \<and> x \<noteq> s"
      then have "sub_id x < next_id db" using old by blast
      then show ?thesis using other x nid by simp
    qed
  qed
  moreover have "\<forall>q \<in> set (payments db'). pay_sub q \<in> set (map sub_id (subscriptions db'))"
    using refs pays' p(1) bs_sub s ids by auto
  ultimately show ?thesis using dist ids by (simp add: ledger_inv_def)
qed

lemma make_payment_unchanged:
  "view = None \<or> profile = None \<or> (\<exists>s. view = Some (s, None)) \<Longrightarrow>
   snd (make_payment F profile view n db) = db"
  by (auto simp: make_payment_def split: option.splits)

lemma pay_month_view:
  "pay_month F u db =
     (case load_subscription db u of
        None \<Rightarrow> (NoSession, db)
      | Some (s, opl) \<Rightarrow> make_payment F (Some u) (Some (s, opl)) (length (monthly_of (payments db) (sub_id s))) db)"
  by (simp add: pay_month_def make_payment_def split: option.splits)

lemma ledger_inv_pay_month:
  assumes inv: "ledger_inv db" and F: "F \<inter> unsafe_writes = {}"
  shows "ledger_inv (snd (pay_month F u db))"
proof (cases "load_subscription db u")
  case None
  then show ?thesis using inv by (simp add: pay_month_view)
next
  case (Some v)
  then obtain s opl where v: "load_subscription db u = Some (s, opl)" by (cases v) auto
  have s: "s \<in> set (subscriptions db)" and opl: "opl = plan_of db s"
    using load_subscription_Some [OF v] by auto
  define n where "n = length (monthly_of (payments db) (sub_id s))"
  have pm: "pay_month F u db = make_payment F (Some u) (Some (s, opl)) n db"
    using v by (simp add: pay_month_view n_def)
  show ?thesis
  proof (cases "opl")
    case None
    then show ?thesis using inv pm by (simp add: make_payment_def)
  next
    case (Some pl)
    define rate where "rate = gold_rate_used (gold_rates db)"
    define gt where "gt = (\<lambda>x::subscription. x\<lparr>total_paid := total_paid s + monthly_amount pl\<rparr>)"
    define gb where "gb = (\<lambda>x::subscription. x\<lparr>bonus_amount := bonus_amount_rs,
                      final_amount := total_paid s + monthly_amount pl + bonus_amount_rs\<rparr>)"
    have pl: "plan_of db s = Some pl" using Some opl by simp
    show ?thesis
    proof (cases "payment_months pl < Suc n \<or> W_PaymentInsert \<in> F")
      case True
      then show ?thesis using inv pm Some
        by (auto simp: make_payment_def Let_def gold_credit_def)
    next
      case False
      then have lt: "n < payment_months pl" and wp: "W_PaymentInsert \<notin> F" by auto
      have wt: "W_SubTotal \<notin> F" and wb: "W_SubBonus \<notin> F" and wbp: "W_BonusPaymentInsert \<notin> F"
        using F by (auto simp: unsafe_writes_def)
      obtain db1 where g1: "gold_credit F (W_PaymentInsert, W_HoldingInsert, W_WalletGold) u (sub_id s)
          (monthly_amount pl) MonthlyPayment (Suc n) rate MonthlyPurchase db = Inr db1"
        using gold_credit_Inr_ex [OF wp] by blast
      note d1 = gold_credit_Inr [OF g1]
      let ?p = "payment_row (next_id db) u (sub_id s) (monthly_amount pl) MonthlyPayment (Suc n) rate"
      show ?thesis
      proof (cases "Suc n = payment_months pl")
        case True
        obtain db4 where g2: "gold_credit F (W_BonusPaymentInsert, W_BonusHoldingInsert, W_BonusWalletGold)
            u (sub_id s) bonus_amount_rs BonusPayment bonus_month rate BonusGold
            (set_sub (sub_id s) gb (set_sub (sub_id s) gt db1)) = Inr db4"
          using gold_credit_Inr_ex [OF wbp] by blast
        note d4 = gold_credit_Inr [OF g2]
        have res: "snd (pay_month F u db) = db4"
          using pm Some g1 g2 True wt wb lt unfolding make_payment_def rate_def gt_def gb_def
          by (simp add: Let_def)
        have subs4: "subscriptions db4 = update_where (\<lambda>x. sub_id x = sub_id s) (gb \<circ> gt) (subscriptions db)"
          using d4 d1 by (simp add: update_where_compose gt_def)
        show ?thesis unfolding res
          by (rule ledger_inv_pay_step [OF inv s pl n_def [symmetric] lt subs4,
                where p = ?p and bs = "[payment_row (next_id db1) u (sub_id s) bonus_amount_rs BonusPayment bonus_month rate]"])
             (use d1 d4 True in \<open>simp_all add: gt_def gb_def payment_row_def\<close>)
      next
        case False
        have res: "snd (pay_month F u db) = set_sub (sub_id s) gt db1"
          using pm Some g1 False wt lt unfolding make_payment_def rate_def gt_def
          by (simp add: Let_def)
        show ?thesis unfolding res
          by (rule ledger_inv_pay_step [OF inv s pl n_def [symmetric] lt, where g = gt and p = ?p and bs = "[]"])
             (use d1 False in \<open>simp_all add: gt_def payment_row_def\<close>)
      qed
    qed
  qed
qed

lemma ledger_inv_add_sub:
  assumes inv: "ledger_inv db" and sid: "sub_id s = next_id db"
    and zero: "total_paid s = 0" "bonus_amount s = 0" "final_amount s = 0"
    and pid: "sub_plan s \<in> set (map plan_id (plans db))"
  shows "ledger_inv (db\<lparr>subscriptions := subscriptions db @ [s], next_id := Suc (next_id db)\<rparr>)"
proof -
  have fresh: "next_id db \<notin> set (map sub_id (subscriptions db))"
    using inv by (auto simp: ledger_inv_def)
  have nopay: "\<forall>q \<in> set (payments db). pay_sub q \<noteq> next_id db"
  proof
    fix q assume "q \<in> set (payments db)"
    then have "pay_sub q \<in> set (map sub_id (subscriptions db))"
      using inv by (simp only: ledger_inv_def)
    then show "pay_sub q \<noteq> next_id db" using fresh by metis
  qed
  then have "monthly_of (payments db) (sub_id s) = []" "bonus_of (payments db) (sub_id s) = []"
    using sid by (simp_all add: monthly_of_other bonus_of_other)
  moreover have "plan_of db s \<noteq> None"
    using pid by (auto simp: plan_of_def find_None_iff)
  then obtain pl' where "plan_of db s = Some pl'" by blast
  ultimately have cs: "sub_consistent db s"
    using zero by (simp add: sub_consistent_def)
  let ?db' = "db\<lparr>subscriptions := subscriptions db @ [s], next_id := Suc (next_id db)\<rparr>"
  have eqc: "sub_consistent ?db' x = sub_consistent db x" for x
    by (rule sub_consistent_cong) simp_all
  show ?thesis
    using inv fresh sid cs unfolding ledger_inv_def eqc
    by (auto simp: less_Suc_eq)
qed

lemma ledger_inv_subscribe:
  assumes inv: "ledger_inv db"
  shows "ledger_inv (snd (subscribe_to_plan F profile shown pid today db))"
  using inv
  by (auto simp: subscribe_to_plan_def Let_def split: option.splits intro!: ledger_inv_add_sub)

lemma ledger_step_inv:
  "ledger_step G db db' \<Longrightarrow> G \<inter> unsafe_writes = {} \<Longrightarrow> ledger_inv db \<Longrightarrow> ledger_inv db'"
proof (induction rule: ledger_step.induct)
  case (subscribe F db u pid today)
  then show ?case by (simp add: ledger_inv_subscribe)
next
  case (pay F db u)
  then have "F \<inter> unsafe_writes = {}" by blast
  with pay.prems(2) show ?case by (simp add: ledger_inv_pay_month)
qed

lemma ledger_reach_inv:
  "ledger_reach G db0 db \<Longrightarrow> G \<inter> unsafe_writes = {} \<Longrightarrow> ledger_inv db0 \<Longrightarrow> ledger_inv db"
  by (induction rule: ledger_reach.induct) (auto intro: ledger_step_inv)

lemma ledger_inv_init: "ledger_inv (init_ledger ps rs ws)"
  by (simp add: ledger_inv_def init_ledger_def)

text \<open>C1: every reachable ledger state satisfies the ledger invariant (monthly payments numbered 1..n, total_paid equals their sum, bonus present exactly when the schedule is complete), provided the three non-ignored writes after the payment insert do not fail.\<close>

theorem ledger_inv_reachable:
  assumes "ledger_reach G (init_ledger ps rs ws) db" and "G \<inter> unsafe_writes = {}"
  shows "ledger_inv db"
  using ledger_reach_inv [OF assms ledger_inv_init] .

lemma make_payment_preserves:
  assumes gc: "\<And>ws u sid amt ty m hty d d'. ws \<in> payment_writes \<Longrightarrow>
      gold_credit F ws u sid amt ty m (gold_rate_used (gold_rates db)) hty d = Inr d' \<Longrightarrow> Q d \<Longrightarrow> Q d'"
    and ss: "\<And>sid f d. (\<And>x. sub_frame (f x) = sub_frame x) \<Longrightarrow> Q d \<Longrightarrow> Q (set_sub sid f d)"
    and q: "Q db"
  shows "Q (snd (make_payment F prof view n db))"
proof -
  have gc1: "Q d'" if "gold_credit F (W_PaymentInsert, W_HoldingInsert, W_WalletGold) u sid amt ty m
      (gold_rate_used (gold_rates db)) hty d = Inr d'" "Q d" for u sid amt ty m hty d d'
    using gc [OF _ that] by (simp add: payment_writes_def)
  have gc2: "Q d'" if "gold_credit F (W_BonusPaymentInsert, W_BonusHoldingInsert, W_BonusWalletGold) u sid amt ty m
      (gold_rate_used (gold_rates db)) hty d = Inr d'" "Q d" for u sid amt ty m hty d d'
    using gc [OF _ that] by (simp add: payment_writes_def)
  show ?thesis
    using q unfolding make_payment_def Let_def
    by (auto split: option.splits sum.splits dest!: gc1 gc2 intro!: ss simp: sub_frame_def)
qed

lemma subscribe_to_plan_frame:
  "payments (snd (subscribe_to_plan F prof shown pid today db)) = payments db \<and>
   gold_holdings (snd (subscribe_to_plan F prof shown pid today db)) = gold_holdings db \<and>
   wallets (snd (subscribe_to_plan F prof shown pid today db)) = wallets db \<and>
   gold_rates (snd (subscribe_to_plan F prof shown pid today db)) = gold_rates db \<and>
   plans (snd (subscribe_to_plan F prof shown pid today db)) = plans db \<and>
   (\<forall>x \<in> set (subscriptions (snd (subscribe_to_plan F prof shown pid today db))).
      x \<in> set (subscriptions db) \<or> status x = Active)"
  by (auto simp: subscribe_to_plan_def Let_def split: option.splits)

lemma pay_month_preserves:
  assumes "\<And>ws u sid amt ty m hty d d'. ws \<in> payment_writes \<Longrightarrow>
      gold_credit F ws u sid amt ty m (gold_rate_used (gold_rates db)) hty d = Inr d' \<Longrightarrow> Q d \<Longrightarrow> Q d'"
    and "\<And>sid f d. (\<And>x. sub_frame (f x) = sub_frame x) \<Longrightarrow> Q d \<Longrightarrow> Q (set_sub sid f d)"
    and "Q db"
  shows "Q (snd (pay_month F u db))"
  unfolding pay_month_def using make_payment_preserves [OF assms]
  by (simp split: option.splits prod.splits)

lemma ledger_reach_preserves:
  assumes "ledger_reach G db0 db" and "Q db0"
    and "\<And>d d'. ledger_step G d d' \<Longrightarrow> Q d \<Longrightarrow> Q d'"
  shows "Q db"
  using assms by (induction rule: ledger_reach.induct) auto

theorem ledger_payments_append_only:
  assumes "ledger_reach G db0 db"
  shows "\<exists>xs. payments db = payments db0 @ xs"
proof (rule ledger_reach_preserves [OF assms, where Q = "\<lambda>d. \<exists>xs. payments d = payments db0 @ xs"])
  fix d d' assume step: "ledger_step G d d'" and q: "\<exists>xs. payments d = payments db0 @ xs"
  from step q show "\<exists>xs. payments d' = payments db0 @ xs"
  proof (cases rule: ledger_step.cases)
    case (subscribe F u pid today)
    then show ?thesis using q subscribe_to_plan_frame by metis
  next
    case (pay F u)
    show ?thesis unfolding pay(1)
      by (rule pay_month_preserves [where Q = "\<lambda>d. \<exists>xs. payments d = payments db0 @ xs"])
         (use q in \<open>auto dest!: gold_credit_Inr(6)\<close>)
  qed
qed simp

text \<open>C20: every subscription of every reachable state has status Active; the code never marks a subscription completed.\<close>

theorem ledger_status_always_active:
  assumes "ledger_reach G (init_ledger ps rs ws) db"
  shows "\<forall>s \<in> set (subscriptions db). status s = Active"
proof (rule ledger_reach_preserves [OF assms, where Q = "\<lambda>d. \<forall>s \<in> set (subscriptions d). status s = Active"])
  fix d d' assume step: "ledger_step G d d'" and q: "\<forall>s \<in> set (subscriptions d). status s = Active"
  from step q show "\<forall>s \<in> set (subscriptions d'). status s = Active"
  proof (cases rule: ledger_step.cases)
    case (subscribe F u pid today)
    then show ?thesis using q subscribe_to_plan_frame by metis
  next
    case (pay F u)
    show ?thesis unfolding pay(1)
      by (rule pay_month_preserves [where Q = "\<lambda>d. \<forall>s \<in> set (subscriptions d). status s = Active"])
         (use q in \<open>auto dest: gold_credit_Inr(3) simp: set_update_where sub_frame_def\<close>)
  qed
qed (simp add: init_ledger_def)


lemma payment_row_sel [simp]:
  "pay_id (payment_row pid u sid amt ty m rate) = pid"
  "pay_user (payment_row pid u sid amt ty m rate) = u"
  "pay_sub (payment_row pid u sid amt ty m rate) = sid"
  "amount (payment_row pid u sid amt ty m rate) = amt"
  "payment_type (payment_row pid u sid amt ty m rate) = ty"
  "month_number (payment_row pid u sid amt ty m rate) = m"
  "pay_status (payment_row pid u sid amt ty m rate) = PaymentCompleted"
  "gold_rate (payment_row pid u sid amt ty m rate) = rate"
  "gold_milligrams (payment_row pid u sid amt ty m rate) = gold_mg amt rate"
  by (simp_all add: payment_row_def)

lemma holding_row_sel [simp]:
  "gh_payment (holding_row pid u sid amt rate hty) = pid"
  "gh_user (holding_row pid u sid amt rate hty) = u"
  "amount_paid (holding_row pid u sid amt rate hty) = amt"
  "gh_milligrams (holding_row pid u sid amt rate hty) = gold_mg amt rate"
  by (simp_all add: holding_row_def)

lemma payment_writes_cases:
  "ws \<in> payment_writes \<Longrightarrow> (ws = (W_PaymentInsert, W_HoldingInsert, W_WalletGold) \<Longrightarrow> P) \<Longrightarrow>
   (ws = (W_BonusPaymentInsert, W_BonusHoldingInsert, W_BonusWalletGold) \<Longrightarrow> P) \<Longrightarrow> P"
  by (auto simp: payment_writes_def)

text \<open>C21: when no holding insert fails, the gold holdings are in one-to-one correspondence with the payments (id, user, amount, milligrams).\<close>

theorem ledger_holdings_match:
  assumes "ledger_reach G (init_ledger ps rs ws) db" and "G \<inter> {W_HoldingInsert, W_BonusHoldingInsert} = {}"
  shows "holdings_match db"
proof (rule ledger_reach_preserves [OF assms(1), where Q = holdings_match])
  fix d d' assume step: "ledger_step G d d'" and q: "holdings_match d"
  from step q show "holdings_match d'"
  proof (cases rule: ledger_step.cases)
    case (subscribe F u pid today)
    then show ?thesis using q subscribe_to_plan_frame [of F "Some u" "load_plans d" pid today d]
      by (simp add: holdings_match_def)
  next
    case (pay F u)
    have wh: "W_HoldingInsert \<notin> F" "W_BonusHoldingInsert \<notin> F" using pay(2) assms(2) by auto
    show ?thesis unfolding pay(1)
    proof (rule pay_month_preserves [where Q = holdings_match])
      fix ws u sid amt ty m hty d1 d2
      assume ws: "ws \<in> payment_writes"
        and g: "gold_credit F ws u sid amt ty m (gold_rate_used (gold_rates d)) hty d1 = Inr d2"
        and q1: "holdings_match d1"
      obtain wp wh' ww where wsd: "ws = (wp, wh', ww)" by (cases ws) auto
      have "wh' \<notin> F" using ws wh wsd by (auto elim: payment_writes_cases)
      then show "holdings_match d2"
        using q1 gold_credit_Inr(6,7) [OF g [unfolded wsd]] by (simp add: holdings_match_def)
    qed (use q in \<open>simp_all add: holdings_match_def\<close>)
  qed
qed (simp add: init_ledger_def holdings_match_def)

theorem ledger_gold_rows:
  assumes "ledger_reach G (init_ledger ps rs ws) db"
  shows "gold_rows_ok db"
proof -
  let ?Q = "\<lambda>d. gold_rows_ok d \<and> gold_rates d = rs"
  have "?Q db"
  proof (rule ledger_reach_preserves [OF assms(1), where Q = ?Q])
    fix d d' assume step: "ledger_step G d d'" and q: "?Q d"
    from step q show "?Q d'"
    proof (cases rule: ledger_step.cases)
      case (subscribe F u pid today)
      then show ?thesis using q subscribe_to_plan_frame by (metis gold_rows_ok_def)
    next
      case (pay F u)
      show ?thesis unfolding pay(1)
      proof (rule pay_month_preserves [where Q = ?Q])
        fix ws u sid amt ty m hty d1 d2
        assume "ws \<in> payment_writes" and g: "gold_credit F ws u sid amt ty m (gold_rate_used (gold_rates d)) hty d1 = Inr d2"
          and "?Q d1"
        moreover obtain wp wh ww where "ws = (wp, wh, ww)" by (cases ws) auto
        ultimately show "?Q d2"
          using q gold_credit_Inr [of F wp wh ww] g
          by (auto simp: gold_rows_ok_def payment_row_def)
      qed (use q in \<open>simp_all add: gold_rows_ok_def\<close>)
    qed
  qed (simp add: init_ledger_def gold_rows_ok_def)
  then show ?thesis by simp
qed

lemma wallet_gold_ok_credit:
  assumes "wallet_gold_ok d"
  shows "wallet_gold_ok (d\<lparr>payments := payments d @ [p], wallets := add_gold_mg (pay_user p) (gold_milligrams p) (wallets d)\<rparr>)"
  using assms by (auto simp: wallet_gold_ok_def add_gold_mg_def split: option.splits if_splits)

text \<open>C22: when no wallet update fails, each wallet's gold balance equals the sum of the gold milligrams of its user's payments.\<close>

theorem ledger_wallet_gold:
  assumes "ledger_reach G (init_ledger ps rs ws) db"
    and "G \<inter> {W_WalletGold, W_BonusWalletGold} = {}"
    and "\<forall>u w. ws u = Some w \<longrightarrow> gold_balance_mg w = 0"
  shows "wallet_gold_ok db"
proof (rule ledger_reach_preserves [OF assms(1), where Q = wallet_gold_ok])
  fix d d' assume step: "ledger_step G d d'" and q: "wallet_gold_ok d"
  from step q show "wallet_gold_ok d'"
  proof (cases rule: ledger_step.cases)
    case (subscribe F u pid today)
    then show ?thesis using q subscribe_to_plan_frame by (metis wallet_gold_ok_def)
  next
    case (pay F u)
    have ww: "W_WalletGold \<notin> F" "W_BonusWalletGold \<notin> F" using pay(2) assms(2) by auto
    show ?thesis unfolding pay(1)
    proof (rule pay_month_preserves [where Q = wallet_gold_ok])
      fix ws u sid amt ty m hty d1 d2
      assume "ws \<in> payment_writes" and g: "gold_credit F ws u sid amt ty m (gold_rate_used (gold_rates d)) hty d1 = Inr d2"
        and q1: "wallet_gold_ok d1"
      obtain wp wh ww' where wsd: "ws = (wp, wh, ww')" by (cases ws) auto
      with \<open>ws \<in> payment_writes\<close> ww have "ww' \<notin> F" by (auto simp: payment_writes_def)
      then have "wallet_gold_ok (d1\<lparr>payments := payments d1 @ [payment_row (next_id d1) u sid amt ty m (gold_rate_used (gold_rates d))],
          wallets := add_gold_mg u (gold_mg amt (gold_rate_used (gold_rates d))) (wallets d1)\<rparr>)"
        using wallet_gold_ok_credit [OF q1, of "payment_row (next_id d1) u sid amt ty m (gold_rate_used (gold_rates d))"]
        by simp
      then show "wallet_gold_ok d2"
        using gold_credit_Inr(6,8) [OF g [unfolded wsd]] \<open>ww' \<notin> F\<close>
        by (simp add: wallet_gold_ok_def)
    qed (use q in \<open>simp_all add: wallet_gold_ok_def\<close>)
  qed
qed (use assms(3) in \<open>simp add: init_ledger_def wallet_gold_ok_def\<close>)

theorem pay_month_schedule_complete:
  assumes "load_subscription db u = Some (s, Some pl)"
    and "payment_months pl \<le> length (load_payments db (sub_id s))"
  shows "pay_month F u db = (AllPaid, db)"
  using assms by (simp add: pay_month_def make_payment_def)

text \<open>C3: a non-final monthly payment appends the month n+1 payment and its holding, credits (amount / rate) * 1000 mg of gold to the wallet and adds the monthly amount to total_paid.\<close>

theorem pay_month_regular:
  assumes "load_subscription db u = Some (s, Some pl)"
    and "length (load_payments db (sub_id s)) = n" and "Suc n < payment_months pl"
  shows "pay_month {} u db =
    (Paid (Suc n) (gold_mg (monthly_amount pl) (gold_rate_used (gold_rates db))),
     set_sub (sub_id s) (\<lambda>x. x\<lparr>total_paid := total_paid s + monthly_amount pl\<rparr>)
       (db\<lparr>payments := payments db @ [payment_row (next_id db) u (sub_id s) (monthly_amount pl)
                                      MonthlyPayment (Suc n) (gold_rate_used (gold_rates db))],
           next_id := Suc (next_id db),
           gold_holdings := gold_holdings db @ [holding_row (next_id db) u (sub_id s) (monthly_amount pl)
                                      (gold_rate_used (gold_rates db)) MonthlyPurchase],
           wallets := add_gold_mg u (gold_mg (monthly_amount pl) (gold_rate_used (gold_rates db))) (wallets db)\<rparr>))"
  using assms by (simp add: pay_month_def make_payment_def gold_credit_def Let_def)

text \<open>C10: two payments submitted from the same screen snapshot record the same month number twice and lose one total_paid increment.\<close>

theorem make_payment_double_submit:
  assumes "Suc n < payment_months pl"
    and "make_payment {} (Some u) (Some (s, Some pl)) n db = (o1, db1)"
    and "make_payment {} (Some u) (Some (s, Some pl)) n db1 = (o2, db2)"
  shows "o1 = o2 \<and>
    map month_number (monthly_of (payments db2) (sub_id s)) =
      map month_number (monthly_of (payments db) (sub_id s)) @ [Suc n, Suc n] \<and>
    (\<forall>x \<in> set (subscriptions db2). sub_id x = sub_id s \<longrightarrow> total_paid x = total_paid s + monthly_amount pl)"
  using assms
  by (auto simp: make_payment_def gold_credit_def Let_def set_sub_def monthly_of_def payment_row_def
                 update_where_def)

lemmas example_defs = example_plan_def short_plan_def example_rates_def example_wallets_def
  example_ledger_def example_subscribed_def init_ledger_def

lemmas ledger_eval = subscribe_to_plan_def load_plans_def pay_month_def make_payment_def
  load_subscription_def plan_of_def load_payments_def monthly_of_def gold_credit_def set_sub_def
  gold_rate_used_def latest_rate_def default_gold_rate_def gold_mg_def Let_def

text \<open>C4: the final scheduled payment also appends a bonus payment of 4500 with month number 12 and sets bonus_amount and final_amount = total_paid + 4500; the status field is not touched.\<close>

theorem pay_month_final:
  assumes "load_subscription db u = Some (s, Some pl)"
    and "length (load_payments db (sub_id s)) = n" and "Suc n = payment_months pl"
  shows "fst (pay_month {} u db) = Paid (Suc n) (gold_mg (monthly_amount pl) (gold_rate_used (gold_rates db))) \<and>
    payments (snd (pay_month {} u db)) = payments db @
      [payment_row (next_id db) u (sub_id s) (monthly_amount pl) MonthlyPayment (Suc n) (gold_rate_used (gold_rates db)),
       payment_row (Suc (next_id db)) u (sub_id s) bonus_amount_rs BonusPayment bonus_month (gold_rate_used (gold_rates db))] \<and>
    subscriptions (snd (pay_month {} u db)) = update_where (\<lambda>x. sub_id x = sub_id s)
      (\<lambda>x. x\<lparr>total_paid := total_paid s + monthly_amount pl, bonus_amount := bonus_amount_rs,
             final_amount := total_paid s + monthly_amount pl + bonus_amount_rs\<rparr>) (subscriptions db)"
  using assms
  by (simp add: pay_month_def make_payment_def gold_credit_def Let_def update_where_compose comp_def)

text \<open>C2: a failure of the total_paid update after a successful payment insert leaves the ledger inconsistent: the payment is recorded but total_paid is not increased.\<close>

theorem pay_month_total_fault_breaks_inv:
  assumes inv: "ledger_inv db" and v: "load_subscription db u = Some (s, Some pl)"
    and lt: "length (load_payments db (sub_id s)) < payment_months pl"
    and nz: "monthly_amount pl \<noteq> 0" and f: "W_SubTotal \<in> F" "W_PaymentInsert \<notin> F"
  shows "fst (pay_month F u db) = PayFailed W_SubTotal \<and> \<not> ledger_inv (snd (pay_month F u db))"
proof -
  have s: "s \<in> set (subscriptions db)" and pl: "plan_of db s = Some pl"
    using load_subscription_Some [OF v] by auto
  let ?n = "length (monthly_of (payments db) (sub_id s))"
  let ?r = "gold_rate_used (gold_rates db)"
  obtain db1 where g: "gold_credit F (W_PaymentInsert, W_HoldingInsert, W_WalletGold) u (sub_id s)
      (monthly_amount pl) MonthlyPayment (Suc ?n) ?r MonthlyPurchase db = Inr db1"
    using gold_credit_Inr_ex [OF f(2)] by blast
  note d1 = gold_credit_Inr [OF g]
  have res: "pay_month F u db = (PayFailed W_SubTotal, db1)"
    using v lt g f by (simp add: pay_month_def make_payment_def Let_def)
  have tot: "total_paid s = sum_list (map amount (monthly_of (payments db) (sub_id s)))"
    using inv s pl by (auto simp: ledger_inv_def sub_consistent_def Let_def)
  have "\<not> sub_consistent db1 s"
    using tot nz d1 pl by (simp add: sub_consistent_def Let_def plan_of_def monthly_of_def)
  moreover have "s \<in> set (subscriptions db1)" using s d1 by simp
  ultimately have "\<not> ledger_inv db1" by (auto simp: ledger_inv_def)
  then show ?thesis using res by simp
qed

lemma example_subscribed_p1:
  "load_subscription (example_subscribed ''p1'') 1 = Some (\<lparr>sub_id = 0, sub_user = 1, sub_plan = ''p1'',
     start_date = (2025, 0, 31), end_date = (2026, 0, 31), status = Active, total_paid = 0,
     bonus_amount = 0, final_amount = 0\<rparr>, Some example_plan)"
  by (simp add: example_defs ledger_eval js_add_months_def days_in_month_def leap_year_def)

theorem month_one_scenario:
  "fst (pay_month {} 1 (example_subscribed ''p1'')) = Paid 1 (2000 / 13) \<and>
   map_option gold_balance_mg (wallets (snd (pay_month {} 1 (example_subscribed ''p1''))) 1) = Some (2000 / 13)"
  by (simp add: example_defs ledger_eval add_gold_mg_def new_wallet_def)

theorem pay_month_total_fault_witness:
  "fst (pay_month {W_SubTotal} 1 (example_subscribed ''p1'')) = PayFailed W_SubTotal \<and>
   \<not> ledger_inv (snd (pay_month {W_SubTotal} 1 (example_subscribed ''p1'')))"
proof -
  have inv: "ledger_inv (example_subscribed ''p1'')"
    unfolding example_subscribed_def example_ledger_def
    by (intro ledger_inv_subscribe ledger_inv_init)
  show ?thesis
    by (rule pay_month_total_fault_breaks_inv [OF inv example_subscribed_p1])
       (simp_all add: example_defs ledger_eval)
qed

lemma example_run_reach:
  "ledger_reach {} (init_ledger [example_plan, short_plan] example_rates example_wallets)
     (snd (pay_month {} 1 (example_subscribed ''p1'')))"
  unfolding example_subscribed_def example_ledger_def
  by (rule ledger_reach.step [OF ledger_reach.step [OF ledger_reach.refl ledger_step.subscribe] ledger_step.pay]) simp_all

lemma example_subscribed_p2:
  "load_subscription (example_subscribed ''p2'') 1 = Some (\<lparr>sub_id = 0, sub_user = 1, sub_plan = ''p2'',
     start_date = (2025, 0, 31), end_date = (2025, 2, 3), status = Active, total_paid = 0,
     bonus_amount = 0, final_amount = 0\<rparr>, Some short_plan)"
  by (simp add: example_defs ledger_eval js_add_months_def days_in_month_def leap_year_def)

lemma example_completed_p2:
  "load_subscription (snd (pay_month {} 1 (example_subscribed ''p2''))) 1 = Some (\<lparr>sub_id = 0, sub_user = 1,
     sub_plan = ''p2'', start_date = (2025, 0, 31), end_date = (2025, 2, 3), status = Active, total_paid = 300,
     bonus_amount = 4500, final_amount = 4800\<rparr>, Some short_plan)"
  by (simp add: example_defs ledger_eval js_add_months_def days_in_month_def leap_year_def bonus_amount_rs_def)

theorem ledger_payments_append_only_witness:
  "ledger_reach {} (init_ledger [example_plan, short_plan] example_rates example_wallets)
     (snd (pay_month {} 1 (example_subscribed ''p1''))) \<and>
   (\<exists>xs. payments (snd (pay_month {} 1 (example_subscribed ''p1''))) =
      payments (init_ledger [example_plan, short_plan] example_rates example_wallets) @ xs)"
  using example_run_reach ledger_payments_append_only [OF example_run_reach] by simp

theorem ledger_status_always_active_witness:
  "ledger_reach {} (init_ledger [example_plan, short_plan] example_rates example_wallets)
     (snd (pay_month {} 1 (example_subscribed ''p1''))) \<and>
   map status (subscriptions (snd (pay_month {} 1 (example_subscribed ''p1'')))) = [Active]"
proof -
  have one: "length (subscriptions (snd (pay_month {} 1 (example_subscribed ''p1'')))) = 1"
    by (simp add: example_defs ledger_eval)
  then obtain x where x: "subscriptions (snd (pay_month {} 1 (example_subscribed ''p1''))) = [x]"
    by (metis One_nat_def length_0_conv length_Suc_conv)
  show ?thesis using example_run_reach ledger_status_always_active [OF example_run_reach] x by simp
qed

theorem ledger_holdings_match_witness:
  "ledger_reach {} (init_ledger [example_plan, short_plan] example_rates example_wallets)
     (snd (pay_month {} 1 (example_subscribed ''p1''))) \<and> {} \<inter> {W_HoldingInsert, W_BonusHoldingInsert} = {} \<and>
   holdings_match (snd (pay_month {} 1 (example_subscribed ''p1'')))"
  using example_run_reach ledger_holdings_match [OF example_run_reach] by simp

theorem ledger_gold_rows_witness:
  "ledger_reach {} (init_ledger [example_plan, short_plan] example_rates example_wallets)
     (snd (pay_month {} 1 (example_subscribed ''p1''))) \<and>
   gold_rows_ok (snd (pay_month {} 1 (example_subscribed ''p1'')))"
  using example_run_reach ledger_gold_rows [OF example_run_reach] by simp

theorem ledger_wallet_gold_witness:
  "ledger_reach {} (init_ledger [example_plan, short_plan] example_rates example_wallets)
     (snd (pay_month {} 1 (example_subscribed ''p1''))) \<and> {} \<inter> {W_WalletGold, W_BonusWalletGold} = {} \<and>
   example_wallets 1 = Some new_wallet \<and> gold_balance_mg new_wallet = 0 \<and>
   wallet_gold_ok (snd (pay_month {} 1 (example_subscribed ''p1'')))"
proof -
  have z: "\<forall>u w. example_wallets u = Some w \<longrightarrow> gold_balance_mg w = 0"
    by (simp add: example_wallets_def new_wallet_def)
  show ?thesis using example_run_reach ledger_wallet_gold [OF example_run_reach _ z]
    by (simp add: example_wallets_def new_wallet_def)
qed

lemma example_subscribed_state:
  "gold_rate_used (gold_rates (example_subscribed pid)) = 6500 \<and> payments (example_subscribed pid) = [] \<and>
   next_id (example_subscribed ''p1'') = 1 \<and> next_id (example_subscribed ''p2'') = 1"
  by (simp add: example_defs ledger_eval)

theorem pay_month_regular_witness:
  "load_subscription (example_subscribed ''p1'') 1 = Some (\<lparr>sub_id = 0, sub_user = 1, sub_plan = ''p1'',
     start_date = (2025, 0, 31), end_date = (2026, 0, 31), status = Active, total_paid = 0,
     bonus_amount = 0, final_amount = 0\<rparr>, Some example_plan) \<and>
   length (load_payments (example_subscribed ''p1'') 0) = 0 \<and> Suc 0 < payment_months example_plan \<and>
   fst (pay_month {} 1 (example_subscribed ''p1'')) = Paid 1 (2000 / 13) \<and>
   payments (snd (pay_month {} 1 (example_subscribed ''p1''))) =
     [payment_row 1 1 0 1000 MonthlyPayment 1 6500]"
proof -
  have n: "length (load_payments (example_subscribed ''p1'') 0) = 0"
    using example_subscribed_state by (simp add: load_payments_def monthly_of_def)
  have lt: "Suc 0 < payment_months example_plan" by (simp add: example_plan_def)
  show ?thesis using example_subscribed_p1 n lt pay_month_regular [OF example_subscribed_p1, of 0]
    example_subscribed_state
    by (simp add: example_plan_def gold_mg_def)
qed

theorem make_payment_double_submit_witness:
  "Suc 0 < payment_months example_plan \<and>
   map month_number (monthly_of (payments (snd (make_payment {} (Some 1) (Some (\<lparr>sub_id = 0, sub_user = 1,
     sub_plan = ''p1'', start_date = (2025, 0, 31), end_date = (2026, 0, 31), status = Active, total_paid = 0,
     bonus_amount = 0, final_amount = 0\<rparr>, Some example_plan)) 0
     (snd (make_payment {} (Some 1) (Some (\<lparr>sub_id = 0, sub_user = 1,
     sub_plan = ''p1'', start_date = (2025, 0, 31), end_date = (2026, 0, 31), status = Active, total_paid = 0,
     bonus_amount = 0, final_amount = 0\<rparr>, Some example_plan)) 0 (example_subscribed ''p1'')))))) 0) = [1, 1]"
proof -
  have lt: "Suc 0 < payment_months example_plan" by (simp add: example_plan_def)
  have m0: "monthly_of (payments (example_subscribed ''p1'')) 0 = []"
    by (simp add: example_defs ledger_eval)
  let ?V = "Some (\<lparr>sub_id = 0, sub_user = 1,
     sub_plan = ''p1'', start_date = (2025, 0, 31), end_date = (2026, 0, 31), status = Active, total_paid = 0,
     bonus_amount = 0, final_amount = 0\<rparr>, Some example_plan)"
  obtain o1 d1 where e1: "make_payment {} (Some 1) ?V 0 (example_subscribed ''p1'') = (o1, d1)"
    by (cases "make_payment {} (Some 1) ?V 0 (example_subscribed ''p1'')")
  obtain o2 d2 where e2: "make_payment {} (Some 1) ?V 0 d1 = (o2, d2)"
    by (cases "make_payment {} (Some 1) ?V 0 d1")
  note d = make_payment_double_submit [OF lt e1 e2]
  show ?thesis using lt d m0 e1 e2 by simp
qed

theorem pay_month_final_witness:
  "load_subscription (example_subscribed ''p2'') 1 = Some (\<lparr>sub_id = 0, sub_user = 1, sub_plan = ''p2'',
     start_date = (2025, 0, 31), end_date = (2025, 2, 3), status = Active, total_paid = 0,
     bonus_amount = 0, final_amount = 0\<rparr>, Some short_plan) \<and>
   length (load_payments (example_subscribed ''p2'') 0) = 0 \<and> Suc 0 = payment_months short_plan \<and>
   map payment_type (payments (snd (pay_month {} 1 (example_subscribed ''p2'')))) = [MonthlyPayment, BonusPayment] \<and>
   map status (subscriptions (snd (pay_month {} 1 (example_subscribed ''p2'')))) = [Active]"
proof -
  have n: "length (load_payments (example_subscribed ''p2'') 0) = 0"
    by (simp add: example_defs ledger_eval)
  have eq: "Suc 0 = payment_months short_plan" by (simp add: short_plan_def)
  note r = pay_month_final [OF example_subscribed_p2, of 0]
  have sub: "subscriptions (example_subscribed ''p2'') = [\<lparr>sub_id = 0, sub_user = 1, sub_plan = ''p2'',
     start_date = (2025, 0, 31), end_date = (2025, 2, 3), status = Active, total_paid = 0,
     bonus_amount = 0, final_amount = 0\<rparr>]"
    by (simp add: example_defs ledger_eval js_add_months_def days_in_month_def leap_year_def)
  show ?thesis using example_subscribed_p2 n eq r sub example_subscribed_state by simp
qed

theorem pay_month_schedule_complete_witness:
  "load_subscription (snd (pay_month {} 1 (example_subscribed ''p2''))) 1 = Some (\<lparr>sub_id = 0, sub_user = 1,
     sub_plan = ''p2'', start_date = (2025, 0, 31), end_date = (2025, 2, 3), status = Active, total_paid = 300,
     bonus_amount = 4500, final_amount = 4800\<rparr>, Some short_plan) \<and>
   payment_months short_plan \<le> length (load_payments (snd (pay_month {} 1 (example_subscribed ''p2''))) 0) \<and>
   pay_month {} 1 (snd (pay_month {} 1 (example_subscribed ''p2''))) = (AllPaid, snd (pay_month {} 1 (example_subscribed ''p2'')))"
proof -
  have le: "payment_months short_plan \<le> length (load_payments (snd (pay_month {} 1 (example_subscribed ''p2''))) 0)"
    by (simp add: example_defs ledger_eval)
  have r: "pay_month {} 1 (snd (pay_month {} 1 (example_subscribed ''p2''))) = (AllPaid, snd (pay_month {} 1 (example_subscribed ''p2'')))"
    by (rule pay_month_schedule_complete [OF example_completed_p2]) (use le in simp)
  show ?thesis using example_completed_p2 le r by simp
qed

theorem ledger_inv_reachable_witness:
  "ledger_reach {} (init_ledger [example_plan, short_plan] example_rates example_wallets)
     (snd (pay_month {} 1 (example_subscribed ''p1''))) \<and> {} \<inter> unsafe_writes = {} \<and>
   ledger_inv (snd (pay_month {} 1 (example_subscribed ''p1'')))"
  using example_run_reach ledger_inv_reachable [OF example_run_reach] by simp

end
