(* ===== verification/Referral.thy ===== *)
theory Referral
  imports Prelude
begin

text \<open>
  The referral graph (spec section 4.3).  The sources only read it: the table
  \<open>referral_tree (user_id, referred_user_id, level)\<close> is filled by database code that is
  not part of the repository, from the \<open>referred_by\<close> column that registration writes
  (\<open>src/app/auth/register.tsx\<close>).  The graph is therefore modelled from the spec: the
  users, each user's direct referrer (\<open>referrer\<close>, the \<open>referred_by\<close> column) and the edge
  table.  Registering a user with a referrer inserts the direct edge and, for every edge
  of the referrer at a level below the cap, an edge one level deeper; the cascade stops at
  the cap instead of failing.  The invariant says that the edge table is exactly the
  ancestor relation of the referrer map truncated at the cap, and that the referrer map has
  no cycle.
\<close>

record ref_edge =
  edge_user :: uid
  edge_referred :: uid
  edge_level :: nat

record ref_graph =
  ref_users :: "uid list"
  referrer :: "uid \<rightharpoonup> uid"
  ref_edges :: "ref_edge list"

datatype referral_error = InvalidReferrer

definition referral_cap :: nat where
  "referral_cap = 10"

definition empty_graph :: ref_graph where
  "empty_graph = \<lparr>ref_users = [], referrer = Map.empty, ref_edges = []\<rparr>"

definition cascade_edges :: "uid \<Rightarrow> uid \<Rightarrow> ref_edge list \<Rightarrow> ref_edge list" where
  "cascade_edges new a es =
     \<lparr>edge_user = a, edge_referred = new, edge_level = 1\<rparr> #
     map (\<lambda>e. \<lparr>edge_user = edge_user e, edge_referred = new, edge_level = Suc (edge_level e)\<rparr>)
       (filter (\<lambda>e. edge_referred e = a \<and> edge_level e < referral_cap) es)"

definition register_referral :: "uid \<Rightarrow> uid option \<Rightarrow> ref_graph \<Rightarrow> referral_error + ref_graph" where
  "register_referral new r g =
     (case r of
        None \<Rightarrow> Inr (g\<lparr>ref_users := ref_users g @ [new]\<rparr>)
      | Some a \<Rightarrow>
          (if a \<notin> set (ref_users g) then Inl InvalidReferrer
           else Inr \<lparr>ref_users = ref_users g @ [new], referrer = (referrer g)(new \<mapsto> a),
                     ref_edges = ref_edges g @ cascade_edges new a (ref_edges g)\<rparr>))"

definition ancestors_of :: "ref_graph \<Rightarrow> uid \<Rightarrow> (uid \<times> nat) list" where
  "ancestors_of g u =
     map (\<lambda>e. (edge_user e, edge_level e)) (sort_key edge_level (filter (\<lambda>e. edge_referred e = u) (ref_edges g)))"

primrec kth_referrer :: "(uid \<rightharpoonup> uid) \<Rightarrow> nat \<Rightarrow> uid \<Rightarrow> uid option" where
  "kth_referrer par 0 u = Some u"
| "kth_referrer par (Suc k) u = (case par u of None \<Rightarrow> None | Some p \<Rightarrow> kth_referrer par k p)"

definition chain_of :: "(uid \<rightharpoonup> uid) \<Rightarrow> uid \<Rightarrow> (uid \<times> nat) list" where
  "chain_of par u =
     map (\<lambda>k. (the (kth_referrer par k u), k)) (filter (\<lambda>k. kth_referrer par k u \<noteq> None) [1..<Suc referral_cap])"

definition edge_ok :: "(uid \<rightharpoonup> uid) \<Rightarrow> ref_edge \<Rightarrow> bool" where
  "edge_ok par e \<longleftrightarrow>
     1 \<le> edge_level e \<and> edge_level e \<le> referral_cap \<and>
     kth_referrer par (edge_level e) (edge_referred e) = Some (edge_user e)"

definition referrer_closed :: "(uid \<rightharpoonup> uid) \<Rightarrow> uid list \<Rightarrow> bool" where
  "referrer_closed par us \<longleftrightarrow> (\<forall>u p. par u = Some p \<longrightarrow> u \<in> set us \<and> p \<in> set us)"

definition ref_inv :: "ref_graph \<Rightarrow> bool" where
  "ref_inv g \<longleftrightarrow>
     referrer_closed (referrer g) (ref_users g) \<and> distinct (ref_users g) \<and>
     (\<forall>u k. 0 < k \<longrightarrow> kth_referrer (referrer g) k u \<noteq> Some u) \<and>
     (\<forall>e. e \<in> set (ref_edges g) \<longleftrightarrow> edge_ok (referrer g) e) \<and>
     distinct (ref_edges g)"

inductive ref_reach :: "ref_graph \<Rightarrow> bool" where
  ref_init: "ref_reach empty_graph"
| ref_register: "ref_reach g \<Longrightarrow> new \<notin> set (ref_users g) \<Longrightarrow>
    register_referral new r g = Inr g' \<Longrightarrow> ref_reach g'"

definition example_graph :: ref_graph where
  \<comment> \<open>user 1 registers alone, user 2 with referrer 1, user 3 with referrer 2\<close>
  "example_graph =
     projr (register_referral 3 (Some 2) (projr (register_referral 2 (Some 1)
       (projr (register_referral 1 None empty_graph)))))"

lemma ref_edge_eta [simp]:
  "\<lparr>edge_user = edge_user x, edge_referred = edge_referred x, edge_level = edge_level x\<rparr> = x"
  by (cases x) simp

lemma kth_referrer_closed:
  "referrer_closed par us \<Longrightarrow> u \<in> set us \<Longrightarrow> kth_referrer par k u = Some x \<Longrightarrow> x \<in> set us"
  by (induction k arbitrary: u) (auto simp: referrer_closed_def split: option.splits)

lemma kth_referrer_outside:
  "referrer_closed par us \<Longrightarrow> u \<notin> set us \<Longrightarrow> kth_referrer par (Suc k) u = None"
  by (auto simp: referrer_closed_def split: option.splits)

lemma kth_referrer_upd_other:
  assumes "referrer_closed par us" "new \<notin> set us" "u \<noteq> new"
  shows "kth_referrer (par(new \<mapsto> a)) k u = kth_referrer par k u"
  using assms(3)
proof (induction k arbitrary: u)
  case (Suc k)
  show ?case
  proof (cases "par u")
    case (Some p)
    then have "p \<noteq> new" using assms(1,2) by (auto simp: referrer_closed_def)
    then show ?thesis using Some Suc by simp
  qed (use Suc in simp)
qed simp

lemma kth_referrer_upd_new:
  assumes "referrer_closed par us" "new \<notin> set us" "a \<in> set us"
  shows "kth_referrer (par(new \<mapsto> a)) (Suc k) new = kth_referrer par k a"
proof -
  have "a \<noteq> new" using assms by auto
  then show ?thesis using kth_referrer_upd_other [OF assms(1,2)] by simp
qed

lemma edge_ok_level_pos: "edge_ok par e \<Longrightarrow> edge_level e = Suc (edge_level e - 1)"
  by (simp add: edge_ok_def)

lemma edge_ok_upd_other:
  assumes "referrer_closed par us" "new \<notin> set us" "edge_referred e \<noteq> new"
  shows "edge_ok (par(new \<mapsto> a)) e = edge_ok par e"
  using kth_referrer_upd_other [OF assms] by (simp add: edge_ok_def)

lemma edge_ok_outside:
  assumes "referrer_closed par us" "edge_referred e \<notin> set us"
  shows "\<not> edge_ok par e"
proof
  assume ok: "edge_ok par e"
  then have "kth_referrer par (Suc (edge_level e - 1)) (edge_referred e) = Some (edge_user e)"
    by (simp add: edge_ok_def)
  then show False using kth_referrer_outside [OF assms] by simp
qed

lemma edge_ok_upd_new:
  assumes "referrer_closed par us" "new \<notin> set us" "a \<in> set us"
    and es: "\<forall>e. e \<in> set es \<longleftrightarrow> edge_ok par e" and that: "edge_referred e = new"
  shows "edge_ok (par(new \<mapsto> a)) e \<longleftrightarrow> e \<in> set (cascade_edges new a es)"
proof (cases "edge_level e")
  case 0
  then show ?thesis using that by (cases e) (auto simp: edge_ok_def cascade_edges_def)
next
  case (Suc j)
  have kth: "kth_referrer (par(new \<mapsto> a)) (edge_level e) new = kth_referrer par j a"
    using Suc kth_referrer_upd_new [OF assms(1-3)] by simp
  show ?thesis
  proof (cases j)
    case 0
    then show ?thesis using Suc kth that es
      by (cases e) (auto simp: edge_ok_def cascade_edges_def referral_cap_def)
  next
    case (Suc i)
    let ?e = "\<lparr>edge_user = edge_user e, edge_referred = a, edge_level = j\<rparr>"
    have "edge_ok (par(new \<mapsto> a)) e \<longleftrightarrow> ?e \<in> set es \<and> j < referral_cap"
      using es \<open>edge_level e = Suc j\<close> Suc kth that by (auto simp: edge_ok_def)
    also have "\<dots> \<longleftrightarrow> e \<in> set (cascade_edges new a es)"
    proof
      assume "?e \<in> set es \<and> j < referral_cap"
      moreover have "e = \<lparr>edge_user = edge_user ?e, edge_referred = new, edge_level = Suc (edge_level ?e)\<rparr>"
        using \<open>edge_level e = Suc j\<close> that by (cases e) simp
      ultimately show "e \<in> set (cascade_edges new a es)"
        unfolding cascade_edges_def by (intro list.set_intros(2)) force
    next
      assume "e \<in> set (cascade_edges new a es)"
      then obtain x where "x \<in> set es" "edge_referred x = a" "edge_level x < referral_cap"
          "e = \<lparr>edge_user = edge_user x, edge_referred = new, edge_level = Suc (edge_level x)\<rparr>"
        using \<open>edge_level e = Suc j\<close> Suc by (auto simp: cascade_edges_def)
      moreover have "?e = x"
        using \<open>edge_level e = Suc j\<close> \<open>edge_referred x = a\<close> \<open>e = _\<close> by simp
      ultimately show "?e \<in> set es \<and> j < referral_cap"
        using \<open>edge_level e = Suc j\<close> by auto
    qed
    finally show ?thesis .
  qed
qed

lemma cascade_edges_referred: "e \<in> set (cascade_edges new a es) \<Longrightarrow> edge_referred e = new"
  by (auto simp: cascade_edges_def)

lemma distinct_cascade_edges:
  assumes "distinct es" "\<forall>e \<in> set es. 1 \<le> edge_level e"
  shows "distinct (cascade_edges new a es)"
proof -
  let ?f = "\<lambda>e. \<lparr>edge_user = edge_user e, edge_referred = new, edge_level = Suc (edge_level e)\<rparr>"
  let ?P = "\<lambda>e. edge_referred e = a \<and> edge_level e < referral_cap"
  have "inj_on ?f (set (filter ?P es))"
  proof (rule inj_onI)
    fix x y assume "x \<in> set (filter ?P es)" "y \<in> set (filter ?P es)" "?f x = ?f y"
    moreover have "edge_referred x = edge_referred y" using calculation(1,2) by simp
    ultimately show "x = y" by (intro ref_edge.equality) simp_all
  qed
  then show ?thesis using assms by (auto simp: cascade_edges_def distinct_map)
qed

lemma ref_inv_register_some:
  assumes inv: "ref_inv g" and fresh: "new \<notin> set (ref_users g)" and a: "a \<in> set (ref_users g)"
  shows "ref_inv \<lparr>ref_users = ref_users g @ [new], referrer = (referrer g)(new \<mapsto> a),
                  ref_edges = ref_edges g @ cascade_edges new a (ref_edges g)\<rparr>"
proof -
  let ?par = "referrer g" and ?us = "ref_users g" and ?es = "ref_edges g"
  have cl: "referrer_closed ?par ?us" and acyc: "\<forall>u k. 0 < k \<longrightarrow> kth_referrer ?par k u \<noteq> Some u"
    and ex: "\<forall>e. e \<in> set ?es \<longleftrightarrow> edge_ok ?par e" and d: "distinct ?es" "distinct ?us"
    using inv by (auto simp: ref_inv_def)
  have old_ref: "edge_referred e \<noteq> new" if "e \<in> set ?es" for e
    using that ex edge_ok_outside [OF cl, of e] fresh by auto
  have cl': "referrer_closed (?par(new \<mapsto> a)) (?us @ [new])"
    using cl a by (auto simp: referrer_closed_def)
  have acyc': "kth_referrer (?par(new \<mapsto> a)) k u \<noteq> Some u" if "0 < k" for u k
  proof (cases "u = new")
    case True
    then obtain j where k: "k = Suc j" using \<open>0 < k\<close> by (cases k) auto
    show ?thesis
    proof
      assume "kth_referrer (?par(new \<mapsto> a)) k u = Some u"
      then have "kth_referrer ?par j a = Some new"
        using True k kth_referrer_upd_new [OF cl fresh a] by simp
      then show False using kth_referrer_closed [OF cl a] fresh by blast
    qed
  next
    case False
    then show ?thesis using acyc that kth_referrer_upd_other [OF cl fresh False] by simp
  qed
  have ex': "e \<in> set (?es @ cascade_edges new a ?es) \<longleftrightarrow> edge_ok (?par(new \<mapsto> a)) e" for e
  proof (cases "edge_referred e = new")
    case True
    then show ?thesis
      using edge_ok_upd_new [OF cl fresh a ex True] old_ref by auto
  next
    case False
    then show ?thesis
      using edge_ok_upd_other [OF cl fresh False] ex cascade_edges_referred by auto
  qed
  have "\<forall>e \<in> set ?es. 1 \<le> edge_level e" using ex by (simp add: edge_ok_def)
  then have "distinct (?es @ cascade_edges new a ?es)"
    using d distinct_cascade_edges old_ref cascade_edges_referred by fastforce
  then show ?thesis
    using cl' acyc' ex' d fresh by (simp add: ref_inv_def)
qed

lemma ref_inv_register:
  assumes "ref_inv g" "new \<notin> set (ref_users g)" "register_referral new r g = Inr g'"
  shows "ref_inv g'"
proof (cases r)
  case None
  then have "g' = g\<lparr>ref_users := ref_users g @ [new]\<rparr>"
    using assms(3) by (simp add: register_referral_def)
  then show ?thesis
    using assms(1,2) by (auto simp: ref_inv_def referrer_closed_def)
next
  case (Some a)
  then show ?thesis
    using assms ref_inv_register_some [OF assms(1,2)]
    by (auto simp: register_referral_def split: if_splits)
qed

lemma kth_referrer_empty: "0 < k \<Longrightarrow> kth_referrer Map.empty k u = None"
  by (cases k) simp_all

lemma ref_inv_empty: "ref_inv empty_graph"
  by (simp add: ref_inv_def empty_graph_def referrer_closed_def edge_ok_def kth_referrer_empty)

lemma ref_reach_inv: "ref_reach g \<Longrightarrow> ref_inv g"
  by (induction rule: ref_reach.induct) (auto intro: ref_inv_empty ref_inv_register)

lemma ref_inv_edge_levels_distinct:
  assumes "ref_inv g"
  shows "distinct (map edge_level (filter (\<lambda>e. edge_referred e = u) (ref_edges g)))"
proof -
  let ?F = "filter (\<lambda>e. edge_referred e = u) (ref_edges g)"
  have ex: "\<forall>e. e \<in> set (ref_edges g) \<longleftrightarrow> edge_ok (referrer g) e" and d: "distinct (ref_edges g)"
    using assms by (auto simp: ref_inv_def)
  have "inj_on edge_level (set ?F)"
  proof (rule inj_onI)
    fix x y assume xy: "x \<in> set ?F" "y \<in> set ?F" "edge_level x = edge_level y"
    then have "edge_user x = edge_user y" using ex by (auto simp: edge_ok_def)
    then show "x = y" using xy by (intro ref_edge.equality) simp_all
  qed
  then show ?thesis using d by (simp add: distinct_map)
qed

lemma ancestors_of_levels:
  assumes "ref_inv g"
  shows "map snd (ancestors_of g u) = filter (\<lambda>k. kth_referrer (referrer g) k u \<noteq> None) [1..<Suc referral_cap]"
proof -
  let ?F = "filter (\<lambda>e. edge_referred e = u) (ref_edges g)"
  have ex: "\<forall>e. e \<in> set (ref_edges g) \<longleftrightarrow> edge_ok (referrer g) e"
    using assms by (auto simp: ref_inv_def)
  have lhs: "map snd (ancestors_of g u) = map edge_level (sort_key edge_level ?F)"
    by (simp add: ancestors_of_def comp_def)
  have "distinct (map edge_level (sort_key edge_level ?F))"
    using ref_inv_edge_levels_distinct [OF assms] by (metis distinct_map distinct_sort set_sort)
  moreover have "set (map edge_level (sort_key edge_level ?F)) =
      set (filter (\<lambda>k. kth_referrer (referrer g) k u \<noteq> None) [1..<Suc referral_cap])"
  proof -
    have "k \<in> edge_level ` set ?F \<longleftrightarrow> 1 \<le> k \<and> k \<le> referral_cap \<and> kth_referrer (referrer g) k u \<noteq> None" for k
    proof
      assume "k \<in> edge_level ` set ?F"
      then show "1 \<le> k \<and> k \<le> referral_cap \<and> kth_referrer (referrer g) k u \<noteq> None"
        using ex by (auto simp: edge_ok_def)
    next
      assume k: "1 \<le> k \<and> k \<le> referral_cap \<and> kth_referrer (referrer g) k u \<noteq> None"
      then obtain x where "kth_referrer (referrer g) k u = Some x" by auto
      then have "\<lparr>edge_user = x, edge_referred = u, edge_level = k\<rparr> \<in> set ?F"
        using ex k by (simp add: edge_ok_def)
      then show "k \<in> edge_level ` set ?F" by force
    qed
    moreover have "set (filter (\<lambda>k. kth_referrer (referrer g) k u \<noteq> None) [1..<Suc referral_cap]) =
        {k. 1 \<le> k \<and> k \<le> referral_cap \<and> kth_referrer (referrer g) k u \<noteq> None}"
      by auto
    moreover have "set (map edge_level (sort_key edge_level ?F)) = edge_level ` set ?F"
      by (simp only: set_map set_sort)
    ultimately show ?thesis by (simp only: set_eq_iff mem_Collect_eq simp_thms)
  qed
  moreover have "sorted (filter (\<lambda>k. kth_referrer (referrer g) k u \<noteq> None) [1..<Suc referral_cap])"
    by (rule sorted_wrt_filter) (rule sorted_upt)
  moreover have "distinct (filter (\<lambda>k. kth_referrer (referrer g) k u \<noteq> None) [1..<Suc referral_cap])"
    by (rule distinct_filter) (rule distinct_upt)
  moreover have "sorted (map edge_level (sort_key edge_level ?F))"
    by (rule sorted_sort_key)
  ultimately show ?thesis
    unfolding lhs by (metis sorted_distinct_set_unique)
qed

lemma ancestors_of_members:
  "ref_inv g \<Longrightarrow> p \<in> set (ancestors_of g u) \<Longrightarrow> fst p = the (kth_referrer (referrer g) (snd p) u)"
  by (auto simp: ancestors_of_def ref_inv_def edge_ok_def)

lemma chain_of_levels:
  "map snd (chain_of par u) = filter (\<lambda>k. kth_referrer par k u \<noteq> None) [1..<Suc referral_cap]"
  by (simp add: chain_of_def comp_def)

lemma ancestors_of_eq_chain:
  assumes "ref_inv g"
  shows "ancestors_of g u = chain_of (referrer g) u"
proof (rule list_eq_by_snd [where g = "\<lambda>k. the (kth_referrer (referrer g) k u)"])
  show "map snd (ancestors_of g u) = map snd (chain_of (referrer g) u)"
    by (simp only: ancestors_of_levels [OF assms] chain_of_levels)
  show "\<forall>p \<in> set (ancestors_of g u). fst p = the (kth_referrer (referrer g) (snd p) u)"
    using ancestors_of_members [OF assms] by blast
  show "\<forall>p \<in> set (chain_of (referrer g) u). fst p = the (kth_referrer (referrer g) (snd p) u)"
    by (auto simp: chain_of_def)
qed

lemma ref_reach_projr:
  assumes "ref_reach g" "new \<notin> set (ref_users g)" "case r of None \<Rightarrow> True | Some a \<Rightarrow> a \<in> set (ref_users g)"
  shows "ref_reach (projr (register_referral new r g))"
proof -
  have "register_referral new r g = Inr (projr (register_referral new r g))"
    using assms(3) by (cases r) (simp_all add: register_referral_def)
  then show ?thesis using ref_register [OF assms(1,2)] by blast
qed

lemma example_graph_reach: "ref_reach example_graph"
proof -
  let ?g1 = "projr (register_referral 1 None empty_graph)"
  let ?g2 = "projr (register_referral 2 (Some 1) ?g1)"
  have r1: "register_referral 1 None empty_graph = Inr ?g1"
    by (simp add: register_referral_def empty_graph_def)
  have r2: "register_referral 2 (Some 1) ?g1 = Inr ?g2"
    by (simp add: register_referral_def empty_graph_def)
  have r3: "register_referral 3 (Some 2) ?g2 = Inr example_graph"
    by (simp add: register_referral_def empty_graph_def example_graph_def)
  have g1: "ref_reach ?g1" by (rule ref_register [OF ref_init _ r1]) (simp add: empty_graph_def)
  have g2: "ref_reach ?g2"
    by (rule ref_register [OF g1 _ r2]) (simp add: register_referral_def empty_graph_def)
  show ?thesis
    by (rule ref_register [OF g2 _ r3]) (simp add: register_referral_def empty_graph_def)
qed

lemma example_graph_eval:
  "example_graph = \<lparr>ref_users = [1, 2, 3], referrer = [2 \<mapsto> 1, 3 \<mapsto> 2],
     ref_edges = [\<lparr>edge_user = 1, edge_referred = 2, edge_level = 1\<rparr>,
                  \<lparr>edge_user = 2, edge_referred = 3, edge_level = 1\<rparr>,
                  \<lparr>edge_user = 1, edge_referred = 3, edge_level = 2\<rparr>]\<rparr>"
  by (simp add: example_graph_def register_referral_def empty_graph_def cascade_edges_def referral_cap_def)

lemma kth_referrer_add:
  "kth_referrer par (i + j) u = (case kth_referrer par i u of None \<Rightarrow> None | Some v \<Rightarrow> kth_referrer par j v)"
  by (induction i arbitrary: u) (simp_all split: option.splits)

lemma ref_inv_level_unique:
  assumes "ref_inv g" "e1 \<in> set (ref_edges g)" "e2 \<in> set (ref_edges g)"
    and "edge_user e1 = edge_user e2" "edge_referred e1 = edge_referred e2"
  shows "e1 = e2"
proof -
  let ?par = "referrer g"
  have ok: "edge_ok ?par e1" "edge_ok ?par e2" and acyc: "\<forall>u k. 0 < k \<longrightarrow> kth_referrer ?par k u \<noteq> Some u"
    using assms(1-3) by (auto simp: ref_inv_def)
  have lv: "edge_level e1 = edge_level e2"
  proof (rule ccontr)
    assume ne: "edge_level e1 \<noteq> edge_level e2"
    have cyc: False if xy: "edge_ok ?par x" "edge_ok ?par y" "edge_user x = edge_user y"
      "edge_referred x = edge_referred y" "edge_level x < edge_level y" for x y
    proof -
      obtain d where d: "edge_level y = edge_level x + d" "0 < d"
        using xy(5) by (metis less_imp_add_positive)
      have "kth_referrer ?par (edge_level x + d) (edge_referred x) = Some (edge_user x)"
        using xy(2,3,4) d(1) by (simp add: edge_ok_def)
      then have "kth_referrer ?par d (edge_user x) = Some (edge_user x)"
        using xy(1) by (simp add: kth_referrer_add edge_ok_def)
      then show False using acyc d(2) by blast
    qed
    show False
      using ne cyc [OF ok assms(4,5)] cyc [OF ok(2,1) assms(4,5) [symmetric]] by linarith
  qed
  show ?thesis using assms(4,5) lv by (intro ref_edge.equality) simp_all
qed

text \<open>C8: the edge table of every reachable referral graph is exactly the k-th-referrer relation of the referred_by map, for levels 1 to the cap.\<close>

theorem ref_edges_exact:
  assumes "ref_reach g"
  shows "e \<in> set (ref_edges g) \<longleftrightarrow>
           1 \<le> edge_level e \<and> edge_level e \<le> referral_cap \<and>
           kth_referrer (referrer g) (edge_level e) (edge_referred e) = Some (edge_user e)"
  using ref_reach_inv [OF assms] by (simp add: ref_inv_def edge_ok_def)

theorem ref_edges_exact_witness:
  "\<lparr>edge_user = 1, edge_referred = 3, edge_level = 2\<rparr> \<in> set (ref_edges example_graph) \<and>
   referrer example_graph 3 = Some 2 \<and> referrer example_graph 2 = Some 1"
proof -
  have "\<lparr>edge_user = 1, edge_referred = 3, edge_level = 2\<rparr> \<in> set (ref_edges example_graph)"
    using ref_edges_exact [OF example_graph_reach, of "\<lparr>edge_user = 1, edge_referred = 3, edge_level = 2\<rparr>"]
    by (simp add: example_graph_eval referral_cap_def numeral_2_eq_2)
  then show ?thesis by (simp add: example_graph_eval)
qed

text \<open>C9: no user is its own ancestor at any level, and no referral edge links a user to itself.\<close>

theorem ref_no_self_ancestor:
  assumes "ref_reach g" "0 < k"
  shows "kth_referrer (referrer g) k u \<noteq> Some u \<and>
         (\<forall>e \<in> set (ref_edges g). edge_user e \<noteq> edge_referred e)"
proof -
  have inv: "ref_inv g" using ref_reach_inv [OF assms(1)] .
  then have "\<forall>e \<in> set (ref_edges g). edge_user e \<noteq> edge_referred e"
    unfolding ref_inv_def edge_ok_def by (metis less_le_trans zero_less_one)
  then show ?thesis using inv assms(2) by (simp add: ref_inv_def)
qed

theorem ref_no_self_ancestor_witness:
  "kth_referrer (referrer example_graph) 2 3 = Some 1 \<and> (0::nat) < 2"
  using ref_no_self_ancestor [OF example_graph_reach, of 2 3]
  by (simp add: example_graph_eval numeral_2_eq_2)

theorem ref_one_ancestor_per_level:
  assumes "ref_reach g" "e1 \<in> set (ref_edges g)" "e2 \<in> set (ref_edges g)"
    and "edge_referred e1 = edge_referred e2" "edge_level e1 = edge_level e2"
  shows "e1 = e2"
proof -
  have "edge_user e1 = edge_user e2"
    using ref_reach_inv [OF assms(1)] assms(2-5) by (auto simp: ref_inv_def edge_ok_def)
  then show ?thesis using assms(4,5) by (intro ref_edge.equality) simp_all
qed

theorem ref_one_ancestor_per_level_witness:
  "\<lparr>edge_user = 2, edge_referred = 3, edge_level = 1\<rparr> \<in> set (ref_edges example_graph) \<and>
   \<lparr>edge_user = 2, edge_referred = 3, edge_level = 1\<rparr> = \<lparr>edge_user = 2, edge_referred = 3, edge_level = 1\<rparr>"
  using ref_one_ancestor_per_level [OF example_graph_reach,
      of "\<lparr>edge_user = 2, edge_referred = 3, edge_level = 1\<rparr>" "\<lparr>edge_user = 2, edge_referred = 3, edge_level = 1\<rparr>"]
  by (simp add: example_graph_eval)

text \<open>C14: ancestors_of returns the referrer chain of the user in ascending level order, one ancestor per level.\<close>

theorem ancestors_of_chain:
  assumes "ref_reach g"
  shows "ancestors_of g u = chain_of (referrer g) u"
  using ancestors_of_eq_chain [OF ref_reach_inv [OF assms]] .

theorem ancestors_of_chain_witness:
  "ancestors_of example_graph 3 = [(2, 1), (1, 2)] \<and> chain_of (referrer example_graph) 3 = [(2, 1), (1, 2)]"
proof -
  have "chain_of (referrer example_graph) 3 = [(2, 1), (1, 2)]"
    by (simp add: example_graph_eval chain_of_def referral_cap_def upt_rec numeral_2_eq_2)
  then show ?thesis using ancestors_of_chain [OF example_graph_reach, of 3] by simp
qed

theorem register_scenario:
  "register_referral 3 (Some 2) (projr (register_referral 2 (Some 1) (projr (register_referral 1 None empty_graph)))) =
     Inr example_graph \<and>
   \<lparr>edge_user = 1, edge_referred = 3, edge_level = 2\<rparr> \<in> set (ref_edges example_graph) \<and>
   \<lparr>edge_user = 2, edge_referred = 3, edge_level = 1\<rparr> \<in> set (ref_edges example_graph) \<and>
   ancestors_of example_graph 3 = [(2, 1), (1, 2)]"
  by (simp add: example_graph_eval ancestors_of_def)
     (simp add: example_graph_def register_referral_def empty_graph_def cascade_edges_def referral_cap_def)

end
