(* ===== verification/Commission.thy ===== *)
theory Commission
  imports Referral Wallet
begin

text \<open>
  The commission engine (spec section 4.4).  No code of the repository computes
  commissions: the screens only read the \<open>referral_commissions\<close> and
  \<open>referral_levels_config\<close> tables (\<open>src/app/(tabs)/referrals.tsx\<close>,
  \<open>src/app/(tabs)/index.tsx\<close>), so the engine is modelled from the spec.  For a qualifying
  payment it walks the payer's ancestors in level order, skips a level without a
  configured percentage, rounds \<open>amount * percentage / 100\<close> half up to paise, appends one
  commission record and credits the ancestor's referral balance through the wallet store.
  A payment whose source id already has records is rejected, and a failed credit rolls
  the whole payment back (\<open>run_commission\<close> keeps the state on any error).
\<close>

record commission =
  cm_user :: uid
  cm_from :: uid
  cm_level :: nat
  cm_amount :: money
  cm_percentage :: money
  cm_source :: nat

record comm_state =
  cm_records :: "commission list"
  cm_wallets :: wallets

type_synonym level_config = "(nat \<times> money) list"

datatype comm_error = DuplicateSourcePayment | CreditFailed uid

definition round2 :: "money \<Rightarrow> money" where
  "round2 x = of_int (js_round (x * 100)) / 100"

fun credit_levels :: "level_config \<Rightarrow> uid \<Rightarrow> money \<Rightarrow> nat \<Rightarrow> (uid \<times> nat) list \<Rightarrow>
    comm_state \<Rightarrow> comm_error + comm_state" where
  "credit_levels cfg payer amt src [] st = Inr st"
| "credit_levels cfg payer amt src ((a, l) # rest) st =
     (case map_of cfg l of
        None \<Rightarrow> credit_levels cfg payer amt src rest st
      | Some pct \<Rightarrow>
          (let c = round2 (amt * pct / 100) in
           case cm_wallets st a of
             None \<Rightarrow> Inl (CreditFailed a)
           | Some w \<Rightarrow>
               credit_levels cfg payer amt src rest
                 \<lparr>cm_records = cm_records st @
                    [\<lparr>cm_user = a, cm_from = payer, cm_level = l, cm_amount = c,
                      cm_percentage = pct, cm_source = src\<rparr>],
                  cm_wallets = (cm_wallets st)(a \<mapsto> credit w ReferralBalance c)\<rparr>))"

definition on_qualifying_payment :: "level_config \<Rightarrow> ref_graph \<Rightarrow> uid \<Rightarrow> money \<Rightarrow> nat \<Rightarrow>
    comm_state \<Rightarrow> comm_error + comm_state" where
  "on_qualifying_payment cfg g payer amt src st =
     (if list_ex (\<lambda>r. cm_source r = src) (cm_records st) then Inl DuplicateSourcePayment
      else credit_levels cfg payer amt src (ancestors_of g payer) st)"

definition run_commission :: "level_config \<Rightarrow> ref_graph \<Rightarrow> uid \<Rightarrow> money \<Rightarrow> nat \<Rightarrow>
    comm_state \<Rightarrow> comm_state" where
  "run_commission cfg g payer amt src st =
     (case on_qualifying_payment cfg g payer amt src st of Inl _ \<Rightarrow> st | Inr st' \<Rightarrow> st')"

definition commission_rows :: "level_config \<Rightarrow> uid \<Rightarrow> money \<Rightarrow> nat \<Rightarrow> (uid \<times> nat) list \<Rightarrow> commission list" where
  "commission_rows cfg payer amt src as =
     concat (map (\<lambda>(a, l). case map_of cfg l of None \<Rightarrow> []
        | Some pct \<Rightarrow> [\<lparr>cm_user = a, cm_from = payer, cm_level = l,
                       cm_amount = round2 (amt * pct / 100), cm_percentage = pct, cm_source = src\<rparr>]) as)"

definition referral_of :: "wallets \<Rightarrow> uid \<Rightarrow> money" where
  "referral_of ws a = (case ws a of None \<Rightarrow> 0 | Some w \<Rightarrow> referral_balance w)"

definition commission_total :: "commission list \<Rightarrow> uid \<Rightarrow> money" where
  "commission_total rs a = sum_list (map cm_amount (filter (\<lambda>r. cm_user r = a) rs))"

definition commission_inv :: "wallets \<Rightarrow> comm_state \<Rightarrow> bool" where
  "commission_inv base st \<longleftrightarrow>
     dom (cm_wallets st) = dom base \<and>
     (\<forall>a. referral_of (cm_wallets st) a = referral_of base a + commission_total (cm_records st) a)"

definition config_ok :: "level_config \<Rightarrow> bool" where
  "config_ok cfg \<longleftrightarrow> (\<forall>p \<in> set cfg. 0 \<le> snd p)"

inductive comm_reach :: "wallets \<Rightarrow> comm_state \<Rightarrow> bool" for base :: wallets where
  comm_init: "comm_reach base \<lparr>cm_records = [], cm_wallets = base\<rparr>"
| comm_pay: "comm_reach base st \<Longrightarrow> ref_reach g \<Longrightarrow> config_ok cfg \<Longrightarrow> 0 \<le> amt \<Longrightarrow>
    comm_reach base (run_commission cfg g payer amt src st)"

definition example_comm_state :: comm_state where
  "example_comm_state = \<lparr>cm_records = [], cm_wallets = [1 \<mapsto> new_wallet, 2 \<mapsto> new_wallet, 3 \<mapsto> new_wallet]\<rparr>"

definition example_ledger_state :: comm_state where
  "example_ledger_state = run_commission [(1, 10)] example_graph 3 1000 1 example_comm_state"

lemma round2_nonneg: "0 \<le> x \<Longrightarrow> 0 \<le> round2 x"
  unfolding round2_def js_round_def by simp

lemma credit_levels_preserves:
  assumes "credit_levels cfg payer amt src as st = Inr st'" "P st"
    and step: "\<And>st a l pct w. P st \<Longrightarrow> map_of cfg l = Some pct \<Longrightarrow> cm_wallets st a = Some w \<Longrightarrow>
      P \<lparr>cm_records = cm_records st @
            [\<lparr>cm_user = a, cm_from = payer, cm_level = l, cm_amount = round2 (amt * pct / 100),
              cm_percentage = pct, cm_source = src\<rparr>],
         cm_wallets = (cm_wallets st)(a \<mapsto> credit w ReferralBalance (round2 (amt * pct / 100)))\<rparr>"
  shows "P st'"
  using assms(1,2)
proof (induction as arbitrary: st)
  case (Cons p rest)
  obtain a l where p: "p = (a, l)" by (cases p)
  show ?case
  proof (cases "map_of cfg l")
    case None
    then show ?thesis using Cons p by simp
  next
    case (Some pct)
    then obtain w where w: "cm_wallets st a = Some w"
      using Cons.prems(1) p by (auto simp: Let_def split: option.splits)
    then show ?thesis using Cons p Some step [OF Cons.prems(2) Some w] by (simp add: Let_def)
  qed
qed simp

lemma credit_levels_records:
  "credit_levels cfg payer amt src as st = Inr st' \<Longrightarrow>
     cm_records st' = cm_records st @ commission_rows cfg payer amt src as \<and>
     (commission_rows cfg payer amt src as = [] \<longrightarrow> st' = st)"
  by (induction cfg payer amt src as st rule: credit_levels.induct)
     (auto simp: commission_rows_def Let_def split: option.splits)

lemma credit_levels_dom:
  "credit_levels cfg payer amt src as st = Inr st' \<Longrightarrow> dom (cm_wallets st') = dom (cm_wallets st)"
  by (erule credit_levels_preserves [where P = "\<lambda>s. dom (cm_wallets s) = dom (cm_wallets st)"]) auto

lemma credit_levels_succeeds:
  "(\<forall>(a, l) \<in> set as. map_of cfg l \<noteq> None \<longrightarrow> cm_wallets st a \<noteq> None) \<Longrightarrow>
     \<exists>st'. credit_levels cfg payer amt src as st = Inr st'"
proof (induction cfg payer amt src as st rule: credit_levels.induct)
  case (2 cfg payer amt src a l rest st)
  show ?case
  proof (cases "map_of cfg l")
    case (Some pct)
    then obtain w where w: "cm_wallets st a = Some w" using "2.prems" by auto
    have "\<forall>(a', l') \<in> set rest. map_of cfg l' \<noteq> None \<longrightarrow> ((cm_wallets st)(a \<mapsto> credit w ReferralBalance (round2 (amt * pct / 100)))) a' \<noteq> None"
      using "2.prems" by auto
    then show ?thesis using "2.IH"(2) [OF Some _ w] Some w by (simp add: Let_def)
  qed (use 2 in auto)
qed simp

lemma commission_rows_source:
  "r \<in> set (commission_rows cfg payer amt src as) \<Longrightarrow> cm_source r = src"
  by (auto simp: commission_rows_def split: option.splits)

lemma referral_of_credit:
  "referral_of (ws(a \<mapsto> credit w ReferralBalance c)) a' =
     referral_of ws a' + (if a' = a then referral_balance w + c - referral_of ws a' else 0)"
  by (simp add: referral_of_def credit_def recompute_total_def)

lemma commission_inv_step:
  assumes "commission_inv base st" "cm_wallets st a = Some w"
  shows "commission_inv base
    \<lparr>cm_records = cm_records st @ [\<lparr>cm_user = a, cm_from = p, cm_level = l, cm_amount = c,
        cm_percentage = pct, cm_source = src\<rparr>],
     cm_wallets = (cm_wallets st)(a \<mapsto> credit w ReferralBalance c)\<rparr>"
proof -
  have "referral_of (cm_wallets st) a = referral_balance w" using assms(2) by (simp add: referral_of_def)
  then show ?thesis using assms
    by (auto simp: commission_inv_def referral_of_credit commission_total_def)
qed

lemma wallets_ok_credit_referral:
  "wallets_ok ws \<Longrightarrow> ws a = Some w \<Longrightarrow> 0 \<le> c \<Longrightarrow> wallets_ok (ws(a \<mapsto> credit w ReferralBalance c))"
  using wallets_ok_lookup [of ws a w] wallet_ok_field_nonneg [of w ReferralBalance]
  by (simp add: credit_def set_field_ok del: set_field.simps)

lemma credit_levels_fails:
  "(a, l) \<in> set as \<Longrightarrow> map_of cfg l \<noteq> None \<Longrightarrow> cm_wallets st a = None \<Longrightarrow>
     \<exists>e. credit_levels cfg payer amt src as st = Inl e"
proof (induction as arbitrary: st)
  case (Cons p rest)
  obtain a' l' where p: "p = (a', l')" by (cases p)
  show ?case
  proof (cases "map_of cfg l'")
    case None
    then show ?thesis using Cons p by auto
  next
    case (Some pct)
    show ?thesis
    proof (cases "cm_wallets st a'")
      case (Some w)
      then have "a' \<noteq> a" using Cons.prems(3) by auto
      then show ?thesis using Cons p Some \<open>map_of cfg l' = Some pct\<close> by (auto simp: Let_def)
    qed (use Some in \<open>simp add: p Let_def\<close>)
  qed
qed simp

text \<open>C6: paying the same source payment twice leaves exactly the records and balances of paying it once.\<close>

theorem commission_idempotent:
  "run_commission cfg g payer amt src (run_commission cfg g payer amt src st) =
     run_commission cfg g payer amt src st"
proof (cases "on_qualifying_payment cfg g payer amt src st")
  case (Inl e)
  then show ?thesis by (simp add: run_commission_def)
next
  case (Inr st')
  then have fresh: "\<not> list_ex (\<lambda>r. cm_source r = src) (cm_records st)"
    and cl: "credit_levels cfg payer amt src (ancestors_of g payer) st = Inr st'"
    by (auto simp: on_qualifying_payment_def split: if_splits)
  show ?thesis
  proof (cases "commission_rows cfg payer amt src (ancestors_of g payer) = []")
    case True
    then have "st' = st" using credit_levels_records [OF cl] by simp
    then show ?thesis using Inr by (simp add: run_commission_def)
  next
    case False
    then obtain r where "r \<in> set (commission_rows cfg payer amt src (ancestors_of g payer))"
      by (cases "commission_rows cfg payer amt src (ancestors_of g payer)") auto
    moreover note r = this
    have "list_ex (\<lambda>r. cm_source r = src) (cm_records st')"
      using credit_levels_records [OF cl] commission_rows_source [OF r] r by (auto simp: list_ex_iff)
    then show ?thesis using Inr by (simp add: run_commission_def on_qualifying_payment_def)
  qed
qed

theorem commission_wallets_ok:
  assumes "wallets_ok (cm_wallets st)" "config_ok cfg" "0 \<le> amt"
  shows "wallets_ok (cm_wallets (run_commission cfg g payer amt src st))"
proof (cases "on_qualifying_payment cfg g payer amt src st")
  case (Inr st')
  then have cl: "credit_levels cfg payer amt src (ancestors_of g payer) st = Inr st'"
    by (auto simp: on_qualifying_payment_def split: if_splits)
  have "wallets_ok (cm_wallets st')"
  proof (rule credit_levels_preserves [OF cl, where P = "\<lambda>s. wallets_ok (cm_wallets s)"])
    show "wallets_ok (cm_wallets st)" by (rule assms(1))
  next
    fix s a l pct w assume "wallets_ok (cm_wallets s)" "map_of cfg l = Some pct" "cm_wallets s a = Some w"
    moreover have "0 \<le> pct" using map_of_SomeD [OF calculation(2)] assms(2) by (force simp: config_ok_def)
    ultimately show "wallets_ok (cm_wallets \<lparr>cm_records = cm_records s @
            [\<lparr>cm_user = a, cm_from = payer, cm_level = l, cm_amount = round2 (amt * pct / 100),
              cm_percentage = pct, cm_source = src\<rparr>],
         cm_wallets = (cm_wallets s)(a \<mapsto> credit w ReferralBalance (round2 (amt * pct / 100)))\<rparr>)"
      using assms(3) by (simp add: wallets_ok_credit_referral round2_nonneg)
  qed
  then show ?thesis using Inr by (simp add: run_commission_def)
qed (use assms in \<open>simp add: run_commission_def\<close>)

theorem commission_wallets_ok_witness:
  "wallets_ok (cm_wallets example_comm_state) \<and> config_ok [(1, 10)] \<and> (0::rat) \<le> 1000 \<and>
   wallets_ok (cm_wallets (run_commission [(1, 10)] example_graph 3 1000 1 example_comm_state))"
proof -
  have w: "wallets_ok (cm_wallets example_comm_state)"
    by (simp add: example_comm_state_def wallets_ok_def ran_def new_wallet_def wallet_ok_def) auto
  have c: "config_ok [(1, 10)]" by (simp add: config_ok_def)
  show ?thesis using w c commission_wallets_ok [OF w c, of 1000 example_graph 3 1] by simp
qed

lemma commission_inv_run:
  assumes "commission_inv base st"
  shows "commission_inv base (run_commission cfg g payer amt src st)"
proof (cases "on_qualifying_payment cfg g payer amt src st")
  case (Inr st')
  then have cl: "credit_levels cfg payer amt src (ancestors_of g payer) st = Inr st'"
    by (auto simp: on_qualifying_payment_def split: if_splits)
  have "commission_inv base st'"
    by (rule credit_levels_preserves [OF cl, where P = "commission_inv base"])
       (use assms in \<open>auto intro: commission_inv_step\<close>)
  then show ?thesis using Inr by (simp add: run_commission_def)
qed (use assms in \<open>simp add: run_commission_def\<close>)

lemma commission_rows_levels:
  assumes "ref_inv g" "r \<in> set (commission_rows cfg payer amt src (ancestors_of g payer))"
  shows "1 \<le> cm_level r \<and> cm_level r \<le> referral_cap"
  using assms by (auto simp: commission_rows_def ancestors_of_def ref_inv_def edge_ok_def split: option.splits)

lemma run_commission_records:
  "cm_records (run_commission cfg g payer amt src st) = cm_records st \<or>
   cm_records (run_commission cfg g payer amt src st) =
     cm_records st @ commission_rows cfg payer amt src (ancestors_of g payer)"
  using credit_levels_records
  by (auto simp: run_commission_def on_qualifying_payment_def split: sum.splits if_splits)

lemma comm_reach_inv: "comm_reach base st \<Longrightarrow> commission_inv base st"
proof (induction rule: comm_reach.induct)
  case comm_init
  then show ?case by (simp add: commission_inv_def commission_total_def)
next
  case (comm_pay st g cfg amt payer src)
  show ?case by (rule commission_inv_run [OF comm_pay.IH])
qed

lemma comm_reach_levels:
  "comm_reach base st \<Longrightarrow> \<forall>r \<in> set (cm_records st). 1 \<le> cm_level r \<and> cm_level r \<le> referral_cap"
proof (induction rule: comm_reach.induct)
  case (comm_pay st g cfg amt payer src)
  then show ?case
    using run_commission_records [of cfg g payer amt src st]
      commission_rows_levels [OF ref_reach_inv [OF comm_pay.hyps(2)]]
    by auto
qed simp

lemma example_ledger_state_reach: "comm_reach (cm_wallets example_comm_state) example_ledger_state"
proof -
  have "comm_reach (cm_wallets example_comm_state) example_comm_state"
    using comm_init [of "cm_wallets example_comm_state"] by (simp add: example_comm_state_def)
  then show ?thesis unfolding example_ledger_state_def
    by (rule comm_pay [OF _ example_graph_reach]) (simp_all add: config_ok_def)
qed

text \<open>C7: in every reachable state, each referral balance equals its initial value plus the sum of the commission records of that user.\<close>

theorem commission_ledger:
  assumes "comm_reach base st"
  shows "referral_of (cm_wallets st) a = referral_of base a + commission_total (cm_records st) a"
  using comm_reach_inv [OF assms] by (simp add: commission_inv_def)

theorem commission_ledger_witness:
  "referral_of (cm_wallets example_ledger_state) 2 = 100"
proof -
  have t: "commission_total (cm_records example_ledger_state) 2 = 100"
    by (simp add: example_ledger_state_def run_commission_def on_qualifying_payment_def
        example_comm_state_def example_graph_eval ancestors_of_def round2_def js_round_def
        credit_def recompute_total_def commission_total_def)
  show ?thesis
    using commission_ledger [OF example_ledger_state_reach, of 2] t
    by (simp add: referral_of_def example_comm_state_def new_wallet_def)
qed

text \<open>C12: a fresh qualifying payment appends one commission per configured ancestor level, with the amount rounded half up to paise.\<close>

theorem commission_on_payment:
  assumes "ref_reach g" "\<not> list_ex (\<lambda>r. cm_source r = src) (cm_records st)"
    and "\<forall>(a, l) \<in> set (chain_of (referrer g) payer). map_of cfg l \<noteq> None \<longrightarrow> cm_wallets st a \<noteq> None"
  shows "\<exists>st'. on_qualifying_payment cfg g payer amt src st = Inr st' \<and>
           cm_records st' = cm_records st @ commission_rows cfg payer amt src (chain_of (referrer g) payer)"
proof -
  have anc: "ancestors_of g payer = chain_of (referrer g) payer"
    by (rule ancestors_of_eq_chain [OF ref_reach_inv [OF assms(1)]])
  obtain st' where "credit_levels cfg payer amt src (ancestors_of g payer) st = Inr st'"
    using credit_levels_succeeds assms(3) unfolding anc by blast
  then show ?thesis
    using assms(2) credit_levels_records anc by (simp add: on_qualifying_payment_def)
qed

theorem commission_on_payment_witness:
  "ref_reach example_graph \<and>
   (\<exists>st'. on_qualifying_payment [(1, 10)] example_graph 3 1000 1 example_comm_state = Inr st' \<and>
      cm_records st' = commission_rows [(1, 10)] 3 1000 1 [(2, 1), (1, 2)])"
proof -
  have ch: "chain_of (referrer example_graph) 3 = [(2, 1), (1, 2)]"
    by (simp add: example_graph_eval chain_of_def referral_cap_def upt_rec numeral_2_eq_2)
  have f: "\<not> list_ex (\<lambda>r. cm_source r = 1) (cm_records example_comm_state)"
    by (simp add: example_comm_state_def)
  have w: "\<forall>(a, l) \<in> set (chain_of (referrer example_graph) 3).
      map_of [(1::nat, 10::rat)] l \<noteq> None \<longrightarrow> cm_wallets example_comm_state a \<noteq> None"
    by (simp add: ch example_comm_state_def)
  show ?thesis
    using example_graph_reach commission_on_payment [OF example_graph_reach f w, of 1000] ch
    by (simp add: example_comm_state_def)
qed

text \<open>C13: if crediting any configured ancestor fails, the whole commission run is rolled back.\<close>

theorem commission_rollback:
  assumes "(a, l) \<in> set (ancestors_of g payer)" "map_of cfg l \<noteq> None" "cm_wallets st a = None"
  shows "isl (on_qualifying_payment cfg g payer amt src st) \<and> run_commission cfg g payer amt src st = st"
  using credit_levels_fails [OF assms, of payer amt src]
  by (auto simp: on_qualifying_payment_def run_commission_def split: sum.splits)

theorem commission_rollback_witness:
  "(1, 2) \<in> set (ancestors_of example_graph 3) \<and> map_of [(1::nat, 10::rat), (2, 5)] 2 \<noteq> None \<and>
   (example_comm_state\<lparr>cm_wallets := [2 \<mapsto> new_wallet]\<rparr>) = example_comm_state\<lparr>cm_wallets := [2 \<mapsto> new_wallet]\<rparr> \<and>
   run_commission [(1, 10), (2, 5)] example_graph 3 1000 1 (example_comm_state\<lparr>cm_wallets := [2 \<mapsto> new_wallet]\<rparr>) =
     example_comm_state\<lparr>cm_wallets := [2 \<mapsto> new_wallet]\<rparr>"
proof -
  have a: "(1, 2) \<in> set (ancestors_of example_graph 3)"
    by (simp add: example_graph_eval ancestors_of_def)
  show ?thesis
    using a commission_rollback [OF a, of "[(1, 10), (2, 5)]" "example_comm_state\<lparr>cm_wallets := [2 \<mapsto> new_wallet]\<rparr>" 1000 1]
    by simp
qed

theorem commission_scenario:
  "run_commission [(1, 10)] example_graph 3 1000 1 example_comm_state =
     \<lparr>cm_records = [\<lparr>cm_user = 2, cm_from = 3, cm_level = 1, cm_amount = 100, cm_percentage = 10, cm_source = 1\<rparr>],
      cm_wallets = [1 \<mapsto> new_wallet, 2 \<mapsto> new_wallet\<lparr>referral_balance := 100, total_balance := 100\<rparr>, 3 \<mapsto> new_wallet]\<rparr>"
  by (simp add: run_commission_def on_qualifying_payment_def example_comm_state_def example_graph_eval
      ancestors_of_def round2_def js_round_def credit_def recompute_total_def new_wallet_def fun_upd_twist)

lemma round2_bounds: "\<bar>round2 x - x\<bar> \<le> 1 / 200"
proof -
  have "of_int (js_round (x * 100)) - 1/2 \<le> x * 100" "x * 100 < of_int (js_round (x * 100)) + 1/2"
    using js_round_bounds by auto
  then show ?thesis unfolding round2_def abs_le_iff by linarith
qed


end
