(* ===== verification/ReferralViews.thy ===== *)
theory ReferralViews
  imports Commission
begin

text \<open>
  The screens that read the referral graph and the commission records.
  \<^item> \<open>src/app/(tabs)/referrals.tsx\<close>: \<open>loadReferralData\<close> runs, for each level 1..10, a
    count query on \<open>referral_tree\<close> and a sum query on \<open>referral_commissions\<close>; a failed
    query is only logged and counts as zero (\<open>level_count\<close>, \<open>level_commission\<close>,
    \<open>load_referral_data\<close>).  \<open>loadLevelConfig\<close> and \<open>loadRecentCommissions\<close> keep the
    previous state on failure; the recent list is ordered by creation time, which for the
    append-only record table is the reverse of table order.
  \<^item> \<open>src/app/tree.tsx\<close>: \<open>buildTreeStructure\<close> creates one mutable node object per row
    and then links each deeper row under a node of the previous level.  Node objects are
    shared between the id map, the root list and the children lists, so the model keeps
    them in an explicit heap (\<open>tree_heap\<close>: a list of nodes indexed by address, the
    \<open>Map\<close> as an insertion-ordered association list from ids to addresses, the roots as
    addresses).  \<open>countChildren\<close> recurses through that heap and is given fuel.
\<close>

section \<open>The referrals screen\<close>

record level_row =
  lr_level :: nat
  lr_count :: nat
  lr_commission :: money

record referrals_screen =
  rs_levels :: "level_row list"
  rs_recent :: "commission list"
  rs_config :: level_config
  rs_total_commission :: money
  rs_total_referrals :: nat
  rs_loading :: bool

definition screen_levels :: "nat list" where
  "screen_levels = [1..<11]"

definition level_count :: "nat set \<Rightarrow> ref_edge list \<Rightarrow> uid \<Rightarrow> nat \<Rightarrow> nat" where
  "level_count fails es u l =
     (if l \<in> fails then 0 else length (filter (\<lambda>e. edge_user e = u \<and> edge_level e = l) es))"

definition level_commission :: "nat set \<Rightarrow> commission list \<Rightarrow> uid \<Rightarrow> nat \<Rightarrow> money" where
  "level_commission fails rs u l =
     (if l \<in> fails then 0 else sum_list (map cm_amount (filter (\<lambda>r. cm_user r = u \<and> cm_level r = l) rs)))"

definition load_referral_data :: "nat set \<Rightarrow> nat set \<Rightarrow> ref_edge list \<Rightarrow> commission list \<Rightarrow> uid \<Rightarrow>
    level_row list \<times> money \<times> nat" where
  "load_referral_data ref_fails comm_fails es rs u =
     (let rows = map (\<lambda>l. \<lparr>lr_level = l, lr_count = level_count ref_fails es u l,
                          lr_commission = level_commission comm_fails rs u l\<rparr>) screen_levels
      in (rows, sum_list (map lr_commission rows), sum_list (map lr_count rows)))"

definition load_level_config :: "level_config option \<Rightarrow> referrals_screen \<Rightarrow> referrals_screen" where
  "load_level_config q st = (case q of None \<Rightarrow> st | Some cfg \<Rightarrow> st\<lparr>rs_config := sort_key fst cfg\<rparr>)"

definition load_recent_commissions :: "bool \<Rightarrow> commission list \<Rightarrow> uid \<Rightarrow> referrals_screen \<Rightarrow> referrals_screen" where
  "load_recent_commissions failed rs u st =
     (if failed then st else st\<lparr>rs_recent := take 10 (rev (filter (\<lambda>r. cm_user r = u) rs))\<rparr>)"

definition referrals_load_data :: "uid option \<Rightarrow> level_config option \<Rightarrow> nat set \<Rightarrow> nat set \<Rightarrow> bool \<Rightarrow>
    ref_edge list \<Rightarrow> commission list \<Rightarrow> referrals_screen \<Rightarrow> referrals_screen" where
  "referrals_load_data profile cfg ref_fails comm_fails recent_failed es rs st =
     (case profile of
        None \<Rightarrow> st
      | Some u \<Rightarrow>
          (let (rows, total, count) = load_referral_data ref_fails comm_fails es rs u;
               st1 = load_recent_commissions recent_failed rs u (load_level_config cfg st)
           in st1\<lparr>rs_levels := rows, rs_total_commission := total, rs_total_referrals := count,
                  rs_loading := False\<rparr>))"

definition initial_referrals_screen :: referrals_screen where
  "initial_referrals_screen =
     \<lparr>rs_levels = [], rs_recent = [], rs_config = [], rs_total_commission = 0, rs_total_referrals = 0,
      rs_loading = True\<rparr>"

definition level_percent_shown :: "level_config \<Rightarrow> nat \<Rightarrow> money" where
  \<comment> \<open>\<open>config?.percentage || 0\<close>: the first configuration row of that level\<close>
  "level_percent_shown cfg l = (case find (\<lambda>c. fst c = l) cfg of None \<Rightarrow> 0 | Some c \<Rightarrow> snd c)"

definition home_referral_stats :: "ref_edge list \<Rightarrow> commission list \<Rightarrow> uid \<Rightarrow> nat \<times> money" where
  "home_referral_stats es rs u =
     (length (filter (\<lambda>e. edge_user e = u \<and> edge_level e = 1) es),
      sum_list (map cm_amount (filter (\<lambda>r. cm_user r = u) rs)))"

section \<open>The downline tree\<close>

record profile_join =
  pj_id :: uid
  pj_name :: "string option"
  pj_phone :: "string option"

record tree_row =
  tr_level :: nat
  tr_referred :: "profile_join option"

record tree_node =
  tn_id :: uid
  tn_name :: string
  tn_phone :: string
  tn_level :: nat
  tn_children :: "nat list"

record tree_heap =
  th_nodes :: "tree_node list"
  th_map :: "(uid \<times> nat) list"
  th_roots :: "nat list"

record tree_screen =
  ts_heap :: tree_heap
  ts_expanded :: "uid list"
  ts_loading :: bool

definition js_or_string :: "string option \<Rightarrow> string \<Rightarrow> string" where
  "js_or_string s d = (case s of None \<Rightarrow> d | Some x \<Rightarrow> if x = [] then d else x)"

definition js_map_set :: "'k \<Rightarrow> 'v \<Rightarrow> ('k \<times> 'v) list \<Rightarrow> ('k \<times> 'v) list" where
  \<comment> \<open>\<open>Map.prototype.set\<close>: an existing key keeps its position\<close>
  "js_map_set k v m =
     (if k \<in> set (map fst m) then map (\<lambda>(k', v'). if k' = k then (k, v) else (k', v')) m else m @ [(k, v)])"

definition empty_heap :: tree_heap where
  "empty_heap = \<lparr>th_nodes = [], th_map = [], th_roots = []\<rparr>"

definition new_tree_node :: "profile_join \<Rightarrow> nat \<Rightarrow> tree_node" where
  "new_tree_node p l =
     \<lparr>tn_id = pj_id p, tn_name = js_or_string (pj_name p) ''Unknown'',
      tn_phone = js_or_string (pj_phone p) ''N/A'', tn_level = l, tn_children = []\<rparr>"

fun tree_pass1 :: "tree_row list \<Rightarrow> tree_heap \<Rightarrow> tree_heap" where
  "tree_pass1 [] h = h"
| "tree_pass1 (r # rs) h =
     (case tr_referred r of
        None \<Rightarrow> tree_pass1 rs h
      | Some p \<Rightarrow>
          (let a = length (th_nodes h) in
           tree_pass1 rs \<lparr>th_nodes = th_nodes h @ [new_tree_node p (tr_level r)],
                          th_map = js_map_set (pj_id p) a (th_map h),
                          th_roots = (if tr_level r = 1 then th_roots h @ [a] else th_roots h)\<rparr>))"

fun attach_first :: "nat \<Rightarrow> nat \<Rightarrow> (uid \<times> nat) list \<Rightarrow> tree_node list \<Rightarrow> tree_node list" where
  "attach_first lvl c [] ns = ns"
| "attach_first lvl c ((k, a) # es) ns =
     (if tn_level (ns ! a) = lvl - 1 \<and>
         tn_id (ns ! c) \<notin> set (map (\<lambda>x. tn_id (ns ! x)) (tn_children (ns ! a)))
      then ns[a := (ns ! a)\<lparr>tn_children := tn_children (ns ! a) @ [c]\<rparr>]
      else attach_first lvl c es ns)"

fun tree_pass2 :: "tree_row list \<Rightarrow> tree_heap \<Rightarrow> tree_heap" where
  "tree_pass2 [] h = h"
| "tree_pass2 (r # rs) h =
     (case tr_referred r of
        None \<Rightarrow> tree_pass2 rs h
      | Some p \<Rightarrow>
          (if 1 < tr_level r then
             (case map_of (th_map h) (pj_id p) of
                None \<Rightarrow> tree_pass2 rs h
              | Some c \<Rightarrow> tree_pass2 rs (h\<lparr>th_nodes := attach_first (tr_level r) c (th_map h) (th_nodes h)\<rparr>))
           else tree_pass2 rs h))"

definition build_tree_structure :: "tree_row list \<Rightarrow> tree_heap" where
  "build_tree_structure rows = tree_pass2 rows (tree_pass1 rows empty_heap)"

fun count_children :: "nat \<Rightarrow> tree_node list \<Rightarrow> nat \<Rightarrow> nat option" where
  "count_children 0 ns a = None"
| "count_children (Suc f) ns a =
     (let cs = tn_children (ns ! a) in
      if cs = [] then Some 0
      else map_option (\<lambda>xs. length cs + sum_list xs) (those (map (count_children f ns) cs)))"

definition tree_query :: "ref_graph \<Rightarrow> (uid \<rightharpoonup> profile_join) \<Rightarrow> uid \<Rightarrow> tree_row list" where
  "tree_query g prof u =
     map (\<lambda>e. \<lparr>tr_level = edge_level e, tr_referred = prof (edge_referred e)\<rparr>)
       (sort_key edge_level (filter (\<lambda>e. edge_user e = u) (ref_edges g)))"

definition load_tree_data :: "uid option \<Rightarrow> bool \<Rightarrow> ref_graph \<Rightarrow> (uid \<rightharpoonup> profile_join) \<Rightarrow>
    tree_screen \<Rightarrow> tree_screen" where
  "load_tree_data profile failed g prof st =
     (case profile of
        None \<Rightarrow> st
      | Some u \<Rightarrow>
          (if failed then st\<lparr>ts_loading := False\<rparr>
           else (let h = build_tree_structure (tree_query g prof u)
                 in \<lparr>ts_heap = h, ts_expanded = map (\<lambda>a. tn_id (th_nodes h ! a)) (th_roots h),
                     ts_loading = False\<rparr>)))"

definition toggle_node :: "uid \<Rightarrow> uid list \<Rightarrow> uid list" where
  "toggle_node x xs = (if x \<in> set xs then removeAll x xs else xs @ [x])"

definition heap_ok :: "tree_node list \<Rightarrow> bool" where
  "heap_ok ns \<longleftrightarrow>
     (\<forall>a < length ns. \<forall>c \<in> set (tn_children (ns ! a)). c < length ns \<and> tn_level (ns ! c) = Suc (tn_level (ns ! a)))"

definition prof_ok :: "(uid \<rightharpoonup> profile_join) \<Rightarrow> bool" where
  "prof_ok prof \<longleftrightarrow> (\<forall>b p. prof b = Some p \<longrightarrow> pj_id p = b)"

definition key_level_unique :: "tree_row list \<Rightarrow> bool" where
  "key_level_unique rows \<longleftrightarrow>
     (\<forall>r1 \<in> set rows. \<forall>r2 \<in> set rows. \<forall>p1 p2. tr_referred r1 = Some p1 \<longrightarrow> tr_referred r2 = Some p2 \<longrightarrow>
        pj_id p1 = pj_id p2 \<longrightarrow> tr_level r1 = tr_level r2)"

definition tree_map_ok :: "tree_row list \<Rightarrow> tree_heap \<Rightarrow> bool" where
  "tree_map_ok rows h \<longleftrightarrow>
     (\<forall>(k, c) \<in> set (th_map h). c < length (th_nodes h) \<and>
        (\<exists>r \<in> set rows. \<exists>p. tr_referred r = Some p \<and> pj_id p = k \<and> tn_level (th_nodes h ! c) = tr_level r)) \<and>
     (\<forall>i < length (th_nodes h). tn_level (th_nodes h ! i) \<in> tr_level ` set rows)"

definition example_profiles :: "uid \<rightharpoonup> profile_join" where
  "example_profiles u = Some \<lparr>pj_id = u, pj_name = Some ''Member'', pj_phone = None\<rparr>"

definition branching_graph :: ref_graph where
  \<comment> \<open>user 1 refers 2 and 4, and user 4 refers 5\<close>
  "branching_graph =
     projr (register_referral 5 (Some 4) (projr (register_referral 4 (Some 1)
       (projr (register_referral 2 (Some 1) (projr (register_referral 1 None empty_graph)))))))"

lemma sum_list_map_indicator:
  "distinct ls \<Longrightarrow> sum_list (map (\<lambda>l. if k = l then c else 0) ls) = (if k \<in> set ls then c else (0::'a::comm_monoid_add))"
  by (induction ls) auto

lemma sum_list_by_key:
  fixes w :: "'b \<Rightarrow> 'a::comm_monoid_add"
  assumes "distinct ls"
  shows "sum_list (map (\<lambda>l. sum_list (map w (filter (\<lambda>x. P x \<and> f x = l) xs))) ls) =
         sum_list (map w (filter (\<lambda>x. P x \<and> f x \<in> set ls) xs))"
proof (induction xs)
  case (Cons x xs)
  have "sum_list (map (\<lambda>l. sum_list (map w (filter (\<lambda>x. P x \<and> f x = l) (x # xs)))) ls) =
        sum_list (map (\<lambda>l. if f x = l then (if P x then w x else 0) else 0) ls) +
        sum_list (map (\<lambda>l. sum_list (map w (filter (\<lambda>x. P x \<and> f x = l) xs))) ls)"
    by (simp add: sum_list_addf [symmetric] if_distrib cong: if_cong) (auto intro: arg_cong [where f = sum_list])
  then show ?case using Cons by (cases "P x") (simp_all add: sum_list_map_indicator [OF assms])
qed simp

lemma sum_list_ones: "sum_list (map (\<lambda>_. 1::nat) xs) = length xs"
  by (induction xs) simp_all

lemma those_map_Some: "(\<forall>x \<in> set xs. g x \<noteq> None) \<Longrightarrow> \<exists>ys. those (map g xs) = Some ys"
  by (induction xs) auto

lemma count_children_enough:
  assumes "heap_ok ns" "\<forall>b < length ns. tn_level (ns ! b) \<le> L"
  shows "a < length ns \<Longrightarrow> L < tn_level (ns ! a) + f \<Longrightarrow> \<exists>n. count_children f ns a = Some n"
proof (induction f arbitrary: a)
  case 0
  then show ?case using assms(2) by fastforce
next
  case (Suc f)
  have "\<forall>c \<in> set (tn_children (ns ! a)). count_children f ns c \<noteq> None"
  proof
    fix c assume "c \<in> set (tn_children (ns ! a))"
    then have "c < length ns" "tn_level (ns ! c) = Suc (tn_level (ns ! a))"
      using assms(1) Suc.prems(1) by (auto simp: heap_ok_def)
    then show "count_children f ns c \<noteq> None" using Suc.IH [of c] Suc.prems(2) by auto
  qed
  then show ?case using those_map_Some [of "tn_children (ns ! a)" "count_children f ns"]
    by (auto simp: Let_def)
qed

lemma map_update_same_level:
  "map f (ns[a := (ns ! a)\<lparr>tn_children := cs\<rparr>]) = map f ns"
  if "\<And>x. f (x\<lparr>tn_children := cs\<rparr>) = f x"
proof (cases "a < length ns")
  case True
  then show ?thesis using that by (simp add: map_update) (metis length_map list_update_id nth_map)
qed (simp add: list_update_beyond)

lemma attach_first_length [simp]: "length (attach_first lvl c es ns) = length ns"
  by (induction lvl c es ns rule: attach_first.induct) auto

lemma attach_first_levels: "map tn_level (attach_first lvl c es ns) = map tn_level ns"
  by (induction lvl c es ns rule: attach_first.induct) (auto simp: map_update_same_level)

lemma attach_first_level_nth:
  "i < length ns \<Longrightarrow> tn_level (attach_first lvl c es ns ! i) = tn_level (ns ! i)"
  using attach_first_levels [of lvl c es ns] by (metis attach_first_length nth_map)

lemma attach_first_heap_ok:
  assumes "heap_ok ns" "c < length ns" "tn_level (ns ! c) = lvl" "0 < lvl"
    and "\<forall>(k, a) \<in> set es. a < length ns"
  shows "heap_ok (attach_first lvl c es ns)"
  using assms(5)
proof (induction es)
  case (Cons e es)
  obtain k a where e: "e = (k, a)" by (cases e)
  show ?case
  proof (cases "tn_level (ns ! a) = lvl - 1 \<and>
         tn_id (ns ! c) \<notin> set (map (\<lambda>x. tn_id (ns ! x)) (tn_children (ns ! a)))")
    case True
    have a: "a < length ns" using Cons.prems e by simp
    let ?ns = "ns[a := (ns ! a)\<lparr>tn_children := tn_children (ns ! a) @ [c]\<rparr>]"
    have lv: "tn_level (?ns ! i) = tn_level (ns ! i)" for i
      using a by (cases "i = a") simp_all
    have "heap_ok ?ns"
      unfolding heap_ok_def
    proof (intro allI impI ballI)
      fix b d assume b: "b < length ?ns" and d: "d \<in> set (tn_children (?ns ! b))"
      show "d < length ?ns \<and> tn_level (?ns ! d) = Suc (tn_level (?ns ! b))"
      proof (cases "b = a")
        case True
        then have "d \<in> set (tn_children (ns ! a)) \<or> d = c" using d a by auto
        then show ?thesis
          using assms(1-4) a True \<open>tn_level (ns ! a) = lvl - 1 \<and> _\<close> lv
          by (auto simp: heap_ok_def)
      next
        case False
        then show ?thesis using d b assms(1) lv by (auto simp: heap_ok_def)
      qed
    qed
    then show ?thesis using True e by simp
  next
    case False
    then show ?thesis using Cons e by auto
  qed
qed (use assms(1) in simp)

lemma set_js_map_set: "set (js_map_set k v m) \<subseteq> insert (k, v) (set m)"
  by (auto simp: js_map_set_def split: if_splits)

lemma tree_map_ok_nodes:
  assumes "tree_map_ok R h" "length ns = length (th_nodes h)" "map tn_level ns = map tn_level (th_nodes h)"
  shows "tree_map_ok R (h\<lparr>th_nodes := ns\<rparr>)"
proof -
  have "tn_level (ns ! i) = tn_level (th_nodes h ! i)" if "i < length ns" for i
    using assms(2,3) that by (metis nth_map)
  then show ?thesis using assms(1,2) by (fastforce simp: tree_map_ok_def)
qed

lemma tree_pass1_ok:
  assumes "set rs \<subseteq> set R" "tree_map_ok R h" "\<forall>i < length (th_nodes h). tn_children (th_nodes h ! i) = []"
  shows "tree_map_ok R (tree_pass1 rs h) \<and>
         (\<forall>i < length (th_nodes (tree_pass1 rs h)). tn_children (th_nodes (tree_pass1 rs h) ! i) = [])"
  using assms
proof (induction rs arbitrary: h)
  case (Cons r rs)
  show ?case
  proof (cases "tr_referred r")
    case None
    then show ?thesis using Cons by simp
  next
    case (Some p)
    let ?n = "length (th_nodes h)"
    let ?h = "\<lparr>th_nodes = th_nodes h @ [new_tree_node p (tr_level r)],
               th_map = js_map_set (pj_id p) ?n (th_map h),
               th_roots = (if tr_level r = 1 then th_roots h @ [?n] else th_roots h)\<rparr>"
    have r: "r \<in> set R" using Cons.prems(1) by simp
    have nth: "th_nodes ?h ! i = (if i < ?n then th_nodes h ! i else new_tree_node p (tr_level r))"
      if "i < Suc ?n" for i
      using that by (simp add: nth_append)
    have "tree_map_ok R ?h"
      unfolding tree_map_ok_def
    proof (intro conjI ballI allI impI)
      fix e assume "e \<in> set (th_map ?h)"
      then have "e = (pj_id p, ?n) \<or> e \<in> set (th_map h)" using set_js_map_set by fastforce
      then show "case e of (k, c) \<Rightarrow> c < length (th_nodes ?h) \<and>
          (\<exists>r \<in> set R. \<exists>p. tr_referred r = Some p \<and> pj_id p = k \<and> tn_level (th_nodes ?h ! c) = tr_level r)"
      proof
        assume "e = (pj_id p, ?n)"
        then show ?thesis using r Some by (auto simp: nth_append new_tree_node_def)
      next
        assume "e \<in> set (th_map h)"
        then show ?thesis using Cons.prems(2) by (fastforce simp: tree_map_ok_def nth_append)
      qed
    next
      fix i assume "i < length (th_nodes ?h)"
      then show "tn_level (th_nodes ?h ! i) \<in> tr_level ` set R"
        using Cons.prems(2) r nth [of i] by (auto simp: tree_map_ok_def new_tree_node_def)
    qed
    moreover have "\<forall>i < length (th_nodes ?h). tn_children (th_nodes ?h ! i) = []"
      using Cons.prems(3) nth by (auto simp: new_tree_node_def)
    ultimately show ?thesis using Cons.IH [of ?h] Cons.prems(1) Some by (simp add: Let_def)
  qed
qed simp

lemma tree_pass2_ok:
  assumes "key_level_unique R" "set rs \<subseteq> set R" "tree_map_ok R h" "heap_ok (th_nodes h)"
  shows "tree_map_ok R (tree_pass2 rs h) \<and> heap_ok (th_nodes (tree_pass2 rs h))"
  using assms(2-4)
proof (induction rs arbitrary: h)
  case (Cons r rs)
  have r: "r \<in> set R" using Cons.prems(1) by simp
  show ?case
  proof (cases "\<exists>p c. tr_referred r = Some p \<and> 1 < tr_level r \<and> map_of (th_map h) (pj_id p) = Some c")
    case True
    then obtain p c where p: "tr_referred r = Some p" "1 < tr_level r" "map_of (th_map h) (pj_id p) = Some c"
      by blast
    have ent: "\<forall>(k, a) \<in> set (th_map h). a < length (th_nodes h)"
      using Cons.prems(2) by (auto simp: tree_map_ok_def)
    obtain r' p' where "r' \<in> set R" "tr_referred r' = Some p'" "pj_id p' = pj_id p"
        "tn_level (th_nodes h ! c) = tr_level r'" and c: "c < length (th_nodes h)"
      using Cons.prems(2) map_of_SomeD [OF p(3)] unfolding tree_map_ok_def by fastforce
    then have lvl: "tn_level (th_nodes h ! c) = tr_level r"
      using assms(1) r p(1) unfolding key_level_unique_def by metis
    let ?ns = "attach_first (tr_level r) c (th_map h) (th_nodes h)"
    have "heap_ok ?ns"
      using attach_first_heap_ok [OF Cons.prems(3) c lvl _ ent] p(2) by simp
    moreover have "tree_map_ok R (h\<lparr>th_nodes := ?ns\<rparr>)"
      using tree_map_ok_nodes [OF Cons.prems(2)] attach_first_levels by simp
    ultimately show ?thesis using Cons.IH [of "h\<lparr>th_nodes := ?ns\<rparr>"] Cons.prems(1) p by simp
  next
    case False
    then have "tree_pass2 (r # rs) h = tree_pass2 rs h"
      by (auto split: option.splits)
    then show ?thesis using Cons by simp
  qed
qed simp

lemma build_tree_ok:
  assumes "key_level_unique R"
  shows "heap_ok (th_nodes (build_tree_structure R)) \<and>
         (\<forall>i < length (th_nodes (build_tree_structure R)). tn_level (th_nodes (build_tree_structure R) ! i) \<in> tr_level ` set R)"
proof -
  have "tree_map_ok R empty_heap" by (simp add: tree_map_ok_def empty_heap_def)
  then have p1: "tree_map_ok R (tree_pass1 R empty_heap)"
      and ch: "\<forall>i < length (th_nodes (tree_pass1 R empty_heap)). tn_children (th_nodes (tree_pass1 R empty_heap) ! i) = []"
    using tree_pass1_ok [of R R empty_heap] by (simp_all add: empty_heap_def)
  have "heap_ok (th_nodes (tree_pass1 R empty_heap))" using ch by (simp add: heap_ok_def)
  then show ?thesis
    using tree_pass2_ok [OF assms _ p1] unfolding build_tree_structure_def tree_map_ok_def by simp
qed

lemma tree_query_rows:
  assumes "ref_reach g" "prof_ok prof"
  shows "key_level_unique (tree_query g prof u) \<and> (\<forall>r \<in> set (tree_query g prof u). tr_level r \<le> referral_cap)"
proof -
  have inv: "ref_inv g" by (rule ref_reach_inv [OF assms(1)])
  have "key_level_unique (tree_query g prof u)"
    unfolding key_level_unique_def
  proof (intro ballI allI impI)
    fix r1 r2 p1 p2
    assume r1: "r1 \<in> set (tree_query g prof u)" and r2: "r2 \<in> set (tree_query g prof u)"
      and s: "tr_referred r1 = Some p1" "tr_referred r2 = Some p2" "pj_id p1 = pj_id p2"
    obtain e1 where e1: "e1 \<in> set (ref_edges g)" "edge_user e1 = u"
        "r1 = \<lparr>tr_level = edge_level e1, tr_referred = prof (edge_referred e1)\<rparr>"
      using r1 by (auto simp: tree_query_def)
    obtain e2 where e2: "e2 \<in> set (ref_edges g)" "edge_user e2 = u"
        "r2 = \<lparr>tr_level = edge_level e2, tr_referred = prof (edge_referred e2)\<rparr>"
      using r2 by (auto simp: tree_query_def)
    have "edge_referred e1 = edge_referred e2"
      using s e1(3) e2(3) assms(2) unfolding prof_ok_def by (metis tree_row.select_convs(2))
    then have "e1 = e2" using ref_inv_level_unique [OF inv e1(1) e2(1)] e1(2) e2(2) by simp
    then show "tr_level r1 = tr_level r2" using e1(3) e2(3) by simp
  qed
  moreover have "\<forall>r \<in> set (tree_query g prof u). tr_level r \<le> referral_cap"
    using inv by (auto simp: tree_query_def ref_inv_def edge_ok_def)
  ultimately show ?thesis by blast
qed

lemma load_referral_data_totals:
  assumes "load_referral_data {} {} es rs u = (rows, tot, cnt)"
  shows "cnt = length (filter (\<lambda>e. edge_user e = u \<and> edge_level e \<in> set screen_levels) es) \<and>
         tot = sum_list (map cm_amount (filter (\<lambda>r. cm_user r = u \<and> cm_level r \<in> set screen_levels) rs))"
proof -
  have d: "distinct screen_levels" by (simp add: screen_levels_def)
  have "cnt = sum_list (map (\<lambda>l. length (filter (\<lambda>e. edge_user e = u \<and> edge_level e = l) es)) screen_levels)"
    using assms by (simp add: load_referral_data_def level_count_def comp_def)
  also have "\<dots> = sum_list (map (\<lambda>l. sum_list (map (\<lambda>_. 1::nat)
           (filter (\<lambda>e. edge_user e = u \<and> edge_level e = l) es))) screen_levels)"
    by (simp only: sum_list_ones)
  also have "\<dots> = length (filter (\<lambda>e. edge_user e = u \<and> edge_level e \<in> set screen_levels) es)"
    using sum_list_by_key [OF d, of "\<lambda>_. 1::nat" "\<lambda>e. edge_user e = u" edge_level es]
    by (simp only: sum_list_ones)
  finally have c: "cnt = length (filter (\<lambda>e. edge_user e = u \<and> edge_level e \<in> set screen_levels) es)" .
  have "tot = sum_list (map (\<lambda>l. sum_list (map cm_amount
           (filter (\<lambda>r. cm_user r = u \<and> cm_level r = l) rs))) screen_levels)"
    using assms by (simp add: load_referral_data_def level_commission_def comp_def)
  also have "\<dots> = sum_list (map cm_amount (filter (\<lambda>r. cm_user r = u \<and> cm_level r \<in> set screen_levels) rs))"
    by (rule sum_list_by_key [OF d])
  finally show ?thesis using c by simp
qed

lemma screen_levels_cap: "1 \<le> l \<Longrightarrow> l \<le> referral_cap \<Longrightarrow> l \<in> set screen_levels"
  by (simp add: screen_levels_def referral_cap_def)

lemma branching_graph_reach: "ref_reach branching_graph"
  unfolding branching_graph_def
  by (intro ref_reach_projr ref_init) (simp_all add: register_referral_def empty_graph_def)

lemma branching_tree_eval:
  "th_nodes (build_tree_structure (tree_query branching_graph example_profiles 1)) =
     [\<lparr>tn_id = 2, tn_name = ''Member'', tn_phone = ''N/A'', tn_level = 1, tn_children = [2]\<rparr>,
      \<lparr>tn_id = 4, tn_name = ''Member'', tn_phone = ''N/A'', tn_level = 1, tn_children = []\<rparr>,
      \<lparr>tn_id = 5, tn_name = ''Member'', tn_phone = ''N/A'', tn_level = 2, tn_children = []\<rparr>]"
  by (simp add: build_tree_structure_def tree_query_def branching_graph_def register_referral_def
      empty_graph_def cascade_edges_def referral_cap_def example_profiles_def empty_heap_def
      new_tree_node_def js_map_set_def js_or_string_def)

lemma tree_query_heap_ok:
  assumes "ref_reach g" "prof_ok prof"
  shows "heap_ok (th_nodes (build_tree_structure (tree_query g prof u))) \<and>
         (\<forall>b < length (th_nodes (build_tree_structure (tree_query g prof u))).
            tn_level (th_nodes (build_tree_structure (tree_query g prof u)) ! b) \<le> referral_cap)"
proof -
  let ?R = "tree_query g prof u"
  have rows: "key_level_unique ?R" "\<forall>r \<in> set ?R. tr_level r \<le> referral_cap"
    using tree_query_rows [OF assms] by auto
  then show ?thesis using build_tree_ok [OF rows(1)] by fastforce
qed

theorem tree_count_children_total:
  assumes "ref_reach g" "prof_ok prof"
    and "a < length (th_nodes (build_tree_structure (tree_query g prof u)))"
  shows "\<exists>n. count_children (Suc referral_cap) (th_nodes (build_tree_structure (tree_query g prof u))) a = Some n"
proof -
  have "referral_cap < tn_level (th_nodes (build_tree_structure (tree_query g prof u)) ! a) + Suc referral_cap"
    by simp
  then show ?thesis
    using count_children_enough [of _ referral_cap, OF _ _ assms(3)] tree_query_heap_ok [OF assms(1,2)] by blast
qed

theorem tree_count_children_total_witness:
  "prof_ok example_profiles \<and>
   count_children (Suc referral_cap) (th_nodes (build_tree_structure (tree_query branching_graph example_profiles 1))) 0 = Some 1"
proof -
  have p: "prof_ok example_profiles" by (simp add: prof_ok_def example_profiles_def)
  have "(0::nat) < length (th_nodes (build_tree_structure (tree_query branching_graph example_profiles 1)))"
    unfolding branching_tree_eval by simp
  then obtain n where "count_children (Suc referral_cap)
      (th_nodes (build_tree_structure (tree_query branching_graph example_profiles 1))) 0 = Some n"
    using tree_count_children_total [OF branching_graph_reach p] by blast
  then show ?thesis using p unfolding branching_tree_eval by (simp add: referral_cap_def eval_nat_numeral)
qed

theorem tree_misplaces_member:
  "referrer branching_graph 5 = Some 4 \<and>
   (let ns = th_nodes (build_tree_structure (tree_query branching_graph example_profiles 1)) in
      tn_id (ns ! 0) = 2 \<and> tn_id (ns ! 1) = 4 \<and> tn_id (ns ! 2) = 5 \<and>
      tn_children (ns ! 0) = [2] \<and> tn_children (ns ! 1) = [])"
  unfolding Let_def branching_tree_eval
  by (simp add: branching_graph_def register_referral_def empty_graph_def)

text \<open>C19: on reachable graphs and commission states, the referrals screen totals equal the user's number of edges and referral balance gain.\<close>

theorem referrals_screen_totals:
  assumes "ref_reach g" "comm_reach base st"
    and "load_referral_data {} {} (ref_edges g) (cm_records st) u = (rows, tot, cnt)"
  shows "cnt = length (filter (\<lambda>e. edge_user e = u) (ref_edges g)) \<and>
         tot = referral_of (cm_wallets st) u - referral_of base u"
proof -
  have t: "cnt = length (filter (\<lambda>e. edge_user e = u \<and> edge_level e \<in> set screen_levels) (ref_edges g))"
    "tot = sum_list (map cm_amount (filter (\<lambda>r. cm_user r = u \<and> cm_level r \<in> set screen_levels) (cm_records st)))"
    using load_referral_data_totals [OF assms(3)] by auto
  have "\<forall>e \<in> set (ref_edges g). edge_level e \<in> set screen_levels"
    using ref_reach_inv [OF assms(1)] screen_levels_cap by (auto simp: ref_inv_def edge_ok_def)
  then have "cnt = length (filter (\<lambda>e. edge_user e = u) (ref_edges g))"
    using t(1) by (metis (mono_tags, lifting) filter_cong)
  moreover have "\<forall>r \<in> set (cm_records st). cm_level r \<in> set screen_levels"
    using comm_reach_levels [OF assms(2)] screen_levels_cap by blast
  then have "tot = commission_total (cm_records st) u"
    using t(2) unfolding commission_total_def by (metis (mono_tags, lifting) filter_cong)
  ultimately show ?thesis using comm_reach_inv [OF assms(2)] by (simp add: commission_inv_def)
qed

theorem referrals_screen_totals_witness:
  "fst (snd (load_referral_data {} {} (ref_edges example_graph) (cm_records example_ledger_state) 2)) = 100 \<and>
   snd (snd (load_referral_data {} {} (ref_edges example_graph) (cm_records example_ledger_state) 2)) = 1"
proof -
  let ?L = "load_referral_data {} {} (ref_edges example_graph) (cm_records example_ledger_state) 2"
  have l: "?L = (fst ?L, fst (snd ?L), snd (snd ?L))" by simp
  have r: "referral_of (cm_wallets example_ledger_state) 2 = 100"
    by (simp add: example_ledger_state_def run_commission_def on_qualifying_payment_def
        example_comm_state_def example_graph_eval ancestors_of_def round2_def js_round_def
        credit_def recompute_total_def referral_of_def new_wallet_def)
  show ?thesis
    using referrals_screen_totals [OF example_graph_reach example_ledger_state_reach l] r
    by (simp add: example_graph_eval referral_of_def example_comm_state_def new_wallet_def)
qed

theorem home_referrals_divergence:
  "fst (home_referral_stats (ref_edges example_graph) [] 1) = 1 \<and>
   snd (snd (load_referral_data {} {} (ref_edges example_graph) [] 1)) = 2"
  by (simp add: home_referral_stats_def load_referral_data_def level_count_def level_commission_def
      screen_levels_def example_graph_eval upt_rec)

theorem referrals_failed_query_silent:
  "rs_total_referrals (referrals_load_data (Some 1) None {1} {} False (ref_edges example_graph) [] initial_referrals_screen) = 1 \<and>
   rs_loading (referrals_load_data (Some 1) None {1} {} False (ref_edges example_graph) [] initial_referrals_screen) = False \<and>
   length (filter (\<lambda>e. edge_user e = 1) (ref_edges example_graph)) = 2"
  by (simp add: referrals_load_data_def load_referral_data_def level_count_def level_commission_def
      load_level_config_def load_recent_commissions_def initial_referrals_screen_def
      screen_levels_def example_graph_eval upt_rec)

end
