(* ===== verification/Home.thy ===== *)
theory Home
  imports View Ledger ReferralViews
begin

text \<open>
  The home tab, \<open>src/app/(tabs)/index.tsx\<close>.  Its state (\<open>home_state\<close>) is the component
  state of \<open>HomeScreen\<close>: the wallet (initialised to zeros, replaced only when a row is
  found), the active subscription joined with its plan, the referral statistics, the latest
  gold rate, the refresh flag, the account modal and the account picked in it.
  \<open>home_load\<close> is \<open>loadData\<close> over the ledger tables and the referral tables; the view is
  split along the cards of the JSX.  The account card and the modal read the hard-coded
  \<open>DUMMY_ACCOUNTS\<close> (\<open>dummy_accounts\<close>), not the account context.  A subscription whose
  plan join is empty makes \<open>subscription.plan.name\<close> throw during rendering: the plan card
  and the whole view are then \<open>None\<close>.
\<close>

record dummy_account =
  da_id :: string
  da_name :: string
  da_number :: string
  da_primary :: bool
  da_kyc :: bool
  da_icon :: glyph

definition dummy_accounts :: "dummy_account list" where
  "dummy_accounts =
     [\<lparr>da_id = ''1'', da_name = ''Primary Account'', da_number = ''INV111111-001'', da_primary = True,
       da_kyc = True, da_icon = Crown\<rparr>,
      \<lparr>da_id = ''2'', da_name = ''Wife's Gold Savings'', da_number = ''INV111111-002'', da_primary = False,
       da_kyc = True, da_icon = Briefcase\<rparr>,
      \<lparr>da_id = ''3'', da_name = ''Children's Education'', da_number = ''INV111111-003'', da_primary = False,
       da_kyc = True, da_icon = Briefcase\<rparr>,
      \<lparr>da_id = ''4'', da_name = ''Business Investment'', da_number = ''INV111111-004'', da_primary = False,
       da_kyc = False, da_icon = Briefcase\<rparr>]"

record home_state =
  hm_wallet :: wallet
  hm_sub :: "(subscription \<times> plan option) option"
  hm_ref_stats :: "nat \<times> money"
  hm_rate :: "gold_rate option"
  hm_refreshing :: bool
  hm_modal :: bool
  hm_selected :: dummy_account

definition initial_home :: home_state where
  "initial_home =
     \<lparr>hm_wallet = new_wallet, hm_sub = None, hm_ref_stats = (0, 0), hm_rate = None,
      hm_refreshing = False, hm_modal = False, hm_selected = hd dummy_accounts\<rparr>"

definition home_load ::
  "profile option \<Rightarrow> ledger_db \<Rightarrow> ref_edge list \<Rightarrow> commission list \<Rightarrow> home_state \<Rightarrow> home_state" where
  "home_load prof db es cms st =
     (case prof of
        None \<Rightarrow> st
      | Some p \<Rightarrow>
          (let u = prof_id p;
               st1 = (case wallets db u of None \<Rightarrow> st | Some w \<Rightarrow> st\<lparr>hm_wallet := w\<rparr>);
               st2 = (case load_subscription db u of None \<Rightarrow> st1 | Some sp \<Rightarrow> st1\<lparr>hm_sub := Some sp\<rparr>);
               st3 = st2\<lparr>hm_ref_stats := home_referral_stats es cms u\<rparr>
           in case latest_rate (gold_rates db) of None \<Rightarrow> st3 | Some r \<Rightarrow> st3\<lparr>hm_rate := Some r\<rparr>))"

datatype home_event = HomeRefresh | OpenAccountModal | CloseAccountModal | PickAccount dummy_account
  | HomeToPlans | HomeToReferrals | ModalToAccounts

definition home_header :: "profile option \<Rightarrow> home_state \<Rightarrow> home_event widget list" where
  "home_header prof st =
     [Text [Str ''Welcome back,''], Text [Str (js_or_string (map_option prof_name prof) ''Demo User'')]] @
     (case hm_rate st of
        None \<Rightarrow> []
      | Some r \<Rightarrow> [Text [Str ''Today's Gold Rate''], Text [Glyph RupeeSign, Num (rate_per_gram r), Str ''/g'']])"

definition home_account_card :: "home_state \<Rightarrow> home_event widget list" where
  "home_account_card st =
     [Button [Text [Glyph (da_icon (hm_selected st))], Text [Str ''Current Account''],
              Text [Str (da_name (hm_selected st))], Text [Str (da_number (hm_selected st))]] OpenAccountModal]"

definition home_wallet_card :: "home_state \<Rightarrow> home_event widget list" where
  "home_wallet_card st =
     (let w = hm_wallet st in
      [Text [Str ''Total Balance''], Text [Glyph RupeeSign, Fixed 2 (total_balance w)],
       Text [Str ''Savings''], Text [Glyph RupeeSign, Fixed 2 (saving_balance w)],
       Text [Str ''Referral Income''], Text [Glyph RupeeSign, Fixed 2 (referral_balance w)],
       Text [Str ''Gold Holdings''], Text [Fixed 3 (gold_balance_mg w / 1000), Str '' grams''],
       Text [Str ''('', Fixed 3 (gold_balance_mg w), Str '' mg)'']] @
      (case hm_rate st of
         None \<Rightarrow> []
       | Some r \<Rightarrow>
           [Text [Str ''Current Value''], Text [Glyph RupeeSign, Fixed 2 (gold_balance_mg w / 1000 * rate_per_gram r)],
            Text [Str ''@ '', Glyph RupeeSign, Num (rate_per_gram r), Str ''/g'']]))"

definition home_plan_card :: "home_state \<Rightarrow> home_event widget list option" where
  "home_plan_card st =
     (case hm_sub st of
        None \<Rightarrow> Some [Text [Str ''No Active Plan''], Text [Str ''Start your gold saving journey today!''],
                      Button [Text [Str ''View Plans'']] HomeToPlans]
      | Some (s, None) \<Rightarrow> None
      | Some (s, Some pl) \<Rightarrow>
          Some [Text [Str ''Active Plan''], Text [Str (plan_name pl)],
                Text [Str ''Monthly''], Text [Glyph RupeeSign, Num (monthly_amount pl)],
                Text [Str ''Total Paid''], Text [Glyph RupeeSign, Fixed 2 (total_paid s)],
                Button [Text [Str ''Make Payment'']] HomeToPlans])"

definition home_earnings :: "home_state \<Rightarrow> home_event widget list" where
  "home_earnings st =
     (let w = hm_wallet st in
      [Text [Str ''My Earnings''],
       Text [Str ''Total Earnings''], Text [Glyph RupeeSign, Fixed 2 (total_earnings w)],
       Text [Str ''Available Balance''], Text [Glyph RupeeSign, Fixed 2 (referral_balance w)],
       Text [Str ''Total Withdrawn''], Text [Glyph RupeeSign, Fixed 2 (total_withdrawn w)],
       Text [Str ''Referral Income''], Text [Glyph RupeeSign, Fixed 2 (snd (hm_ref_stats st))]])"

definition home_referral_card :: "profile option \<Rightarrow> home_state \<Rightarrow> home_event widget list" where
  "home_referral_card prof st =
     [Text [Str ''Referral Stats''],
      Text [NatF (fst (hm_ref_stats st))], Text [Str ''Total Referrals''],
      Text [Glyph RupeeSign, Fixed 2 (snd (hm_ref_stats st))], Text [Str ''Total Commission''],
      Button [Text [Str ''View Details'']] HomeToReferrals,
      Text [Str ''Your Referral Code''], Text [Str (js_or_string (map_option prof_code prof) ''REF000000'')],
      Text [Str ''Share this code to earn commissions'']]"

definition modal_item :: "home_state \<Rightarrow> dummy_account \<Rightarrow> home_event widget" where
  "modal_item st a =
     (let b = Button ([Text [Glyph (da_icon a)], Text [Str (da_name a)], Text [Str (da_number a)]] @
                      (if da_primary a then [Text [Str ''PRIMARY'']] else []) @
                      [Text [Str (if da_kyc a then ''Verified'' else ''Pending'')]] @
                      (if da_id (hm_selected st) = da_id a then [Text [Glyph CheckMark]] else []))
                     (PickAccount a)
      in if da_id (hm_selected st) = da_id a then Highlight [b] else b)"

definition home_modal :: "home_state \<Rightarrow> home_event widget list" where
  "home_modal st =
     (if \<not> hm_modal st then []
      else [Text [Str ''Switch Account''], Button [Text [Glyph CloseMark]] CloseAccountModal,
            Text [NatF (length dummy_accounts), Str '' of 10 accounts '', Glyph Bullet, Str '' Each account is independent'']] @
           map (modal_item st) dummy_accounts @
           [Button [Text [Str ''Create New Account''], Text [NatF (10 - length dummy_accounts), Str '' slots available'']]
              ModalToAccounts,
            Button [Text [Str ''Manage All Accounts'']] ModalToAccounts])"

definition home_view :: "profile option \<Rightarrow> home_state \<Rightarrow> home_event widget list option" where
  "home_view prof st =
     (case home_plan_card st of
        None \<Rightarrow> None
      | Some plan \<Rightarrow>
          Some (home_header prof st @ home_account_card st @ home_wallet_card st @ plan @
                home_earnings st @ home_referral_card prof st @ home_modal st))"

definition home_step :: "profile option \<Rightarrow> ledger_db \<Rightarrow> ref_edge list \<Rightarrow> commission list \<Rightarrow>
    home_event \<Rightarrow> home_state \<Rightarrow> home_state \<times> route option" where
  "home_step prof db es cms e st =
     (case e of
        HomeRefresh \<Rightarrow> ((home_load prof db es cms st)\<lparr>hm_refreshing := False\<rparr>, None)
      | OpenAccountModal \<Rightarrow> (st\<lparr>hm_modal := True\<rparr>, None)
      | CloseAccountModal \<Rightarrow> (st\<lparr>hm_modal := False\<rparr>, None)
      | PickAccount a \<Rightarrow> (st\<lparr>hm_selected := a, hm_modal := False\<rparr>, None)
      | HomeToPlans \<Rightarrow> (st, Some ToPlans)
      | HomeToReferrals \<Rightarrow> (st, Some ToReferrals)
      | ModalToAccounts \<Rightarrow> (st\<lparr>hm_modal := False\<rparr>, Some ToAccounts))"

definition home_sub_ok :: "home_state \<Rightarrow> bool" where
  \<comment> \<open>the loaded subscription carries its plan\<close>
  "home_sub_ok st \<longleftrightarrow> (case hm_sub st of None \<Rightarrow> True | Some (s, opl) \<Rightarrow> opl \<noteq> None)"

inductive home_reach :: "profile option \<Rightarrow> ref_edge list \<Rightarrow> commission list \<Rightarrow> home_state \<Rightarrow> bool"
  for prof es cms where
  home_mount: "ledger_inv db \<Longrightarrow> home_reach prof es cms (home_load prof db es cms initial_home)"
| home_press: "home_reach prof es cms st \<Longrightarrow> home_view prof st = Some ws \<Longrightarrow> e \<in> set (view_events ws) \<Longrightarrow>
    ledger_inv db \<Longrightarrow> home_reach prof es cms (fst (home_step prof db es cms e st))"

definition example_home_profile :: profile where
  "example_home_profile = \<lparr>prof_id = 1, prof_phone = ''9876543210'', prof_name = ''Asha'', prof_aadhar = [],
     prof_pan = [], prof_code = ''REF100001'', prof_referred_by = None, prof_active = True, prof_kyc = False\<rparr>"

lemma home_load_sub:
  "hm_sub (home_load (Some p) db es cms st) =
     (case load_subscription db (prof_id p) of None \<Rightarrow> hm_sub st | Some sp \<Rightarrow> Some sp)"
  by (simp add: home_load_def Let_def del: latest_rate_None_iff split: option.split)

lemma load_subscription_has_plan:
  assumes "ledger_inv db" "load_subscription db u = Some (s, opl)"
  shows "opl \<noteq> None"
proof -
  have "s \<in> set (subscriptions db)" "opl = plan_of db s"
    using load_subscription_Some [OF assms(2)] by blast+
  moreover have "sub_consistent db s" using calculation(1) assms(1) by (auto simp: ledger_inv_def)
  ultimately show ?thesis by (auto simp: sub_consistent_def split: option.splits)
qed

lemma home_sub_ok_load:
  assumes "ledger_inv db" "home_sub_ok st"
  shows "home_sub_ok (home_load prof db es cms st)"
proof (cases prof)
  case (Some p)
  show ?thesis
  proof (cases "load_subscription db (prof_id p)")
    case None
    then show ?thesis using Some assms(2) by (simp add: home_sub_ok_def home_load_sub)
  next
    case (Some sp)
    then show ?thesis using \<open>prof = Some p\<close> load_subscription_has_plan [OF assms(1)]
      by (cases sp) (auto simp: home_sub_ok_def home_load_sub)
  qed
qed (simp add: home_load_def assms(2))

lemma home_view_Some: "home_sub_ok st \<Longrightarrow> home_view prof st \<noteq> None"
  by (auto simp: home_view_def home_plan_card_def home_sub_ok_def split: option.splits)

lemma home_load_selected [simp]: "hm_selected (home_load prof db es cms st) = hm_selected st"
  by (simp add: home_load_def Let_def split: option.splits)

lemma home_cards_no_pick:
  "PickAccount a \<notin> set (view_events (home_header prof st @ home_account_card st @ home_wallet_card st @
                                      home_earnings st @ home_referral_card prof st))"
  by (cases "hm_rate st")
     (simp_all add: view_events_def home_header_def home_account_card_def home_wallet_card_def home_earnings_def
      home_referral_card_def Let_def)

lemma home_plan_card_no_pick: "home_plan_card st = Some pc \<Longrightarrow> PickAccount a \<notin> set (view_events pc)"
  by (auto simp: home_plan_card_def view_events_def split: option.splits)

lemma home_pick_from_dummy:
  assumes "home_view prof st = Some ws" "PickAccount a \<in> set (view_events ws)"
  shows "a \<in> set dummy_accounts"
proof -
  obtain pc where pc: "home_plan_card st = Some pc"
    and ws: "ws = home_header prof st @ home_account_card st @ home_wallet_card st @ pc @
                  home_earnings st @ home_referral_card prof st @ home_modal st"
    using assms(1) by (auto simp: home_view_def split: option.splits)
  have "PickAccount a \<in> set (view_events (home_modal st))"
    using assms(2) home_cards_no_pick [of a prof st] home_plan_card_no_pick [OF pc, of a] unfolding ws
    by auto
  then show ?thesis
    by (auto simp: home_modal_def view_events_def modal_item_def Let_def split: if_splits)
qed


lemma home_step_inv:
  assumes "home_sub_ok st" "hm_selected st \<in> set dummy_accounts" "ledger_inv db"
    and "home_view prof st = Some ws" "e \<in> set (view_events ws)"
  shows "home_sub_ok (fst (home_step prof db es cms e st)) \<and>
         hm_selected (fst (home_step prof db es cms e st)) \<in> set dummy_accounts"
proof (cases e)
  case HomeRefresh
  then show ?thesis using home_sub_ok_load [OF assms(3,1)] assms(2)
    by (simp add: home_step_def home_sub_ok_def)
next
  case (PickAccount a)
  then show ?thesis using home_pick_from_dummy [OF assms(4)] assms(1,5)
    by (simp add: home_step_def home_sub_ok_def)
qed (use assms(1,2) in \<open>simp_all add: home_step_def home_sub_ok_def\<close>)

lemma home_reach_inv:
  "home_reach prof es cms st \<Longrightarrow> home_sub_ok st \<and> hm_selected st \<in> set dummy_accounts"
proof (induction rule: home_reach.induct)
  case (home_mount db)
  have "home_sub_ok initial_home" by (simp add: home_sub_ok_def initial_home_def)
  then show ?case using home_sub_ok_load [OF home_mount]
    by (simp add: initial_home_def dummy_accounts_def)
next
  case (home_press st ws e db)
  then show ?case using home_step_inv by blast
qed

lemma dummy_ids_unique: "a \<in> set dummy_accounts \<Longrightarrow> length (filter (\<lambda>b. da_id a = da_id b) dummy_accounts) = 1"
  by (auto simp: dummy_accounts_def)

lemma home_modal_highlights:
  assumes "hm_selected st \<in> set dummy_accounts"
  shows "length (filter is_highlight (home_modal st)) = (if hm_modal st then 1 else 0)"
proof -
  have "filter is_highlight (map (modal_item st) dummy_accounts) =
        map (modal_item st) (filter (\<lambda>b. da_id (hm_selected st) = da_id b) dummy_accounts)"
    by (simp add: filter_map comp_def modal_item_def Let_def)
  then show ?thesis using dummy_ids_unique [OF assms] by (simp add: home_modal_def)
qed

text \<open>C24: every reachable home screen renders, shows a hard-coded account as current and highlights exactly one account in the open modal.\<close>

theorem home_reach_consistent:
  assumes "home_reach prof es cms st"
  shows "home_view prof st \<noteq> None \<and> hm_selected st \<in> set dummy_accounts \<and>
         length (filter is_highlight (home_modal st)) = (if hm_modal st then 1 else 0)"
  using home_reach_inv [OF assms] home_view_Some home_modal_highlights by blast

theorem home_reach_consistent_witness:
  "home_view None (fst (home_step None (init_ledger [] [] Map.empty) [] [] OpenAccountModal initial_home)) \<noteq> None \<and>
   length (filter is_highlight (home_modal (fst (home_step None (init_ledger [] [] Map.empty) [] [] OpenAccountModal initial_home)))) = 1"
proof -
  have r0: "home_reach None [] [] initial_home"
    using home_mount [of "init_ledger [] [] Map.empty" None "[]" "[]"] ledger_inv_init by (simp add: home_load_def)
  have "home_view None initial_home = Some (the (home_view None initial_home))"
    by (simp add: home_view_def home_plan_card_def initial_home_def)
  moreover have "OpenAccountModal \<in> set (view_events (the (home_view None initial_home)))"
    by (simp add: home_view_def home_plan_card_def initial_home_def view_events_def home_account_card_def)
  ultimately have "home_reach None [] []
      (fst (home_step None (init_ledger [] [] Map.empty) [] [] OpenAccountModal initial_home))"
    using home_press [OF r0 _ _ ledger_inv_init] by blast
  note home_reach_consistent [OF this]
  then show ?thesis by (simp add: home_step_def)
qed


lemma home_load_wallet:
  "wallets db (prof_id p) = Some w \<Longrightarrow> hm_wallet (home_load (Some p) db es cms st) = w"
  by (simp add: home_load_def Let_def del: latest_rate_None_iff split: option.split)

theorem home_gold_holdings:
  assumes "wallet_gold_ok db" "wallets db (prof_id p) = Some w"
  shows "Text [Fixed 3 (sum_list (map gold_milligrams (filter (\<lambda>q. pay_user q = prof_id p) (payments db))) / 1000),
               Str '' grams''] \<in> set (home_wallet_card (home_load (Some p) db es cms st))"
proof -
  have "gold_balance_mg w = sum_list (map gold_milligrams (filter (\<lambda>q. pay_user q = prof_id p) (payments db)))"
    using assms unfolding wallet_gold_ok_def by blast
  then show ?thesis using home_load_wallet [OF assms(2)] by (simp add: home_wallet_card_def Let_def)
qed

theorem home_gold_holdings_witness:
  "Text [Fixed 3 (sum_list (map gold_milligrams (filter (\<lambda>q. pay_user q = 1)
           (payments (init_ledger [] [] [1 \<mapsto> new_wallet])))) / 1000), Str '' grams'']
     \<in> set (home_wallet_card (home_load (Some example_home_profile) (init_ledger [] [] [1 \<mapsto> new_wallet]) [] [] initial_home))"
proof -
  have "wallet_gold_ok (init_ledger [] [] [1 \<mapsto> new_wallet])"
    by (simp add: wallet_gold_ok_def init_ledger_def new_wallet_def)
  from home_gold_holdings [OF this, of example_home_profile new_wallet]
  show ?thesis by (simp add: example_home_profile_def init_ledger_def)
qed

end
