(* ===== verification/Transactions.thy ===== *)
theory Transactions
  imports View Ledger
begin

text \<open>
  The transactions tab, \<open>src/app/(tabs)/transactions.tsx\<close>.  \<open>loadData\<close> reads the user's
  payments, newest first, and, when the user has an active subscription, builds the monthly
  schedule: one entry per month 1..\<open>payment_months\<close>, paid when a monthly payment of that
  month exists (the first one in month order), pending otherwise.  A subscription whose plan
  join is empty makes \<open>plan.payment_months\<close> throw after the payments were stored, so the
  schedule keeps its previous value.  The payment rows of the ledger have no creation time;
  the screen's \<open>created_at\<close> column is the parameter \<open>created\<close>.  The schedule is shown to
  agree with the ledger: on a consistent ledger the first \<open>n\<close> months are paid, where
  \<open>n\<close> is the number of monthly payments, and the rest are pending.
\<close>

datatype sched_status = SchedPaid | SchedPending

record sched_item =
  si_month :: nat
  si_amount :: money
  si_gold :: money
  si_status :: sched_status
  si_date :: "nat option"

record tx_state =
  tx_payments :: "payment list"
  tx_schedule :: "sched_item list"
  tx_refreshing :: bool

definition initial_tx :: tx_state where
  "initial_tx = \<lparr>tx_payments = [], tx_schedule = [], tx_refreshing = False\<rparr>"

definition user_payments :: "(row_id \<Rightarrow> nat) \<Rightarrow> ledger_db \<Rightarrow> uid \<Rightarrow> payment list" where
  \<comment> \<open>\<open>.eq('user_id', profile.id).order('created_at', { ascending: false })\<close>\<close>
  "user_payments created db u = sort_key (\<lambda>p. - int (created (pay_id p))) (filter (\<lambda>p. pay_user p = u) (payments db))"

definition schedule_item :: "(row_id \<Rightarrow> nat) \<Rightarrow> plan \<Rightarrow> payment list \<Rightarrow> nat \<Rightarrow> sched_item" where
  "schedule_item created pl ps i =
     (case find (\<lambda>p. month_number p = i) ps of
        None \<Rightarrow> \<lparr>si_month = i, si_amount = monthly_amount pl, si_gold = 0, si_status = SchedPending, si_date = None\<rparr>
      | Some p \<Rightarrow> \<lparr>si_month = i, si_amount = monthly_amount pl, si_gold = gold_milligrams p, si_status = SchedPaid,
                  si_date = Some (created (pay_id p))\<rparr>)"

definition build_schedule :: "(row_id \<Rightarrow> nat) \<Rightarrow> plan \<Rightarrow> payment list \<Rightarrow> sched_item list" where
  "build_schedule created pl ps = map (schedule_item created pl ps) [1..<Suc (payment_months pl)]"

definition tx_load :: "(row_id \<Rightarrow> nat) \<Rightarrow> uid option \<Rightarrow> ledger_db \<Rightarrow> tx_state \<Rightarrow> tx_state" where
  "tx_load created prof db st =
     (case prof of
        None \<Rightarrow> st
      | Some u \<Rightarrow>
          (let st1 = st\<lparr>tx_payments := user_payments created db u\<rparr> in
           case load_subscription db u of
             None \<Rightarrow> st1
           | Some (s, None) \<Rightarrow> st1
           | Some (s, Some pl) \<Rightarrow> st1\<lparr>tx_schedule := build_schedule created pl (load_payments db (sub_id s))\<rparr>))"

datatype tx_event = TxRefresh

definition payment_type_label :: "payment_type \<Rightarrow> string" where
  "payment_type_label t = (case t of MonthlyPayment \<Rightarrow> ''Monthly Payment'' | BonusPayment \<Rightarrow> ''Bonus Gold'')"

definition payment_status_text :: "payment_status \<Rightarrow> string" where
  "payment_status_text s =
     (case s of Pending \<Rightarrow> ''pending'' | PaymentCompleted \<Rightarrow> ''completed'' | PaymentFailed \<Rightarrow> ''failed'')"

definition schedule_widget :: "sched_item \<Rightarrow> tx_event widget list" where
  \<comment> \<open>a paid month is drawn with the highlighted style\<close>
  "schedule_widget it =
     (let body = Text [Str ''Month '', NatF (si_month it)] #
                 (if si_status it = SchedPaid
                  then [Text [Glyph RupeeSign, Num (si_amount it)], Text [Fixed 3 (si_gold it), Str ''mg'']] @
                       (case si_date it of None \<Rightarrow> [] | Some d \<Rightarrow> [Text [DateF d]])
                  else [Text [Str ''Pending'']])
      in if si_status it = SchedPaid then [Highlight body] else body)"

definition transaction_widgets :: "(row_id \<Rightarrow> nat) \<Rightarrow> payment \<Rightarrow> tx_event widget list" where
  "transaction_widgets created p =
     [Text [Str (payment_type_label (payment_type p))], Text [DateF (created (pay_id p))],
      Text [Glyph RupeeSign, Num (amount p)], Text [Fixed 3 (gold_milligrams p), Str ''mg''],
      Text [Str ''Gold Rate''], Text [Glyph RupeeSign, Num (gold_rate p), Str ''/g'']] @
     (if payment_type p = MonthlyPayment then [Text [Str ''Month''], Text [NatF (month_number p)]] else []) @
     [Text [Str ''Status''], Text [Str (payment_status_text (pay_status p))]]"

definition tx_view :: "(row_id \<Rightarrow> nat) \<Rightarrow> tx_state \<Rightarrow> tx_event widget list" where
  "tx_view created st =
     [Text [Str ''Transactions''], Text [Str ''Your purchase history'']] @
     (if tx_schedule st = [] then []
      else Text [Str ''Monthly Schedule''] # concat (map schedule_widget (tx_schedule st))) @
     [Text [Str ''All Transactions'']] @
     (if tx_payments st = []
      then [Text [Str ''No transactions yet''], Text [Str ''Your purchase history will appear here'']]
      else concat (map (transaction_widgets created) (tx_payments st)))"

definition tx_step :: "(row_id \<Rightarrow> nat) \<Rightarrow> uid option \<Rightarrow> ledger_db \<Rightarrow> tx_event \<Rightarrow> tx_state \<Rightarrow> tx_state" where
  "tx_step created prof db e st = (case e of TxRefresh \<Rightarrow> (tx_load created prof db st)\<lparr>tx_refreshing := False\<rparr>)"


lemma schedule_item_status:
  "si_status (schedule_item created pl ps i) = (if \<exists>p \<in> set ps. month_number p = i then SchedPaid else SchedPending)"
proof (cases "find (\<lambda>p. month_number p = i) ps")
  case None
  then have "\<not> (\<exists>p \<in> set ps. month_number p = i)" by (simp add: find_None_iff)
  then show ?thesis using None by (simp add: schedule_item_def)
next
  case (Some p)
  then have "p \<in> set ps \<and> month_number p = i" by (auto simp: find_Some_iff)
  then show ?thesis using Some by (auto simp: schedule_item_def)
qed

lemma schedule_item_month [simp]: "si_month (schedule_item created pl ps i) = i"
  by (simp add: schedule_item_def split: option.split)

lemma map_const_on: "(\<And>x. x \<in> set xs \<Longrightarrow> f x = c) \<Longrightarrow> map f xs = replicate (length xs) c"
  by (induction xs) auto

lemma consistent_months:
  assumes "ledger_inv db" "load_subscription db u = Some (s, Some pl)"
  shows "month_number ` set (load_payments db (sub_id s)) = {1..<Suc (length (monthly_of (payments db) (sub_id s)))}
         \<and> length (monthly_of (payments db) (sub_id s)) \<le> payment_months pl"
proof -
  have s: "s \<in> set (subscriptions db)" "plan_of db s = Some pl"
    using load_subscription_Some [OF assms(2)] by auto
  then have "sub_consistent db s" using assms(1) by (auto simp: ledger_inv_def)
  then have "map month_number (monthly_of (payments db) (sub_id s)) = [1..<Suc (length (monthly_of (payments db) (sub_id s)))]
         \<and> length (monthly_of (payments db) (sub_id s)) \<le> payment_months pl"
    using s(2) by (simp add: sub_consistent_def Let_def)
  then show ?thesis by (metis list.set_map set_upt load_payments_def set_sort)
qed

text \<open>C25: the transactions schedule shows exactly the first n months paid, n the number of monthly payments in the ledger.\<close>

theorem tx_schedule_matches_ledger:
  assumes "ledger_inv db" "load_subscription db u = Some (s, Some pl)"
    and "n = length (monthly_of (payments db) (sub_id s))"
  shows "map si_month (tx_schedule (tx_load created (Some u) db st)) = [1..<Suc (payment_months pl)] \<and>
         map si_status (tx_schedule (tx_load created (Some u) db st)) =
           replicate n SchedPaid @ replicate (payment_months pl - n) SchedPending"
proof -
  let ?ps = "load_payments db (sub_id s)"
  have m: "month_number ` set ?ps = {1..<Suc n}" "n \<le> payment_months pl"
    using consistent_months [OF assms(1,2)] assms(3) by auto
  have st: "si_status (schedule_item created pl ?ps i) = (if i \<in> {1..<Suc n} then SchedPaid else SchedPending)" for i
    unfolding schedule_item_status m(1) [symmetric] by (simp add: image_iff eq_commute)
  have split: "[1..<Suc (payment_months pl)] = [1..<Suc n] @ [Suc n..<Suc (payment_months pl)]"
    using upt_add_eq_append [of 1 "Suc n" "payment_months pl - n"] m(2) by simp
  have "map si_status (build_schedule created pl ?ps) = replicate n SchedPaid @ replicate (payment_months pl - n) SchedPending"
  proof -
    have "map (\<lambda>i. si_status (schedule_item created pl ?ps i)) [1..<Suc n] = replicate n SchedPaid"
      using map_const_on [of "[1..<Suc n]" "\<lambda>i. si_status (schedule_item created pl ?ps i)" SchedPaid]
      by (simp add: st del: upt_Suc)
    moreover have "map (\<lambda>i. si_status (schedule_item created pl ?ps i)) [Suc n..<Suc (payment_months pl)] =
                   replicate (payment_months pl - n) SchedPending"
      using map_const_on [of "[Suc n..<Suc (payment_months pl)]" "\<lambda>i. si_status (schedule_item created pl ?ps i)" SchedPending]
      by (simp add: st del: upt_Suc)
    ultimately show ?thesis unfolding build_schedule_def split by (simp add: comp_def del: upt_Suc)
  qed
  moreover have "map si_month (build_schedule created pl ?ps) = [1..<Suc (payment_months pl)]"
    by (simp add: build_schedule_def comp_def)
  ultimately show ?thesis using assms(2) by (simp add: tx_load_def Let_def)
qed


theorem tx_schedule_matches_ledger_witness:
  "map si_status (tx_schedule (tx_load (\<lambda>i. i) (Some 1) (snd (pay_month {} 1 (example_subscribed ''p2''))) initial_tx)) =
     [SchedPaid]"
proof -
  let ?D = "snd (pay_month {} 1 (example_subscribed ''p2''))"
  have reach: "ledger_reach {} (init_ledger [example_plan, short_plan] example_rates example_wallets) ?D"
    unfolding example_subscribed_def example_ledger_def
    by (rule ledger_reach.step [OF ledger_reach.step [OF ledger_reach.refl ledger_step.subscribe] ledger_step.pay]) simp_all
  have inv: "ledger_inv ?D" using ledger_reach_inv [OF reach _ ledger_inv_init] by simp
  have n: "length (monthly_of (payments ?D) 0) = 1"
    by (simp add: example_defs ledger_eval js_add_months_def days_in_month_def leap_year_def monthly_of_def
        gold_credit_def payment_row_def)
  have "map si_status (tx_schedule (tx_load (\<lambda>i. i) (Some 1) ?D initial_tx)) =
          replicate 1 SchedPaid @ replicate (payment_months short_plan - 1) SchedPending"
    using tx_schedule_matches_ledger [OF inv example_completed_p2, of 1 "\<lambda>i. i" initial_tx] n by simp
  then show ?thesis by (simp add: short_plan_def)
qed

end
