(* ===== verification/Admin.thy ===== *)
theory Admin
  imports View Accounts ReferralViews
begin

text \<open>
  The admin area, \<open>src/app/admin/\<close>.
  \<^item> \<open>_layout.tsx\<close>: \<open>checkAdminAccess\<close> sends a visitor without a session to the login
    screen and one whose profile is not an admin to the root (\<open>check_admin_access\<close>).
  \<^item> \<open>index.tsx\<close>: the dashboard counts profiles, sums the \<open>transactions\<close> rows of type
    \<open>investment\<close>, counts pending withdrawal requests and active rows of the table
    \<open>subscriptions\<close>.  A failed query yields no data and counts as zero.  The payments
    and subscriptions the plans screen writes live in \<open>payments\<close> and
    \<open>user_subscriptions\<close>, which the dashboard never reads.
  \<^item> \<open>users.tsx\<close>: the profiles, newest first, joined with the e-mails of the auth admin
    API (absent for a client without the service key), the case-insensitive search and the
    role toggle.
  \<^item> \<open>transactions.tsx\<close>: the hundred newest \<open>transactions\<close> rows.
  \<^item> \<open>withdrawals.tsx\<close>: the requests, newest first, and the approve and reject buttons,
    shown for pending requests, whose update sets the status of the request with that id.
  Profiles carry both the \<open>phone\<close> and the \<open>phone_number\<close> columns that
  \<open>AuthContext.Profile\<close> declares.  The admin tables are a record \<open>admin_db\<close>; a failing query or update is an input.
\<close>

section \<open>Tables\<close>

record admin_profile =
  ap_id :: uid
  ap_name :: "string option"
  ap_phone :: "string option"
  ap_phone_number :: "string option"
  ap_admin :: bool
  ap_created :: nat

record admin_txn =
  at_id :: nat
  at_user :: uid
  at_type :: string
  at_amount :: money
  at_desc :: string
  at_created :: nat

datatype wd_status = WdPending | WdProcessing | WdCompleted | WdRejected

datatype wd_method = Upi | BankAccount

record withdrawal =
  wd_id :: nat
  wd_user :: uid
  wd_amount :: money
  wd_status :: wd_status
  wd_method :: wd_method
  wd_upi :: "string option"
  wd_bank :: "string option"
  wd_account :: "string option"
  wd_ifsc :: "string option"
  wd_holder :: "string option"
  wd_requested :: nat
  wd_processed :: "nat option"

record admin_db =
  ad_profiles :: "admin_profile list"
  ad_txns :: "admin_txn list"
  ad_withdrawals :: "withdrawal list"
  ad_subscription_status :: "string list"
  ad_wallets :: wallets

section \<open>Access guard\<close>

datatype admin_gate = GateLogin | GateRoot | GateShow

definition check_admin_access :: "uid option \<Rightarrow> bool \<Rightarrow> admin_db \<Rightarrow> admin_gate" where
  "check_admin_access user failed db =
     (case user of
        None \<Rightarrow> GateLogin
      | Some u \<Rightarrow>
          (if failed then GateRoot
           else case filter (\<lambda>p. ap_id p = u) (ad_profiles db) of
                  [p] \<Rightarrow> if ap_admin p then GateShow else GateRoot
                | [] \<Rightarrow> GateRoot
                | _ \<Rightarrow> GateRoot))"

section \<open>Dashboard\<close>

record admin_stats =
  st_users :: nat
  st_invested :: money
  st_pending :: nat
  st_active :: nat

definition query_count :: "bool \<Rightarrow> 'a list \<Rightarrow> nat" where
  \<comment> \<open>\<open>count || 0\<close>: a failed count query has no count\<close>
  "query_count failed xs = (if failed then 0 else length xs)"

definition load_stats :: "string set \<Rightarrow> admin_db \<Rightarrow> admin_stats" where
  "load_stats fails db =
     \<lparr>st_users = query_count (''profiles'' \<in> fails) (ad_profiles db),
      st_invested = (if ''transactions'' \<in> fails then 0
                     else sum_list (map at_amount (filter (\<lambda>t. at_type t = ''investment'') (ad_txns db)))),
      st_pending = query_count (''withdrawal_requests'' \<in> fails)
                     (filter (\<lambda>w. wd_status w = WdPending) (ad_withdrawals db)),
      st_active = query_count (''subscriptions'' \<in> fails)
                     (filter (\<lambda>s. s = ''active'') (ad_subscription_status db))\<rparr>"

datatype dash_event = DashLogout | DashRefresh | DashUsers | DashTransactions | DashWithdrawals

definition dashboard_view :: "admin_stats \<Rightarrow> dash_event widget list" where
  "dashboard_view st =
     [Text [Str ''Admin Dashboard''], Button [] DashLogout,
      Text [NatF (st_users st)], Text [Str ''Total Users''],
      Text [Glyph RupeeSign, Locale (st_invested st)], Text [Str ''Total Invested''],
      Text [NatF (st_pending st)], Text [Str ''Pending Withdrawals''],
      Text [NatF (st_active st)], Text [Str ''Active Plans''],
      Button [Text [Str ''Manage Users'']] DashUsers,
      Button [Text [Str ''Transactions'']] DashTransactions,
      Button [Text [Str ''Withdrawal Requests'']] DashWithdrawals]"

definition dashboard_step :: "string set \<Rightarrow> admin_db \<Rightarrow> dash_event \<Rightarrow> admin_stats \<Rightarrow> admin_stats \<times> route option" where
  "dashboard_step fails db e st =
     (case e of
        DashLogout \<Rightarrow> (st, Some ToLogin)
      | DashRefresh \<Rightarrow> (load_stats fails db, None)
      | DashUsers \<Rightarrow> (st, Some ToAdminUsers)
      | DashTransactions \<Rightarrow> (st, Some ToAdminTransactions)
      | DashWithdrawals \<Rightarrow> (st, Some ToAdminWithdrawals))"

section \<open>Transactions\<close>

definition load_admin_txns :: "bool \<Rightarrow> admin_db \<Rightarrow> admin_txn list \<Rightarrow> admin_txn list" where
  \<comment> \<open>\<open>.order('created_at', { ascending: false }).limit(100)\<close>; a failure keeps the list\<close>
  "load_admin_txns failed db old =
     (if failed then old else take 100 (sort_key (\<lambda>t. - int (at_created t)) (ad_txns db)))"

definition txn_type_icon :: "string \<Rightarrow> glyph" where
  \<comment> \<open>\<open>getTypeIcon\<close>; the colours of \<open>getTypeColor\<close> are style\<close>
  "txn_type_icon ty =
     (if ty = ''investment'' then ArrowDownIcon else if ty = ''withdrawal'' then ArrowUpIcon else DollarIcon)"

definition txn_widgets :: "admin_db \<Rightarrow> admin_txn \<Rightarrow> 'e widget list" where
  "txn_widgets db t =
     (let prof = find (\<lambda>p. ap_id p = at_user t) (ad_profiles db) in
      [Text [Glyph (txn_type_icon (at_type t))],
       Text [Str (js_or_string (case prof of None \<Rightarrow> None | Some p \<Rightarrow> ap_name p) ''Unknown User'')],
       Text [Str (case prof of None \<Rightarrow> [] | Some p \<Rightarrow> (case ap_phone p of None \<Rightarrow> [] | Some ph \<Rightarrow> ph))],
       Text [Str (at_desc t)], Text [DateF (at_created t)],
       Text [Glyph RupeeSign, Locale (at_amount t)], Text [Str (at_type t)]])"

datatype txns_event = TxsBack | TxsRefresh

definition txns_view :: "admin_db \<Rightarrow> admin_txn list \<Rightarrow> txns_event widget list" where
  \<comment> \<open>the header and the \<open>FlatList\<close>; pull to refresh is \<open>TxsRefresh\<close>\<close>
  "txns_view db ts = [Button [] TxsBack, Text [Str ''Transactions'']] @ concat (map (txn_widgets db) ts)"

definition txns_step :: "bool \<Rightarrow> admin_db \<Rightarrow> txns_event \<Rightarrow> admin_txn list \<Rightarrow> admin_txn list \<times> route option" where
  "txns_step failed db e ts =
     (case e of TxsBack \<Rightarrow> (ts, Some GoBack) | TxsRefresh \<Rightarrow> (load_admin_txns failed db ts, None))"

section \<open>Users\<close>

record user_row =
  ur_id :: uid
  ur_name :: "string option"
  ur_email :: string
  ur_phone :: "string option"
  ur_phone_number :: "string option"
  ur_admin :: bool
  ur_created :: nat

record users_state =
  us_users :: "user_row list"
  us_query :: string
  us_loading :: bool

definition js_lower_char :: "char \<Rightarrow> char" where
  "js_lower_char c =
     (case map_of (zip ''ABCDEFGHIJKLMNOPQRSTUVWXYZ'' ''abcdefghijklmnopqrstuvwxyz'') c of
        None \<Rightarrow> c
      | Some l \<Rightarrow> l)"

definition js_lower :: "string \<Rightarrow> string" where
  "js_lower s = map js_lower_char s"

definition user_row_of :: "auth_account list option \<Rightarrow> admin_profile \<Rightarrow> user_row" where
  \<comment> \<open>the object built by \<open>loadUsers\<close>: it has no \<open>phone\<close> key\<close>
  "user_row_of auth p =
     \<lparr>ur_id = ap_id p, ur_name = ap_name p,
      ur_email = (case auth of None \<Rightarrow> ''N/A''
                  | Some accs \<Rightarrow> (case find (\<lambda>a. acc_uid a = ap_id p) accs of
                                   None \<Rightarrow> ''N/A'' | Some a \<Rightarrow> js_or_string (Some (acc_email a)) ''N/A'')),
      ur_phone = None, ur_phone_number = ap_phone_number p, ur_admin = ap_admin p, ur_created = ap_created p\<rparr>"

definition load_users :: "bool \<Rightarrow> auth_account list option \<Rightarrow> admin_db \<Rightarrow> users_state \<Rightarrow> users_state" where
  "load_users failed auth db st =
     (if failed then st\<lparr>us_loading := False\<rparr>
      else st\<lparr>us_users := map (user_row_of auth) (sort_key (\<lambda>p. - int (ap_created p)) (ad_profiles db)),
              us_loading := False\<rparr>)"

definition user_matches :: "string \<Rightarrow> user_row \<Rightarrow> bool" where
  "user_matches q u \<longleftrightarrow>
     (case ur_name u of None \<Rightarrow> False | Some n \<Rightarrow> is_infix (js_lower q) (js_lower n)) \<or>
     is_infix (js_lower q) (js_lower (ur_email u))"

definition search_users :: "string \<Rightarrow> user_row list \<Rightarrow> user_row list" where
  \<comment> \<open>the effect on \<open>[searchQuery, users]\<close> that sets \<open>filteredUsers\<close>\<close>
  "search_users q us = (if q = [] then us else filter (user_matches q) us)"

definition toggle_admin_role :: "bool \<Rightarrow> uid \<Rightarrow> bool \<Rightarrow> admin_db \<Rightarrow> unit + admin_db" where
  "toggle_admin_role failed i cur db =
     (if failed then Inl ()
      else Inr (db\<lparr>ad_profiles := update_where (\<lambda>p. ap_id p = i) (\<lambda>p. p\<lparr>ap_admin := \<not> cur\<rparr>) (ad_profiles db)\<rparr>))"

datatype users_event = UserToggle uid bool | SetQuery string | UsersBack

definition user_widgets :: "user_row \<Rightarrow> users_event widget list" where
  "user_widgets u =
     [Text [Glyph (if ur_admin u then ShieldIcon else UserIcon)],
      Text [Str (js_or_string (ur_name u) ''No Name'')], Text [Str (ur_email u)],
      Text [Str (js_or_string (ur_phone u) ''No Phone'')],
      Text [Str ''Role: '', Str (if ur_admin u then ''Admin'' else ''User'')],
      Button [Text [Str (if ur_admin u then ''Remove Admin'' else ''Make Admin'')]] (UserToggle (ur_id u) (ur_admin u))]"

definition users_view :: "users_state \<Rightarrow> users_event widget list" where
  "users_view st =
     [Button [] UsersBack, Text [Str ''Users Management'']] @
     concat (map user_widgets (search_users (us_query st) (us_users st)))"

definition users_step :: "bool \<Rightarrow> auth_account list option \<Rightarrow> users_event \<Rightarrow> admin_db \<times> users_state \<Rightarrow>
    (admin_db \<times> users_state) \<times> route option" where
  "users_step failed auth e s =
     (case s of (db, st) \<Rightarrow>
       (case e of
          UserToggle i cur \<Rightarrow>
            (case toggle_admin_role failed i cur db of
               Inl _ \<Rightarrow> ((db, st), None)
             | Inr db' \<Rightarrow> ((db', load_users False auth db' st), None))
        | SetQuery q \<Rightarrow> ((db, st\<lparr>us_query := q\<rparr>), None)
        | UsersBack \<Rightarrow> ((db, st), Some GoBack)))"

section \<open>Withdrawal requests\<close>

record wd_screen =
  ws_list :: "withdrawal list"
  ws_loading :: bool

definition load_withdrawals :: "bool \<Rightarrow> admin_db \<Rightarrow> wd_screen \<Rightarrow> wd_screen" where
  "load_withdrawals failed db st =
     (if failed then st\<lparr>ws_loading := False\<rparr>
      else st\<lparr>ws_list := sort_key (\<lambda>w. - int (wd_requested w)) (ad_withdrawals db), ws_loading := False\<rparr>)"

definition update_withdrawal_status :: "bool \<Rightarrow> nat \<Rightarrow> wd_status \<Rightarrow> nat \<Rightarrow> admin_db \<Rightarrow> unit + admin_db" where
  "update_withdrawal_status failed i new now db =
     (if failed then Inl ()
      else Inr (db\<lparr>ad_withdrawals := update_where (\<lambda>w. wd_id w = i)
                   (\<lambda>w. w\<lparr>wd_status := new, wd_processed := Some now\<rparr>) (ad_withdrawals db)\<rparr>))"

datatype wd_event = WdApprove nat | WdReject nat | WdBack | WdRefresh

definition wd_status_text :: "wd_status \<Rightarrow> string" where
  "wd_status_text s =
     (case s of WdPending \<Rightarrow> ''pending'' | WdProcessing \<Rightarrow> ''processing''
              | WdCompleted \<Rightarrow> ''completed'' | WdRejected \<Rightarrow> ''rejected'')"

definition wd_status_icon :: "wd_status \<Rightarrow> glyph" where
  "wd_status_icon s =
     (case s of WdCompleted \<Rightarrow> CheckMark | WdRejected \<Rightarrow> CrossMark | WdPending \<Rightarrow> ClockIcon
              | WdProcessing \<Rightarrow> ClockIcon)"

definition withdrawal_widgets :: "admin_db \<Rightarrow> withdrawal \<Rightarrow> wd_event widget list" where
  "withdrawal_widgets db w =
     (let prof = find (\<lambda>p. ap_id p = wd_user w) (ad_profiles db) in
      [Text [Str (js_or_string (case prof of None \<Rightarrow> None | Some p \<Rightarrow> ap_name p) ''Unknown User'')],
       Text [Str (case prof of None \<Rightarrow> [] | Some p \<Rightarrow> (case ap_phone_number p of None \<Rightarrow> [] | Some ph \<Rightarrow> ph))],
       Text [Glyph (wd_status_icon (wd_status w)), Str (wd_status_text (wd_status w))],
       Text [Str ''Amount:''], Text [Glyph RupeeSign, Locale (wd_amount w)],
       Text [Str ''Payment Method:''], Text [Str (case wd_method w of Upi \<Rightarrow> ''UPI'' | BankAccount \<Rightarrow> ''ACCOUNT'')]] @
      (if wd_method w = Upi \<and> js_or_string (wd_upi w) [] \<noteq> []
       then [Text [Str ''UPI ID:''], Text [Str (the (wd_upi w))]] else []) @
      (if wd_method w = BankAccount
       then [Text [Str ''Bank:''], Text [Str (js_or_string (wd_bank w) [])],
             Text [Str ''Account:''], Text [Str (js_or_string (wd_account w) [])],
             Text [Str ''IFSC:''], Text [Str (js_or_string (wd_ifsc w) [])],
             Text [Str ''Holder:''], Text [Str (js_or_string (wd_holder w) [])]] else []) @
      [Text [Str ''Date:''], Text [DateF (wd_requested w)]] @
      (if wd_status w = WdPending
       then [Button [Text [Glyph CheckMark], Text [Str ''Approve'']] (WdApprove (wd_id w)),
             Button [Text [Glyph CrossMark], Text [Str ''Reject'']] (WdReject (wd_id w))]
       else []))"

definition withdrawals_view :: "admin_db \<Rightarrow> wd_screen \<Rightarrow> wd_event widget list" where
  "withdrawals_view db st =
     [Button [] WdBack, Text [Str ''Withdrawal Requests'']] @ concat (map (withdrawal_widgets db) (ws_list st))"

definition wd_step :: "bool \<Rightarrow> nat \<Rightarrow> wd_event \<Rightarrow> admin_db \<times> wd_screen \<Rightarrow> (admin_db \<times> wd_screen) \<times> route option" where
  "wd_step failed now e s =
     (case s of (db, st) \<Rightarrow>
       (case e of
          WdApprove i \<Rightarrow>
            (case update_withdrawal_status failed i WdCompleted now db of
               Inl _ \<Rightarrow> ((db, st), None) | Inr db' \<Rightarrow> ((db', load_withdrawals False db' st), None))
        | WdReject i \<Rightarrow>
            (case update_withdrawal_status failed i WdRejected now db of
               Inl _ \<Rightarrow> ((db, st), None) | Inr db' \<Rightarrow> ((db', load_withdrawals False db' st), None))
        | WdBack \<Rightarrow> ((db, st), Some GoBack)
        | WdRefresh \<Rightarrow> ((db, load_withdrawals failed db st), None)))"

definition example_withdrawal :: withdrawal where
  "example_withdrawal =
     \<lparr>wd_id = 0, wd_user = 1, wd_amount = 500, wd_status = WdPending, wd_method = Upi, wd_upi = Some ''asha@upi'',
      wd_bank = None, wd_account = None, wd_ifsc = None, wd_holder = None, wd_requested = 5, wd_processed = None\<rparr>"

definition example_admin_db :: admin_db where
  "example_admin_db =
     \<lparr>ad_profiles = [\<lparr>ap_id = 1, ap_name = Some ''Asha'', ap_phone = None, ap_phone_number = Some ''9876543210'',
                       ap_admin = True, ap_created = 1\<rparr>],
      ad_txns = [], ad_withdrawals = [example_withdrawal], ad_subscription_status = [], ad_wallets = Map.empty\<rparr>"

definition empty_wd_screen :: wd_screen where
  "empty_wd_screen = \<lparr>ws_list = [], ws_loading = True\<rparr>"

definition empty_users_state :: users_state where
  "empty_users_state = \<lparr>us_users = [], us_query = [], us_loading = True\<rparr>"

lemma update_withdrawal_Inr:
  "update_withdrawal_status False i new now db =
     Inr (db\<lparr>ad_withdrawals := update_where (\<lambda>w. wd_id w = i)
            (\<lambda>w. w\<lparr>wd_status := new, wd_processed := Some now\<rparr>) (ad_withdrawals db)\<rparr>)"
  by (simp add: update_withdrawal_status_def)

lemma update_where_status_all:
  "\<forall>x \<in> set (update_where (\<lambda>w. wd_id w = i) (\<lambda>w. w\<lparr>wd_status := s, wd_processed := t\<rparr>) ws).
     wd_id x = i \<longrightarrow> wd_status x = s"
  by (induction ws) auto

lemma update_where_status_ex:
  "w \<in> set ws \<Longrightarrow> \<exists>x \<in> set (update_where (\<lambda>w. wd_id w = wd_id w0) (\<lambda>w. w\<lparr>wd_status := s, wd_processed := t\<rparr>) ws).
     wd_id x = wd_id w \<and> wd_status x = s" if "wd_id w = wd_id w0"
  using that by (induction ws) auto

lemma view_events_concat_map:
  "x \<in> set xs \<Longrightarrow> e \<in> set (view_events (f x)) \<Longrightarrow> e \<in> set (view_events (concat (map f xs)))"
  by (induction xs) (auto simp: view_events_def)

lemma withdrawal_reject_button:
  "wd_status w = WdPending \<Longrightarrow> WdReject (wd_id w) \<in> set (view_events (withdrawal_widgets db w))"
  by (simp add: withdrawal_widgets_def view_events_def Let_def)

text \<open>C26: a stale admin screen can reject a withdrawal another admin already completed, and neither action changes a wallet.\<close>

theorem withdrawal_stale_double_process:
  assumes "w \<in> set (ad_withdrawals db)" "wd_status w = WdPending"
    and "stB = load_withdrawals False db stOld"
    and "wd_step False tA (WdApprove (wd_id w)) (db, stA) = ((dbA, stA'), rA)"
    and "wd_step False tB (WdReject (wd_id w)) (dbA, stB) = ((dbB, stB'), rB)"
  shows "(\<exists>x \<in> set (ad_withdrawals dbA). wd_id x = wd_id w \<and> wd_status x = WdCompleted) \<and>
         WdReject (wd_id w) \<in> set (view_events (withdrawals_view dbA stB)) \<and>
         (\<forall>x \<in> set (ad_withdrawals dbB). wd_id x = wd_id w \<longrightarrow> wd_status x = WdRejected) \<and>
         ad_wallets dbB = ad_wallets db"
proof -
  have dbA: "dbA = db\<lparr>ad_withdrawals := update_where (\<lambda>x. wd_id x = wd_id w)
               (\<lambda>x. x\<lparr>wd_status := WdCompleted, wd_processed := Some tA\<rparr>) (ad_withdrawals db)\<rparr>"
    using assms(4) by (simp add: wd_step_def update_withdrawal_Inr)
  have dbB: "dbB = dbA\<lparr>ad_withdrawals := update_where (\<lambda>x. wd_id x = wd_id w)
               (\<lambda>x. x\<lparr>wd_status := WdRejected, wd_processed := Some tB\<rparr>) (ad_withdrawals dbA)\<rparr>"
    using assms(5) by (simp add: wd_step_def update_withdrawal_Inr)
  have "w \<in> set (ws_list stB)" using assms(1,3) by (simp add: load_withdrawals_def)
  then have "WdReject (wd_id w) \<in> set (view_events (withdrawals_view dbA stB))"
    using view_events_concat_map [where f = "withdrawal_widgets dbA", OF _ withdrawal_reject_button [OF assms(2)]]
    by (simp add: withdrawals_view_def view_events_def)
  moreover have "\<exists>x \<in> set (ad_withdrawals dbA). wd_id x = wd_id w \<and> wd_status x = WdCompleted"
    unfolding dbA using update_where_status_ex [OF refl assms(1)] by simp
  moreover have "\<forall>x \<in> set (ad_withdrawals dbB). wd_id x = wd_id w \<longrightarrow> wd_status x = WdRejected"
    unfolding dbB using update_where_status_all by simp
  ultimately show ?thesis by (simp add: dbA dbB)
qed

theorem admin_gate_requires_admin:
  assumes "check_admin_access user failed db = GateShow"
  shows "\<exists>u p. user = Some u \<and> \<not> failed \<and> p \<in> set (ad_profiles db) \<and> ap_id p = u \<and> ap_admin p"
proof (cases user)
  case (Some u)
  then have nf: "\<not> failed" using assms by (auto simp: check_admin_access_def)
  then obtain p where "filter (\<lambda>p. ap_id p = u) (ad_profiles db) = [p]" "ap_admin p"
    using assms Some by (auto simp: check_admin_access_def split: list.splits if_splits)
  moreover from this(1) have "p \<in> set (filter (\<lambda>p. ap_id p = u) (ad_profiles db))" by simp
  ultimately show ?thesis using Some nf by (metis (mono_tags, lifting) mem_Collect_eq set_filter)
qed (use assms in \<open>simp add: check_admin_access_def\<close>)

theorem users_rows_no_phone:
  assumes "u \<in> set (us_users (load_users False auth db st))"
  shows "Text [Str ''No Phone''] \<in> set (user_widgets u) \<and>
         (\<exists>p \<in> set (ad_profiles db). ur_id u = ap_id p \<and> ur_phone_number u = ap_phone_number p)"
  using assms by (auto simp: load_users_def user_widgets_def user_row_of_def js_or_string_def)

theorem withdrawal_stale_double_process_witness:
  "wd_status (hd (ad_withdrawals (fst (fst (wd_step False 11 (WdReject 0)
      (fst (fst (wd_step False 10 (WdApprove 0) (example_admin_db, empty_wd_screen))),
       load_withdrawals False example_admin_db empty_wd_screen)))))) = WdRejected"
proof -
  let ?s1 = "wd_step False 10 (WdApprove 0) (example_admin_db, empty_wd_screen)"
  let ?s2 = "wd_step False 11 (WdReject 0) (fst (fst ?s1), load_withdrawals False example_admin_db empty_wd_screen)"
  have w: "example_withdrawal \<in> set (ad_withdrawals example_admin_db)" "wd_status example_withdrawal = WdPending"
    by (simp_all add: example_admin_db_def example_withdrawal_def)
  have s2: "ad_withdrawals (fst (fst ?s2)) =
              [example_withdrawal\<lparr>wd_status := WdRejected, wd_processed := Some 11\<rparr>]"
    by (simp add: wd_step_def update_withdrawal_Inr example_admin_db_def example_withdrawal_def)
  have "\<forall>x \<in> set (ad_withdrawals (fst (fst ?s2))). wd_id x = wd_id example_withdrawal \<longrightarrow> wd_status x = WdRejected"
    using withdrawal_stale_double_process [where stOld = empty_wd_screen and tA = 10 and stA = empty_wd_screen
        and dbA = "fst (fst ?s1)" and stA' = "snd (fst ?s1)" and rA = "snd ?s1" and tB = 11
        and dbB = "fst (fst ?s2)" and stB' = "snd (fst ?s2)" and rB = "snd ?s2", OF w refl]
    by (simp only: prod.collapse simp_thms example_withdrawal_def withdrawal.select_convs) blast
  then show ?thesis unfolding s2 by (simp add: example_withdrawal_def)
qed

theorem admin_gate_requires_admin_witness:
  "check_admin_access (Some 1) False example_admin_db = GateShow \<and>
   (\<exists>u p. Some (1::nat) = Some u \<and> \<not> False \<and> p \<in> set (ad_profiles example_admin_db) \<and> ap_id p = u \<and> ap_admin p)"
proof -
  have g: "check_admin_access (Some 1) False example_admin_db = GateShow"
    by (simp add: check_admin_access_def example_admin_db_def)
  show ?thesis using g admin_gate_requires_admin [OF g] by blast
qed

theorem users_rows_no_phone_witness:
  "Text [Str ''No Phone''] \<in> set (user_widgets (hd (us_users (load_users False None example_admin_db empty_users_state)))) \<and>
   ur_phone_number (hd (us_users (load_users False None example_admin_db empty_users_state))) = Some ''9876543210''"
proof -
  have m: "hd (us_users (load_users False None example_admin_db empty_users_state))
             \<in> set (us_users (load_users False None example_admin_db empty_users_state))"
    by (simp add: load_users_def example_admin_db_def)
  have "ur_phone_number (hd (us_users (load_users False None example_admin_db empty_users_state))) = Some ''9876543210''"
    by (simp add: load_users_def example_admin_db_def user_row_of_def)
  then show ?thesis using users_rows_no_phone [OF m] by blast
qed

end
