(* ===== verification/PlansView.thy ===== *)
theory PlansView
  imports Transactions
begin

text \<open>
  The render of the plans tab, \<open>src/app/(tabs)/plans.tsx\<close>: the screen state, the mount
  effect that runs \<open>loadPlans\<close>, \<open>loadSubscription\<close> (with \<open>loadPayments\<close>) and
  \<open>loadGoldRate\<close> (\<open>plans_mount\<close>), \<open>renderPlanCard\<close> (\<open>plan_card\<close>),
  \<open>renderActiveSubscription\<close> (\<open>active_view\<close>, \<open>None\<close> when the plan join is empty and
  \<open>subscription.plan\<close> throws) and the two buttons.  The subscribe button of a plan card
  navigates to the demo screen \<open>planScreen\<close>; \<open>initiatePayment\<close>, the only caller of
  \<open>subscribeToPlan\<close>, is never called, so no event of the rendered screen subscribes.
  The pay button runs \<open>make_payment\<close> of \<open>Ledger\<close> on the screen's snapshot and reloads
  the subscription after a recorded payment.
\<close>

record plans_screen =
  pl_plans :: "plan list"
  pl_sub :: "(subscription \<times> plan option) option"
  pl_payments :: "payment list"
  pl_rate :: money
  pl_loading :: bool

definition initial_plans_screen :: plans_screen where
  "initial_plans_screen = \<lparr>pl_plans = [], pl_sub = None, pl_payments = [], pl_rate = 6500, pl_loading = False\<rparr>"

definition plans_reload :: "uid option \<Rightarrow> ledger_db \<Rightarrow> plans_screen \<Rightarrow> plans_screen" where
  \<comment> \<open>\<open>loadSubscription\<close> and, when a subscription is found, \<open>loadPayments\<close>\<close>
  "plans_reload prof db st =
     (case prof of
        None \<Rightarrow> st
      | Some u \<Rightarrow> (case load_subscription db u of
                    None \<Rightarrow> st
                  | Some sp \<Rightarrow> st\<lparr>pl_sub := Some sp, pl_payments := load_payments db (sub_id (fst sp))\<rparr>))"

definition plans_mount :: "uid option \<Rightarrow> ledger_db \<Rightarrow> plans_screen \<Rightarrow> plans_screen" where
  "plans_mount prof db st =
     (plans_reload prof db (st\<lparr>pl_plans := load_plans db\<rparr>))\<lparr>pl_rate := load_gold_rate (pl_rate st) (gold_rates db)\<rparr>"

datatype plans_event = SubscribeAt string | PayNextMonth

definition plan_card :: "plans_screen \<Rightarrow> plan \<Rightarrow> plans_event widget list" where
  "plan_card st p =
     (let rate = pl_rate st; bonus_grams = Fixed 3 (bonus_amount_rs / rate);
          label = Text [Str (if pl_sub st \<noteq> None then ''Already Subscribed'' else ''Subscribe Now'')]
      in [Text [Str (plan_name p)], Text [Str ''Today's Gold Rate''], Text [Glyph RupeeSign, Num rate, Str ''/gram''],
          Text [Glyph RupeeSign, Num (monthly_amount p), Str ''/month = '', Fixed 3 (gold_mg (monthly_amount p) rate),
                Str ''mg gold''],
          Text [NatF (duration_months p), Str '' months''], Text [bonus_grams, Str ''g gold bonus''],
          Text [Str ''You Pay ('', NatF (payment_months p), Str '' months)''],
          Text [Glyph RupeeSign, Fixed 2 (monthly_amount p * of_nat (payment_months p))],
          Text [Str ''Company Bonus (Gold)''], Text [bonus_grams, Str '' grams''], Text [Str ''/''],
          (if pl_loading st \<or> pl_sub st \<noteq> None then label else Button [label] (SubscribeAt (plan_id p)))])"

definition month_item :: "payment list \<Rightarrow> nat \<Rightarrow> plans_event widget list" where
  "month_item ps i =
     (case find (\<lambda>p. month_number p = i) ps of
        None \<Rightarrow> [Text [Str ''Month '', NatF i]]
      | Some p \<Rightarrow> [Highlight [Text [Str ''Month '', NatF i], Text [Glyph RupeeSign, Num (amount p)]]])"

definition active_view :: "plans_screen \<Rightarrow> plans_event widget list option" where
  "active_view st =
     (case pl_sub st of
        None \<Rightarrow> Some []
      | Some (s, None) \<Rightarrow> None
      | Some (s, Some p) \<Rightarrow>
          (let total = payment_months p; paid = length (pl_payments st) in
           Some ([Text [Str ''Active Plan Progress''], Text [Str (plan_name p)],
                  Text [NatF paid, Str '' / '', NatF total, Str '' months completed'']] @
                 concat (map (month_item (pl_payments st)) [1..<Suc total]) @
                 (if paid < total
                  then [if pl_loading st then Text [Str ''Processing...'']
                        else Button [Text [Str ''Pay Month '', NatF (Suc paid), Str '' ('', Glyph RupeeSign,
                                           Num (monthly_amount p), Str '')'']] PayNextMonth]
                  else []) @
                 (if paid = total then [Text [Str ''All payments completed! Bonus credited.'']] else []))))"

definition plans_view :: "plans_screen \<Rightarrow> plans_event widget list option" where
  "plans_view st =
     (case active_view st of
        None \<Rightarrow> None
      | Some act \<Rightarrow>
          Some ([Text [Str ''Plans''], Text [Str ''Choose your gold saving plan'']] @ act @
                (if pl_sub st = None then concat (map (plan_card st) (pl_plans st)) else [])))"

definition plans_step :: "db_write set \<Rightarrow> uid option \<Rightarrow> plans_event \<Rightarrow> ledger_db \<times> plans_screen \<Rightarrow>
    (ledger_db \<times> plans_screen) \<times> route option" where
  \<comment> \<open>Pay Now: \<open>processMonthlyPayment\<close> sets \<open>loading\<close>; the \<open>finally\<close> of \<open>makePayment\<close>
      clears it, except on its early return without a session\<close>
  "plans_step F prof e s =
     (case s of (db, st) \<Rightarrow>
       (case e of
          SubscribeAt pid \<Rightarrow> ((db, st), Some (ToPlanScreen pid))
        | PayNextMonth \<Rightarrow>
            (case make_payment F prof (pl_sub st) (length (pl_payments st)) db of
               (Paid m mg, db') \<Rightarrow> ((db', (plans_reload prof db' st)\<lparr>pl_loading := False\<rparr>), None)
             | (NoSession, db') \<Rightarrow> ((db', st\<lparr>pl_loading := True\<rparr>), None)
             | (_, db') \<Rightarrow> ((db', st\<lparr>pl_loading := False\<rparr>), None))))"

section \<open>The unused gateway flow\<close>

text \<open>\<open>initiatePayment\<close> and \<open>processPaymentGateway\<close> are defined in the screen but no
  element of the render calls them; they are modelled as written, as a session of alerts.\<close>

record gateway_session =
  gw_plan :: "plan option"
  gw_alert :: "(string \<times> frag list) option"
  gw_timer :: bool \<comment> \<open>the two-second delay is pending\<close>

definition initial_gateway_session :: gateway_session where
  "initial_gateway_session = \<lparr>gw_plan = None, gw_alert = None, gw_timer = False\<rparr>"

datatype gateway_event = GwInitiate plan | GwCancel | GwPayNow | GwTimer | GwOk

definition gateway_step :: "db_write set \<Rightarrow> uid option \<Rightarrow> date \<Rightarrow> string \<Rightarrow> gateway_event \<Rightarrow>
    ledger_db \<times> plans_screen \<times> gateway_session \<Rightarrow> ledger_db \<times> plans_screen \<times> gateway_session" where
  \<comment> \<open>\<open>msg\<close>: the message of a refused insert; \<open>GwOk\<close> is the OK of the success alert,
      which calls \<open>subscribeToPlan\<close>; its early return without a profile skips \<open>finally\<close>\<close>
  "gateway_step F prof today msg e s =
     (case s of (db, st, gs) \<Rightarrow>
       (case e of
          GwInitiate pl \<Rightarrow>
            (db, st, gs\<lparr>gw_plan := Some pl, gw_alert := Some (''Payment Gateway'',
               [Str ''Proceed to pay '', Glyph RupeeSign, Num (monthly_amount pl), Str '' for '', Str (plan_name pl), Str ''?''])\<rparr>)
        | GwCancel \<Rightarrow> (db, st, gs\<lparr>gw_alert := None\<rparr>)
        | GwPayNow \<Rightarrow> (db, st\<lparr>pl_loading := True\<rparr>, gs\<lparr>gw_alert := None, gw_timer := True\<rparr>)
        | GwTimer \<Rightarrow>
            (if gw_timer gs
             then (db, st, gs\<lparr>gw_timer := False, gw_alert := Some (''Payment Successful'',
                     [Str ''Your payment has been processed successfully!''])\<rparr>)
             else (db, st, gs))
        | GwOk \<Rightarrow>
            (case gw_plan gs of
               None \<Rightarrow> (db, st, gs\<lparr>gw_alert := None\<rparr>)
             | Some pl \<Rightarrow>
                 (case subscribe_to_plan F prof (pl_plans st) (plan_id pl) today db of
                    (SubscribeNoProfile, db') \<Rightarrow> (db', st, gs\<lparr>gw_alert := None\<rparr>)
                  | (Subscribed sid, db') \<Rightarrow> (db', (plans_reload prof db' st)\<lparr>pl_loading := False\<rparr>, gs\<lparr>gw_alert := None\<rparr>)
                  | (SubscribeFailed PlanNotFound, db') \<Rightarrow>
                      (db', st\<lparr>pl_loading := False\<rparr>, gs\<lparr>gw_alert := Some (''Error'', [Str ''Plan not found''])\<rparr>)
                  | (SubscribeFailed InsertRefused, db') \<Rightarrow>
                      (db', st\<lparr>pl_loading := False\<rparr>,
                       gs\<lparr>gw_alert := Some (''Error'', [Str (if msg = [] then ''Failed to subscribe'' else msg)])\<rparr>)))))"

definition gateway_run :: "db_write set \<Rightarrow> uid option \<Rightarrow> date \<Rightarrow> string \<Rightarrow> gateway_event list \<Rightarrow>
    ledger_db \<times> plans_screen \<times> gateway_session \<Rightarrow> ledger_db \<times> plans_screen \<times> gateway_session" where
  "gateway_run F prof today msg es s = foldl (\<lambda>s e. gateway_step F prof today msg e s) s es"

lemma month_items_no_events [simp]: "view_events (concat (map (month_item ps) xs)) = []"
  by (induction xs) (simp_all add: month_item_def split: option.splits)

lemma plans_mount_sub:
  assumes "load_subscription db u = Some sp"
  shows "pl_sub (plans_mount (Some u) db st) = Some sp"
    and "pl_payments (plans_mount (Some u) db st) = load_payments db (sub_id (fst sp))"
    and "pl_loading (plans_mount (Some u) db st) = pl_loading st"
  using assms by (simp_all add: plans_mount_def plans_reload_def)

lemma active_view_plan:
  assumes "pl_sub st = Some (s, Some pl)" "length (pl_payments st) = n"
  shows "\<exists>ws. active_view st = Some ws \<and>
           Text [NatF n, Str '' / '', NatF (payment_months pl), Str '' months completed''] \<in> set ws \<and>
           view_events ws = (if n < payment_months pl \<and> \<not> pl_loading st then [PayNextMonth] else [])"
  using assms by (simp add: active_view_def Let_def)

lemma update_where_frame:
  "(\<And>x. sub_frame (f x) = sub_frame x) \<Longrightarrow> map sub_frame (update_where P f xs) = map sub_frame xs"
  by (induction xs) auto

lemma make_payment_frame:
  "map sub_frame (subscriptions (snd (make_payment F prof view n db))) = map sub_frame (subscriptions db)"
  by (rule make_payment_preserves [where Q = "\<lambda>d. map sub_frame (subscriptions d) = map sub_frame (subscriptions db)"])
     (auto dest: gold_credit_Inr(3) simp: update_where_frame)

lemma make_payment_plans: "plans (snd (make_payment F prof view n db)) = plans db"
  by (rule make_payment_preserves [where Q = "\<lambda>d. plans d = plans db"]) (auto dest: gold_credit_Inr(2))

lemma load_subscription_frame:
  assumes fr: "map sub_frame (subscriptions d') = map sub_frame (subscriptions d)"
    and pl: "plans d' = plans d" and ls: "load_subscription d u = Some (s, opl)"
  shows "\<exists>s'. load_subscription d' u = Some (s', opl) \<and> sub_frame s' = sub_frame s"
proof -
  let ?P = "\<lambda>x. sub_user x = u \<and> status x = Active"
  let ?Q = "\<lambda>(i::row_id, v::uid, p::string, t::sub_status). v = u \<and> t = Active"
  have q: "?P = ?Q \<circ> sub_frame" by (auto simp: sub_frame_def)
  have f: "filter ?P (subscriptions d) = [s]" and o: "opl = plan_of d s"
    using ls by (auto simp: load_subscription_def split: list.splits)
  have "map sub_frame (filter ?P (subscriptions d')) = map sub_frame (filter ?P (subscriptions d))"
    unfolding q filter_map [symmetric] fr ..
  then obtain s' where f': "filter ?P (subscriptions d') = [s']" and s': "sub_frame s' = sub_frame s"
    using f by (auto simp: Cons_eq_map_conv)
  have "plan_of d' s' = plan_of d s"
    using s' pl by (simp add: plan_of_def sub_frame_def)
  then show ?thesis using f' s' o by (simp add: load_subscription_def)
qed

lemma make_payment_Paid:
  "n < payment_months pl \<Longrightarrow>
   \<exists>mg db'. make_payment {} (Some u) (Some (s, Some pl)) n db = (Paid (Suc n) mg, db')"
  by (auto simp: make_payment_def gold_credit_def Let_def)

lemma make_payment_monthly:
  "n < payment_months pl \<Longrightarrow>
   length (monthly_of (payments (snd (make_payment {} (Some u) (Some (s, Some pl)) n db))) (sub_id s)) =
   Suc (length (monthly_of (payments db) (sub_id s)))"
  by (auto simp: make_payment_def gold_credit_def Let_def monthly_of_def payment_row_def)

lemma plans_step_db:
  "fst (fst (plans_step F prof e (db, st))) =
     (case e of SubscribeAt pid \<Rightarrow> db
      | PayNextMonth \<Rightarrow> snd (make_payment F prof (pl_sub st) (length (pl_payments st)) db))"
  by (cases e) (auto simp: plans_step_def split: prod.split pay_outcome.split)

lemma gateway_no_profile_stuck:
  "fst (snd (gateway_run F None today msg [GwInitiate pl, GwPayNow, GwTimer, GwOk] (db, st, gs))) =
     st\<lparr>pl_loading := True\<rparr> \<and>
   fst (gateway_run F None today msg [GwInitiate pl, GwPayNow, GwTimer, GwOk] (db, st, gs)) = db"
  by (simp add: gateway_run_def gateway_step_def subscribe_to_plan_def)

text \<open>C29: after the mount a subscriber's plans screen shows the ledger's count of monthly payments and offers exactly one event, the pay button, while months remain; no plan card is shown.\<close>

theorem plans_screen_progress:
  assumes "load_subscription db u = Some (s, Some pl)"
    and "n = length (monthly_of (payments db) (sub_id s))"
  shows "\<exists>ws. plans_view (plans_mount (Some u) db st) = Some ws \<and>
           Text [NatF n, Str '' / '', NatF (payment_months pl), Str '' months completed''] \<in> set ws \<and>
           view_events ws = (if n < payment_months pl \<and> \<not> pl_loading st then [PayNextMonth] else [])"
proof -
  let ?st = "plans_mount (Some u) db st"
  obtain ws where ws: "active_view ?st = Some ws"
    and t: "Text [NatF n, Str '' / '', NatF (payment_months pl), Str '' months completed''] \<in> set ws"
    and e: "view_events ws = (if n < payment_months pl \<and> \<not> pl_loading st then [PayNextMonth] else [])"
    using active_view_plan [of ?st s pl n] plans_mount_sub [OF assms(1)] assms(2) by auto
  then show ?thesis
    using plans_mount_sub [OF assms(1)] by (simp add: plans_view_def)
qed

text \<open>C30: no event of the plans screen creates, cancels or reassigns a subscription: the subscribe button only navigates, so the ledger's subscriptions keep their ids, owners, plans and statuses.\<close>

theorem plans_step_no_subscription:
  "map sub_frame (subscriptions (fst (fst (plans_step F prof e (db, st))))) = map sub_frame (subscriptions db)"
  by (simp add: plans_step_db make_payment_frame split: plans_event.split)

text \<open>C28: while months remain the pay button is offered, and pressing it with no failing write records the next month: the ledger invariant still holds and the reloaded screen counts one more payment.\<close>

theorem plans_pay_progress:
  assumes inv: "ledger_inv db" and ls: "load_subscription db u = Some (s, Some pl)"
    and n: "n = length (monthly_of (payments db) (sub_id s))" and lt: "n < payment_months pl"
    and nl: "\<not> pl_loading st"
  shows "\<exists>ws db' st'. plans_view (plans_mount (Some u) db st) = Some ws \<and> PayNextMonth \<in> set (view_events ws) \<and>
           plans_step {} (Some u) PayNextMonth (db, plans_mount (Some u) db st) = ((db', st'), None) \<and>
           ledger_inv db' \<and> length (pl_payments st') = Suc n"
proof -
  let ?st = "plans_mount (Some u) db st"
  have sub: "pl_sub ?st = Some (s, Some pl)" and pays: "length (pl_payments ?st) = n"
    and ld: "pl_loading ?st = pl_loading st"
    using plans_mount_sub [OF ls] n by simp_all
  obtain ws where ws: "plans_view ?st = Some ws" and ev: "PayNextMonth \<in> set (view_events ws)"
    using active_view_plan [OF sub pays] lt nl ld by (auto simp: plans_view_def)
  obtain mg db' where mp: "make_payment {} (Some u) (Some (s, Some pl)) n db = (Paid (Suc n) mg, db')"
    using make_payment_Paid [OF lt] by blast
  have inv': "ledger_inv db'"
    using ledger_inv_pay_month [OF inv, of "{}" u] pay_month_view [of "{}" u db] ls n mp by simp
  obtain s' where ls': "load_subscription db' u = Some (s', Some pl)" and fr: "sub_frame s' = sub_frame s"
    using load_subscription_frame [OF _ _ ls, of db'] make_payment_frame [of "{}" "Some u" "Some (s, Some pl)" n db]
      make_payment_plans [of "{}" "Some u" "Some (s, Some pl)" n db] mp by auto
  have len: "length (monthly_of (payments db') (sub_id s)) = Suc n"
    using make_payment_monthly [OF lt, of u s db] mp n by simp
  have "plans_step {} (Some u) PayNextMonth (db, ?st) =
          ((db', (plans_reload (Some u) db' ?st)\<lparr>pl_loading := False\<rparr>), None)"
    using mp sub pays by (simp add: plans_step_def)
  moreover have "length (pl_payments ((plans_reload (Some u) db' ?st)\<lparr>pl_loading := False\<rparr>)) = Suc n"
    using ls' fr len by (simp add: plans_reload_def sub_frame_def)
  ultimately show ?thesis using ws ev inv' by blast
qed

lemma example_p1_inv: "ledger_inv (example_subscribed ''p1'')"
proof -
  have "ledger_reach {} (init_ledger [example_plan, short_plan] example_rates example_wallets)
          (example_subscribed ''p1'')"
    unfolding example_subscribed_def example_ledger_def
    by (rule ledger_reach.step [OF ledger_reach.refl ledger_step.subscribe]) simp
  then show ?thesis using ledger_reach_inv [OF _ _ ledger_inv_init] by simp
qed

lemma example_p1_unpaid: "length (monthly_of (payments (example_subscribed ''p1'')) 0) = 0"
  by (simp add: example_defs ledger_eval js_add_months_def days_in_month_def leap_year_def monthly_of_def)

theorem plans_screen_progress_witness:
  "\<exists>ws. plans_view (plans_mount (Some 1) (example_subscribed ''p1'') initial_plans_screen) = Some ws \<and>
     Text [NatF 0, Str '' / '', NatF 12, Str '' months completed''] \<in> set ws \<and> view_events ws = [PayNextMonth]"
  using plans_screen_progress [OF example_subscribed_p1, of 0 initial_plans_screen] example_p1_unpaid
  by (simp add: example_plan_def initial_plans_screen_def)

theorem plans_pay_progress_witness:
  "\<exists>ws db' st'. plans_view (plans_mount (Some 1) (example_subscribed ''p1'') initial_plans_screen) = Some ws \<and>
     PayNextMonth \<in> set (view_events ws) \<and>
     plans_step {} (Some 1) PayNextMonth
       (example_subscribed ''p1'', plans_mount (Some 1) (example_subscribed ''p1'') initial_plans_screen) =
       ((db', st'), None) \<and> ledger_inv db' \<and> length (pl_payments st') = 1"
  using plans_pay_progress [OF example_p1_inv example_subscribed_p1, of 0 initial_plans_screen] example_p1_unpaid
  by (simp add: example_plan_def initial_plans_screen_def)

end
