(* ===== verification/ReferralScreens.thy ===== *)
theory ReferralScreens
  imports ReferralViews View
begin

text \<open>
  The render of the two screens over the referral graph, on top of the loaders and the node
  heap of \<open>ReferralViews\<close>.
  \<^item> \<open>src/app/tree.tsx\<close>: \<open>renderTreeNode\<close> (\<open>render_tree_node\<close>), \<open>getTotalReferrals\<close>
    (\<open>count_nodes\<close>, a counter bumped by a recursive \<open>forEach\<close>), \<open>getLevelCounts\<close>
    (\<open>count_by_level\<close>, an object keyed by level, whose \<open>Object.entries\<close> lists integer keys
    in ascending order) and the render (\<open>tree_view\<close>).  Every recursion over the heap
    takes fuel; \<open>tree_preorder\<close> is the reference traversal both counters are folds of.
  \<^item> \<open>src/app/(tabs)/referrals.tsx\<close>: the render (\<open>referrals_view\<close>) with the share and
    tree buttons (\<open>referrals_step\<close>).  The commission's creation date and the sender's name
    come from the joined query and enter as functions.
\<close>

section \<open>The downline tree\<close>

datatype tree_event = ToggleAt uid | TreeBack

fun render_tree_node :: "nat \<Rightarrow> tree_screen \<Rightarrow> nat \<Rightarrow> tree_event widget list option" where
  "render_tree_node 0 st a = None"
| "render_tree_node (Suc f) st a =
     (let ns = th_nodes (ts_heap st); n = ns ! a; has = tn_children n \<noteq> [];
          expanded = tn_id n \<in> set (ts_expanded st)
      in case count_children (Suc f) ns a of
           None \<Rightarrow> None
         | Some cnt \<Rightarrow>
             (let row = [Text ((if has then [Glyph (if expanded then ChevronDown else ChevronRight)] else []) @
                               [Str ''L'', NatF (tn_level n)]),
                         Text [Str (tn_name n)], Text [Str (tn_phone n)]] @
                        (if has then [Text [Glyph UsersIcon, NatF cnt]] else [])
              in if expanded \<and> has
                 then map_option (\<lambda>cs. Button row (ToggleAt (tn_id n)) # concat cs)
                        (those (map (render_tree_node f st) (tn_children n)))
                 else Some (if has then [Button row (ToggleAt (tn_id n))] else row)))"

fun count_nodes :: "nat \<Rightarrow> tree_node list \<Rightarrow> nat list \<Rightarrow> nat \<Rightarrow> nat option" where
  \<comment> \<open>\<open>countNodes\<close>: \<open>count++\<close> per node, then the children when there are any\<close>
  "count_nodes 0 ns as c = None"
| "count_nodes (Suc f) ns [] c = Some c"
| "count_nodes (Suc f) ns (a # as) c =
     (case (if tn_children (ns ! a) = [] then Some (Suc c) else count_nodes f ns (tn_children (ns ! a)) (Suc c)) of
        None \<Rightarrow> None
      | Some c' \<Rightarrow> count_nodes (Suc f) ns as c')"

definition js_obj_incr :: "nat \<Rightarrow> (nat \<times> nat) list \<Rightarrow> (nat \<times> nat) list" where
  \<comment> \<open>\<open>counts[l] = (counts[l] || 0) + 1\<close>\<close>
  "js_obj_incr l m = js_map_set l (case map_of m l of None \<Rightarrow> 1 | Some c \<Rightarrow> Suc c) m"

fun count_by_level :: "nat \<Rightarrow> tree_node list \<Rightarrow> nat list \<Rightarrow> (nat \<times> nat) list \<Rightarrow> (nat \<times> nat) list option" where
  "count_by_level 0 ns as m = None"
| "count_by_level (Suc f) ns [] m = Some m"
| "count_by_level (Suc f) ns (a # as) m =
     (let m1 = js_obj_incr (tn_level (ns ! a)) m in
      case (if tn_children (ns ! a) = [] then Some m1 else count_by_level f ns (tn_children (ns ! a)) m1) of
        None \<Rightarrow> None
      | Some m' \<Rightarrow> count_by_level (Suc f) ns as m')"

definition get_total_referrals :: "nat \<Rightarrow> tree_screen \<Rightarrow> nat option" where
  "get_total_referrals f st = count_nodes f (th_nodes (ts_heap st)) (th_roots (ts_heap st)) 0"

definition get_level_counts :: "nat \<Rightarrow> tree_screen \<Rightarrow> (nat \<times> nat) list option" where
  \<comment> \<open>\<open>Object.entries\<close> enumerates the integer keys in ascending order\<close>
  "get_level_counts f st = map_option (sort_key fst) (count_by_level f (th_nodes (ts_heap st)) (th_roots (ts_heap st)) [])"

definition plural_s :: "nat \<Rightarrow> string" where
  "plural_s n = (if n \<noteq> 1 then ''s'' else '''')"

definition tree_header :: "tree_event widget list" where
  "tree_header = [Button [Text [Glyph BackArrow]] TreeBack, Text [Str ''Downline Tree'']]"

definition tree_view :: "nat \<Rightarrow> tree_screen \<Rightarrow> tree_event widget list option" where
  "tree_view f st =
     (if ts_loading st then Some (tree_header @ [Text [Str ''Loading your referral tree...'']])
      else
        (case (get_level_counts f st, get_total_referrals f st,
               those (map (render_tree_node f st) (th_roots (ts_heap st)))) of
           (Some counts, Some cnt, Some nodes) \<Rightarrow>
             Some (tree_header @
                   [Text [Str ''Total Members''], Text [NatF cnt],
                    Text [Str ''Direct Referrals''], Text [NatF (length (th_roots (ts_heap st)))]] @
                   (if th_roots (ts_heap st) = []
                    then [Text [Glyph UsersIcon], Text [Str ''No Referrals Yet''],
                          Text [Str ''Share your referral code to start building your network'']]
                    else [Text [Str ''Tap on any member with a badge to expand their downline'']] @ concat nodes @
                         [Text [Str ''Tree Structure Summary'']] @
                         concat (map (\<lambda>(l, c). [Text [Str ''Level '', NatF l, Str '':''],
                                                 Text [NatF c, Str '' member'', Str (plural_s c)]]) counts) @
                         [Text [Str ''Total:''],
                          Text [NatF cnt, Str '' member'', Str (plural_s cnt), Str '' across '',
                                NatF (length counts), Str '' level'', Str (plural_s (length counts))]]))
         | _ \<Rightarrow> None))"

definition initial_tree_screen :: tree_screen where
  "initial_tree_screen = \<lparr>ts_heap = empty_heap, ts_expanded = [], ts_loading = True\<rparr>"

definition tree_step :: "tree_event \<Rightarrow> tree_screen \<Rightarrow> tree_screen \<times> route option" where
  "tree_step e st =
     (case e of
        ToggleAt x \<Rightarrow> (st\<lparr>ts_expanded := toggle_node x (ts_expanded st)\<rparr>, None)
      | TreeBack \<Rightarrow> (st, Some GoBack))"

section \<open>The referrals screen\<close>

datatype referrals_event = ShareCode | OpenTree

definition level_row_widgets :: "level_config \<Rightarrow> level_row \<Rightarrow> referrals_event widget list" where
  "level_row_widgets cfg r =
     [Text [Str ''L'', NatF (lr_level r)], Text [Str ''Level '', NatF (lr_level r)],
      Text [NatF (lr_count r), Str '' referral'', Str (plural_s (lr_count r)), Str '' '', Glyph Bullet, Str '' '',
            Num (level_percent_shown cfg (lr_level r)), Str ''%''],
      Text [Glyph RupeeSign, Fixed 2 (lr_commission r)]]"

definition commission_widgets :: "(commission \<Rightarrow> string) \<Rightarrow> (commission \<Rightarrow> nat) \<Rightarrow> commission \<Rightarrow>
    referrals_event widget list" where
  \<comment> \<open>\<open>from_user.full_name\<close> and \<open>created_at\<close> come from the join\<close>
  "commission_widgets sender created c =
     [Text [Str (sender c)], Text [Str ''Level '', NatF (cm_level c), Str '' '', Glyph Bullet, Str '' '', DateF (created c)],
      Text [Str ''+'', Glyph RupeeSign, Fixed 2 (cm_amount c)]]"

definition referral_code_shown :: "profile option \<Rightarrow> string" where
  "referral_code_shown prof = (case prof of None \<Rightarrow> [] | Some p \<Rightarrow> prof_code p)"

definition referrals_view :: "profile option \<Rightarrow> (commission \<Rightarrow> string) \<Rightarrow> (commission \<Rightarrow> nat) \<Rightarrow>
    referrals_screen \<Rightarrow> referrals_event widget list" where
  "referrals_view prof sender created st =
     (if rs_loading st then [Text [Str ''Referrals''], Text [Str ''Loading...'']]
      else [Text [Str ''Referrals''], Text [Str ''Your Referral Code''], Button [Text [Glyph CopyIcon]] ShareCode,
            Text [Str (referral_code_shown prof)], Button [Text [Str ''Share Code'']] ShareCode,
            Text [Glyph UsersIcon], Text [NatF (rs_total_referrals st)], Text [Str ''Total Referrals''],
            Text [Glyph RupeeSign, Fixed 2 (rs_total_commission st)], Text [Str ''Total Earned''],
            Text [Str ''View Downline Tree''], Button [Text [Str ''Open Tree View'']] OpenTree,
            Text [Str ''Referral Levels''], Text [Str ''Commission breakdown by level'']] @
           concat (map (level_row_widgets (rs_config st)) (rs_levels st)) @
           [Text [Str ''Total Commission''], Text [Glyph RupeeSign, Fixed 2 (rs_total_commission st)],
            Text [Str ''Recent Commissions'']] @
           (if rs_recent st = []
            then [Text [Str ''No commissions yet''], Text [Str ''Share your referral code to start earning'']]
            else concat (map (commission_widgets sender created) (rs_recent st))))"

definition share_message :: "profile option \<Rightarrow> string option" where
  \<comment> \<open>\<open>shareReferralCode\<close>: nothing is shared without a (non-empty) referral code\<close>
  "share_message prof =
     (case prof of
        None \<Rightarrow> None
      | Some p \<Rightarrow> if prof_code p = [] then None
                  else Some (''Join A S JEWELLERS and start saving for your future! Use my referral code: '' @ prof_code p))"

definition referrals_step :: "profile option \<Rightarrow> referrals_event \<Rightarrow> string option \<times> route option" where
  "referrals_step prof e = (case e of ShareCode \<Rightarrow> (share_message prof, None) | OpenTree \<Rightarrow> (None, Some ToTree))"

fun tree_preorder :: "nat \<Rightarrow> tree_node list \<Rightarrow> nat list \<Rightarrow> nat list option" where
  \<comment> \<open>the reference traversal: the addresses in the order the two counters visit them\<close>
  "tree_preorder 0 ns as = None"
| "tree_preorder (Suc f) ns [] = Some []"
| "tree_preorder (Suc f) ns (a # as) =
     (case (if tn_children (ns ! a) = [] then Some [] else tree_preorder f ns (tn_children (ns ! a))) of
        None \<Rightarrow> None
      | Some xs \<Rightarrow> map_option (\<lambda>ys. a # xs @ ys) (tree_preorder (Suc f) ns as))"

lemma count_nodes_preorder:
  "count_nodes f ns as c = map_option (\<lambda>xs. c + length xs) (tree_preorder f ns as)"
  by (induction f ns as c rule: count_nodes.induct) (auto simp: option.map_comp o_def add.assoc split: option.splits)

lemma count_by_level_preorder:
  "count_by_level f ns as m = map_option (\<lambda>xs. fold (\<lambda>a. js_obj_incr (tn_level (ns ! a))) xs m) (tree_preorder f ns as)"
  by (induction f ns as m rule: count_by_level.induct) (auto simp: Let_def option.map_comp o_def split: option.splits)

lemma js_obj_incr_keys: "map fst (js_obj_incr l m) = (if l \<in> set (map fst m) then map fst m else map fst m @ [l])"
  by (induction m) (auto simp: js_obj_incr_def js_map_set_def)

lemma map_set_absent:
  "l \<notin> set (map fst m) \<Longrightarrow> map (\<lambda>(k', v'). if k' = l then (l, w) else (k', v')) m = m"
  by (induction m) auto

lemma map_set_sum:
  "distinct (map fst m) \<Longrightarrow> map_of m l = Some (v::nat) \<Longrightarrow>
   sum_list (map snd (map (\<lambda>(k', v'). if k' = l then (l, w) else (k', v')) m)) + v = sum_list (map snd m) + w"
proof (induction m)
  case (Cons kv m)
  obtain k x where kv: "kv = (k, x)" by fastforce
  show ?case
  proof (cases "k = l")
    case True
    then have "l \<notin> set (map fst m)" "x = v" using Cons.prems kv by auto
    then show ?thesis using True kv by (simp add: map_set_absent algebra_simps del: map_map)
  next
    case False
    then have "sum_list (map snd (map (\<lambda>(k', v'). if k' = l then (l, w) else (k', v')) m)) + v =
               sum_list (map snd m) + w"
      using Cons kv by simp
    then show ?thesis using False kv by (simp del: map_map)
  qed
qed simp

lemma js_obj_incr_sum:
  assumes "distinct (map fst m)"
  shows "sum_list (map snd (js_obj_incr l m)) = Suc (sum_list (map snd m))"
proof (cases "map_of m l")
  case None
  moreover have "l \<notin> set (map fst m)" using None by (simp add: map_of_eq_None_iff)
  ultimately show ?thesis by (simp add: js_obj_incr_def js_map_set_def)
next
  case (Some c)
  then have "l \<in> set (map fst m)" by (metis map_of_eq_None_iff option.simps(3) set_map)
  then show ?thesis using map_set_sum [OF assms Some, of "Suc c"] Some
    by (simp add: js_obj_incr_def js_map_set_def)
qed

lemma fold_js_obj_incr:
  "distinct (map fst m) \<Longrightarrow>
   distinct (map fst (fold (\<lambda>a. js_obj_incr (g a)) xs m)) \<and>
   sum_list (map snd (fold (\<lambda>a. js_obj_incr (g a)) xs m)) = length xs + sum_list (map snd m)"
  by (induction xs arbitrary: m) (simp_all add: js_obj_incr_sum js_obj_incr_keys)

lemma tree_preorder_enough:
  assumes "heap_ok ns" "\<forall>b < length ns. tn_level (ns ! b) \<le> L"
  shows "\<forall>a \<in> set as. a < length ns \<and> L < tn_level (ns ! a) + Suc f \<Longrightarrow> tree_preorder (Suc f) ns as \<noteq> None"
proof (induction f arbitrary: as)
  case 0
  have "tn_children (ns ! a) = []" if a: "a \<in> set as" for a
  proof (rule ccontr)
    assume "tn_children (ns ! a) \<noteq> []"
    then obtain c where "c \<in> set (tn_children (ns ! a))" by (cases "tn_children (ns ! a)") auto
    then have "c < length ns" "tn_level (ns ! c) = Suc (tn_level (ns ! a))"
      using assms(1) 0 a by (auto simp: heap_ok_def)
    then show False using assms(2) 0 a by fastforce
  qed
  then show ?case by (induction as) auto
next
  case (Suc f)
  then show ?case
  proof (induction as)
    case (Cons a as)
    have "\<forall>c \<in> set (tn_children (ns ! a)). c < length ns \<and> L < tn_level (ns ! c) + Suc f"
      using assms(1) Cons.prems by (auto simp: heap_ok_def)
    then have "tree_preorder (Suc f) ns (tn_children (ns ! a)) \<noteq> None" using Suc.IH by blast
    then show ?case using Cons by (auto split: option.splits)
  qed simp
qed

lemma render_tree_node_enough:
  assumes "heap_ok (th_nodes (ts_heap st))" "\<forall>b < length (th_nodes (ts_heap st)). tn_level (th_nodes (ts_heap st) ! b) \<le> L"
  shows "a < length (th_nodes (ts_heap st)) \<Longrightarrow> L < tn_level (th_nodes (ts_heap st) ! a) + f \<Longrightarrow>
         render_tree_node f st a \<noteq> None"
proof (induction f arbitrary: a)
  case 0
  then show ?case using assms(2) by fastforce
next
  case (Suc f)
  let ?ns = "th_nodes (ts_heap st)"
  obtain k where k: "count_children (Suc f) ?ns a = Some k"
    using count_children_enough [OF assms Suc.prems(1)] Suc.prems(2) by blast
  have "\<forall>c \<in> set (tn_children (?ns ! a)). render_tree_node f st c \<noteq> None"
  proof
    fix c assume "c \<in> set (tn_children (?ns ! a))"
    then have "c < length ?ns" "tn_level (?ns ! c) = Suc (tn_level (?ns ! a))"
      using assms(1) Suc.prems(1) by (auto simp: heap_ok_def)
    then show "render_tree_node f st c \<noteq> None" using Suc.IH [of c] Suc.prems(2) by auto
  qed
  then show ?case using k those_map_Some [of "tn_children (?ns ! a)" "render_tree_node f st"]
    by (auto simp: Let_def)
qed

lemma tree_pass1_roots:
  "set (th_roots h) \<subseteq> {..<length (th_nodes h)} \<Longrightarrow>
   set (th_roots (tree_pass1 rs h)) \<subseteq> {..<length (th_nodes (tree_pass1 rs h))}"
proof (induction rs arbitrary: h)
  case (Cons r rs)
  then show ?case by (cases "tr_referred r") (auto simp: Let_def intro!: Cons.IH)
qed simp

lemma tree_view_Some:
  "\<not> ts_loading st \<Longrightarrow> get_level_counts f st = Some m \<Longrightarrow> get_total_referrals f st = Some n \<Longrightarrow>
   those (map (render_tree_node f st) (th_roots (ts_heap st))) = Some nodes \<Longrightarrow>
   \<exists>ws. tree_view f st = Some ws"
  by (simp add: tree_view_def)

lemma tree_pass2_roots:
  "th_roots (tree_pass2 rs h) = th_roots h \<and> length (th_nodes (tree_pass2 rs h)) = length (th_nodes h)"
  by (induction rs arbitrary: h) (auto split: option.splits)

lemma build_tree_roots:
  "\<forall>a \<in> set (th_roots (build_tree_structure rs)). a < length (th_nodes (build_tree_structure rs))"
proof -
  have "set (th_roots (tree_pass1 rs empty_heap)) \<subseteq> {..<length (th_nodes (tree_pass1 rs empty_heap))}"
    by (rule tree_pass1_roots) (simp add: empty_heap_def)
  then show ?thesis using tree_pass2_roots [of rs "tree_pass1 rs empty_heap"]
    by (auto simp: build_tree_structure_def)
qed

lemma sort_key_fst_counts:
  fixes m :: "(nat \<times> nat) list"
  shows "sum_list (map snd (sort_key fst m)) = sum_list (map snd m) \<and>
   sorted (map fst (sort_key fst m)) \<and> distinct (map fst (sort_key fst m)) = distinct (map fst m)"
proof -
  have "mset (map fst (sort_key fst m)) = mset (map fst m)" by simp
  then have "distinct (map fst (sort_key fst m)) = distinct (map fst m)"
    by (rule mset_eq_imp_distinct_iff)
  moreover have "sum_mset (mset (map snd (sort_key fst m))) = sum_mset (mset (map snd m))"
    by (simp only: mset_map mset_sort)
  then have "sum_list (map snd (sort_key fst m)) = sum_list (map snd m)"
    by (simp only: sum_mset_sum_list)
  ultimately show ?thesis by simp
qed

lemma loaded_tree:
  assumes "ref_reach g" "prof_ok prof"
  shows "heap_ok (th_nodes (ts_heap (load_tree_data (Some u) False g prof st))) \<and>
         \<not> ts_loading (load_tree_data (Some u) False g prof st) \<and>
         (\<forall>b < length (th_nodes (ts_heap (load_tree_data (Some u) False g prof st))).
            tn_level (th_nodes (ts_heap (load_tree_data (Some u) False g prof st)) ! b) \<le> referral_cap) \<and>
         (\<forall>a \<in> set (th_roots (ts_heap (load_tree_data (Some u) False g prof st))).
            a < length (th_nodes (ts_heap (load_tree_data (Some u) False g prof st))))"
  using tree_query_heap_ok [OF assms(1,2), of u] build_tree_roots [of "tree_query g prof u"]
  by (simp add: load_tree_data_def Let_def)

lemma tree_summary_ok:
  assumes h: "heap_ok (th_nodes (ts_heap st))" and nl: "\<not> ts_loading st"
    and lv: "\<forall>b < length (th_nodes (ts_heap st)). tn_level (th_nodes (ts_heap st) ! b) \<le> L"
    and rt: "\<forall>a \<in> set (th_roots (ts_heap st)). a < length (th_nodes (ts_heap st))"
  shows "\<exists>ws n m. tree_view (Suc L) st = Some ws \<and> get_total_referrals (Suc L) st = Some n \<and>
           get_level_counts (Suc L) st = Some m \<and>
           sum_list (map snd m) = n \<and> sorted (map fst m) \<and> distinct (map fst m)"
proof -
  let ?ns = "th_nodes (ts_heap st)" and ?rs = "th_roots (ts_heap st)"
  have "\<forall>a \<in> set ?rs. a < length ?ns \<and> L < tn_level (?ns ! a) + Suc L" using rt by simp
  then obtain xs where xs: "tree_preorder (Suc L) ?ns ?rs = Some xs"
    using tree_preorder_enough [OF h lv, of ?rs L] by blast
  let ?m = "fold (\<lambda>a. js_obj_incr (tn_level (?ns ! a))) xs []"
  have n: "get_total_referrals (Suc L) st = Some (length xs)"
    unfolding get_total_referrals_def count_nodes_preorder xs by simp
  have m: "get_level_counts (Suc L) st = Some (sort_key fst ?m)"
    unfolding get_level_counts_def count_by_level_preorder xs by simp
  have cnt: "distinct (map fst ?m) \<and> sum_list (map snd ?m) = length xs"
    using fold_js_obj_incr [of "[]" "\<lambda>a. tn_level (?ns ! a)" xs] by simp
  have "render_tree_node (Suc L) st a \<noteq> None" if "a \<in> set ?rs" for a
  proof (rule render_tree_node_enough [OF h lv])
    show "a < length ?ns" using rt that by blast
    show "L < tn_level (?ns ! a) + Suc L" by simp
  qed
  then obtain nodes where "those (map (render_tree_node (Suc L) st) ?rs) = Some nodes"
    using those_map_Some [of ?rs "render_tree_node (Suc L) st"] by blast
  then obtain ws where ws: "tree_view (Suc L) st = Some ws"
    using tree_view_Some [OF nl m n] by blast
  have s: "sum_list (map snd (sort_key fst ?m)) = length xs \<and> sorted (map fst (sort_key fst ?m)) \<and>
           distinct (map fst (sort_key fst ?m))"
    using cnt sort_key_fst_counts [of ?m] by simp
  show ?thesis
    by (rule exI [where x = ws], rule exI [where x = "length xs"], rule exI [where x = "sort_key fst ?m"])
       (simp only: ws n m s simp_thms)
qed

text \<open>C31: the downline tree loaded from a reachable referral graph always renders, and its Tree Structure Summary lists each level once, in ascending order, with counts that add up to the Total Members figure.\<close>

theorem tree_screen_summary:
  assumes "ref_reach g" "prof_ok prof"
  shows "\<exists>ws n m. tree_view (Suc referral_cap) (load_tree_data (Some u) False g prof st) = Some ws \<and>
           get_total_referrals (Suc referral_cap) (load_tree_data (Some u) False g prof st) = Some n \<and>
           get_level_counts (Suc referral_cap) (load_tree_data (Some u) False g prof st) = Some m \<and>
           sum_list (map snd m) = n \<and> sorted (map fst m) \<and> distinct (map fst m)"
proof -
  note l = loaded_tree [OF assms, of u st]
  show ?thesis
    by (rule tree_summary_ok [OF conjunct1 [OF l] conjunct1 [OF conjunct2 [OF l]]
          conjunct1 [OF conjunct2 [OF conjunct2 [OF l]]] conjunct2 [OF conjunct2 [OF conjunct2 [OF l]]]])
qed

theorem tree_screen_summary_witness:
  "\<exists>ws n m. tree_view (Suc referral_cap) (load_tree_data (Some 1) False branching_graph example_profiles
                 initial_tree_screen) = Some ws \<and>
     get_total_referrals (Suc referral_cap) (load_tree_data (Some 1) False branching_graph example_profiles
       initial_tree_screen) = Some n \<and>
     get_level_counts (Suc referral_cap) (load_tree_data (Some 1) False branching_graph example_profiles
       initial_tree_screen) = Some m \<and>
     sum_list (map snd m) = n \<and> sorted (map fst m) \<and> distinct (map fst m)"
  using tree_screen_summary [OF branching_graph_reach, of example_profiles 1 initial_tree_screen]
  by (simp add: prof_ok_def example_profiles_def)

lemma render_tree_node_expanded_cong:
  "set (ts_expanded st') = set (ts_expanded st) \<Longrightarrow> ts_heap st' = ts_heap st \<Longrightarrow>
   render_tree_node f st' = render_tree_node f st"
proof (induction f)
  case 0
  show ?case by (rule ext) simp
next
  case (Suc f)
  have ih: "render_tree_node f st' = render_tree_node f st" using Suc by blast
  show ?case
  proof
    fix a
    show "render_tree_node (Suc f) st' a = render_tree_node (Suc f) st a"
      unfolding render_tree_node.simps ih Suc.prems(1) Suc.prems(2) ..
  qed
qed

lemma tree_view_expanded_cong:
  assumes "set (ts_expanded st') = set (ts_expanded st)" "ts_heap st' = ts_heap st"
    and "ts_loading st' = ts_loading st"
  shows "tree_view f st' = tree_view f st"
  unfolding tree_view_def get_level_counts_def get_total_referrals_def
    render_tree_node_expanded_cong [OF assms(1,2)] assms(2,3) ..

lemma toggle_node_twice: "set (toggle_node x (toggle_node x xs)) = set xs"
  by (auto simp: toggle_node_def)

theorem tree_toggle_twice:
  "tree_view f (fst (tree_step (ToggleAt x) (fst (tree_step (ToggleAt x) st)))) = tree_view f st"
  by (rule tree_view_expanded_cong) (simp_all add: tree_step_def toggle_node_twice)

end
