(* ===== verification/TreeCount.thy ===== *)
theory TreeCount
  imports ReferralScreens
begin

text \<open>
  The downline tree counts the whole downline.  When every referred user of the graph has a
  profile, \<open>buildTreeStructure\<close> gives one node per \<open>referral_tree\<close> row, the roots are the
  level-1 nodes and every deeper node is linked under exactly one node of the previous
  level; the preorder from the roots then visits every node once, so Total Members is the
  user's number of edges, the same figure as the referrals screen's Total Referrals.
\<close>

definition all_children :: "tree_node list \<Rightarrow> nat list" where
  "all_children ns = concat (map tn_children ns)"

definition row_node :: "tree_row \<Rightarrow> tree_node" where
  "row_node r = new_tree_node (the (tr_referred r)) (tr_level r)"

definition next_gen :: "tree_node list \<Rightarrow> nat list \<Rightarrow> nat list" where
  "next_gen ns as = concat (map (\<lambda>a. tn_children (ns ! a)) as)"

definition level_nodes :: "tree_node list \<Rightarrow> nat \<Rightarrow> nat list" where
  "level_nodes ns l = filter (\<lambda>i. tn_level (ns ! i) = l) [0..<length ns]"

fun gens :: "nat \<Rightarrow> tree_node list \<Rightarrow> nat list \<Rightarrow> nat list" where
  \<comment> \<open>the first \<open>f + 1\<close> generations below a list of addresses\<close>
  "gens 0 ns as = as"
| "gens (Suc f) ns as = as @ gens f ns (next_gen ns as)"

lemma tree_pass1_nodes:
  "\<forall>r \<in> set R. tr_referred r \<noteq> None \<Longrightarrow> th_nodes (tree_pass1 R h) = th_nodes h @ map row_node R"
  by (induction R arbitrary: h) (auto simp: Let_def row_node_def)

lemma filter_upt_Suc_shift:
  "filter P [0..<Suc n] = (if P 0 then [0] else []) @ map Suc (filter (P \<circ> Suc) [0..<n])"
  by (simp add: upt_conv_Cons map_Suc_upt [symmetric] filter_map del: upt_Suc)

lemma tree_pass1_roots_eq:
  "\<forall>r \<in> set R. tr_referred r \<noteq> None \<Longrightarrow>
   th_roots (tree_pass1 R h) =
     th_roots h @ map (\<lambda>i. length (th_nodes h) + i) (filter (\<lambda>i. tr_level (R ! i) = 1) [0..<length R])"
proof (induction R arbitrary: h)
  case (Cons r R)
  then show ?case
    by (auto simp: Let_def filter_upt_Suc_shift comp_def simp del: upt_Suc)
qed simp

lemma js_map_set_new: "k \<notin> set (map fst m) \<Longrightarrow> js_map_set k v m = m @ [(k, v)]"
  by (simp add: js_map_set_def)

lemma tree_pass1_map:
  "\<forall>r \<in> set R. tr_referred r \<noteq> None \<Longrightarrow> distinct (map (\<lambda>r. pj_id (the (tr_referred r))) R) \<Longrightarrow>
   set (map (\<lambda>r. pj_id (the (tr_referred r))) R) \<inter> set (map fst (th_map h)) = {} \<Longrightarrow>
   th_map (tree_pass1 R h) =
     th_map h @ zip (map (\<lambda>r. pj_id (the (tr_referred r))) R) [length (th_nodes h)..<length (th_nodes h) + length R]"
proof (induction R arbitrary: h)
  case (Cons r R)
  then show ?case by (auto simp: Let_def js_map_set_new upt_conv_Cons simp del: upt_Suc)
qed simp

lemma mset_concat_map_update:
  "i < length xs \<Longrightarrow>
   mset (concat (map g (xs[i := y]))) + mset (g (xs ! i)) = mset (concat (map g xs)) + mset (g y)"
proof (induction xs arbitrary: i)
  case (Cons x xs)
  then show ?case by (cases i) (simp_all add: ac_simps)
qed simp

lemma map_update_self: "(map f xs)[a := f (xs ! a)] = map f xs"
  by (metis list_update_beyond list_update_id not_le nth_map length_map)

lemma attach_first_ids: "map tn_id (attach_first lvl c es ns) = map tn_id ns"
  by (induction lvl c es ns rule: attach_first.induct) (auto simp: map_update map_update_self)

lemma attach_first_attached:
  assumes ex: "\<exists>(k, a) \<in> set es. tn_level (ns ! a) = lvl - 1"
    and es: "\<forall>(k, a) \<in> set es. a < length ns"
    and ck: "\<forall>a < length ns. tn_id (ns ! c) \<notin> set (map (\<lambda>x. tn_id (ns ! x)) (tn_children (ns ! a)))"
  shows "mset (all_children (attach_first lvl c es ns)) = mset (all_children ns) + {#c#}"
  using ex es
proof (induction es)
  case (Cons e es)
  obtain k a where e: "e = (k, a)" by (cases e)
  have a: "a < length ns" using Cons.prems(2) e by simp
  show ?case
  proof (cases "tn_level (ns ! a) = lvl - 1")
    case True
    then show ?thesis
      using e a ck mset_concat_map_update [OF a, of tn_children "(ns ! a)\<lparr>tn_children := tn_children (ns ! a) @ [c]\<rparr>"]
      by (simp add: all_children_def)
  next
    case False
    then show ?thesis using Cons e ck by auto
  qed
qed simp

lemma child_check:
  assumes "heap_ok ns" "distinct (map tn_id ns)" "c < length ns" "c \<notin> set (all_children ns)"
  shows "\<forall>a < length ns. tn_id (ns ! c) \<notin> set (map (\<lambda>x. tn_id (ns ! x)) (tn_children (ns ! a)))"
proof (intro allI impI notI)
  fix a assume a: "a < length ns" and "tn_id (ns ! c) \<in> set (map (\<lambda>x. tn_id (ns ! x)) (tn_children (ns ! a)))"
  then obtain x where x: "x \<in> set (tn_children (ns ! a))" "tn_id (ns ! x) = tn_id (ns ! c)" by auto
  have "x < length ns" using assms(1) a x(1) by (auto simp: heap_ok_def)
  then have "x = c" using x(2) assms(2,3) nth_eq_iff_index_eq [of "map tn_id ns" x c] by simp
  then show False using x(1) a assms(4) by (auto simp: all_children_def)
qed

lemma set_all_children_attached:
  "mset (all_children ns') = mset (all_children ns) + {#c#} \<Longrightarrow> set (all_children ns') = insert c (set (all_children ns))"
  by (metis set_mset_mset set_mset_add_mset_insert add_mset_add_single)

lemma tree_pass2_count:
  assumes "list_all2 (\<lambda>r i. (\<exists>p. tr_referred r = Some p \<and> map_of (th_map h) (pj_id p) = Some i) \<and>
              i < length (th_nodes h) \<and> tr_level r = map tn_level (th_nodes h) ! i) rs js"
    and "distinct js" "set js \<inter> set (all_children (th_nodes h)) = {}"
    and "heap_ok (th_nodes h)" "distinct (map tn_id (th_nodes h))"
    and "\<forall>(k, a) \<in> set (th_map h). a < length (th_nodes h)"
    and "\<forall>i < length (th_nodes h). 1 < map tn_level (th_nodes h) ! i \<longrightarrow>
           (\<exists>(k, a) \<in> set (th_map h). map tn_level (th_nodes h) ! a = map tn_level (th_nodes h) ! i - 1)"
  shows "mset (all_children (th_nodes (tree_pass2 rs h))) =
           mset (all_children (th_nodes h)) + mset (filter (\<lambda>i. 1 < map tn_level (th_nodes h) ! i) js)"
  using assms
proof (induction rs arbitrary: h js)
  case Nil
  then show ?case by simp
next
  case (Cons r rs)
  obtain j js' where js: "js = j # js'" using Cons.prems(1) by (cases js) auto
  obtain p where p: "tr_referred r = Some p" and mj: "map_of (th_map h) (pj_id p) = Some j"
    and j: "j < length (th_nodes h)" and lr: "tr_level r = map tn_level (th_nodes h) ! j"
    and rel: "list_all2 (\<lambda>r i. (\<exists>p. tr_referred r = Some p \<and> map_of (th_map h) (pj_id p) = Some i) \<and>
              i < length (th_nodes h) \<and> tr_level r = map tn_level (th_nodes h) ! i) rs js'"
    using Cons.prems(1) js by auto
  have jn: "j \<notin> set js'" "j \<notin> set (all_children (th_nodes h))"
    using Cons.prems(2,3) js by auto
  show ?case
  proof (cases "1 < tr_level r")
    case True
    let ?ns = "th_nodes h" and ?lvl = "tr_level r"
    let ?ns' = "attach_first ?lvl j (th_map h) ?ns" and ?h' = "h\<lparr>th_nodes := attach_first ?lvl j (th_map h) ?ns\<rparr>"
    have step: "tree_pass2 (r # rs) h = tree_pass2 rs ?h'" using True p mj by simp
    have lv: "map tn_level ?ns' = map tn_level ?ns" by (rule attach_first_levels)
    have ex: "\<exists>(k, a) \<in> set (th_map h). tn_level (?ns ! a) = ?lvl - 1"
    proof -
      obtain k a where "(k, a) \<in> set (th_map h)" "map tn_level ?ns ! a = map tn_level ?ns ! j - 1"
        using Cons.prems(7) j True lr by fastforce
      moreover have "a < length ?ns" using Cons.prems(6) calculation(1) by blast
      ultimately show ?thesis using lr j by auto
    qed
    have att: "mset (all_children ?ns') = mset (all_children ?ns) + {#j#}"
      by (rule attach_first_attached [OF ex Cons.prems(6) child_check [OF Cons.prems(4,5) j jn(2)]])
    have hk: "heap_ok ?ns'"
      by (rule attach_first_heap_ok [OF Cons.prems(4) j _ _ Cons.prems(6)]) (use lr j True in simp_all)
    have ih: "mset (all_children (th_nodes (tree_pass2 rs ?h'))) =
                mset (all_children (th_nodes ?h')) + mset (filter (\<lambda>i. 1 < map tn_level (th_nodes ?h') ! i) js')"
    proof (rule Cons.IH)
      show "list_all2 (\<lambda>r i. (\<exists>p. tr_referred r = Some p \<and> map_of (th_map ?h') (pj_id p) = Some i) \<and>
              i < length (th_nodes ?h') \<and> tr_level r = map tn_level (th_nodes ?h') ! i) rs js'"
        using rel lv by simp
      show "distinct js'" using Cons.prems(2) js by simp
      show "set js' \<inter> set (all_children (th_nodes ?h')) = {}"
        using Cons.prems(3) js jn(1) set_all_children_attached [OF att] by auto
      show "heap_ok (th_nodes ?h')" using hk by simp
      show "distinct (map tn_id (th_nodes ?h'))" using Cons.prems(5) attach_first_ids by simp
      show "\<forall>(k, a) \<in> set (th_map ?h'). a < length (th_nodes ?h')" using Cons.prems(6) by simp
      show "\<forall>i < length (th_nodes ?h'). 1 < map tn_level (th_nodes ?h') ! i \<longrightarrow>
              (\<exists>(k, a) \<in> set (th_map ?h'). map tn_level (th_nodes ?h') ! a = map tn_level (th_nodes ?h') ! i - 1)"
        using Cons.prems(7) lv by simp
    qed
    show ?thesis using step ih att lv js True lr by simp
  next
    case False
    then have "tree_pass2 (r # rs) h = tree_pass2 rs h" using p by simp
    moreover have "mset (all_children (th_nodes (tree_pass2 rs h))) =
        mset (all_children (th_nodes h)) + mset (filter (\<lambda>i. 1 < map tn_level (th_nodes h) ! i) js')"
      using Cons.IH [OF rel _ _ Cons.prems(4-7)] Cons.prems(2,3) js by simp
    ultimately show ?thesis using js False lr by simp
  qed
qed

lemma next_gen_append [simp]: "next_gen ns (xs @ ys) = next_gen ns xs @ next_gen ns ys"
  by (simp add: next_gen_def)

lemma gens_Nil [simp]: "gens f ns [] = []"
  by (induction f) (simp_all add: next_gen_def)

lemma gens_append: "mset (gens f ns (xs @ ys)) = mset (gens f ns xs) + mset (gens f ns ys)"
  by (induction f arbitrary: xs ys) (simp_all add: ac_simps)

lemma mset_concat_map: "mset (concat (map g xs)) = sum_mset (image_mset (mset \<circ> g) (mset xs))"
  by (induction xs) simp_all

lemma gens_perm: "mset xs = mset ys \<Longrightarrow> mset (gens f ns xs) = mset (gens f ns ys)"
proof (induction f arbitrary: xs ys)
  case (Suc f)
  have "mset (next_gen ns xs) = mset (next_gen ns ys)"
    using Suc.prems by (simp only: next_gen_def mset_concat_map)
  then have "mset (gens f ns (next_gen ns xs)) = mset (gens f ns (next_gen ns ys))" by (rule Suc.IH)
  then show ?case using Suc.prems by simp
qed simp

lemma no_children_at_fuel_end:
  assumes "heap_ok ns" "\<forall>b < length ns. tn_level (ns ! b) \<le> L" "a < length ns" "L < tn_level (ns ! a) + Suc 0"
  shows "tn_children (ns ! a) = []"
proof (rule ccontr)
  assume "tn_children (ns ! a) \<noteq> []"
  then obtain c where "c \<in> set (tn_children (ns ! a))" by (cases "tn_children (ns ! a)") auto
  then have "c < length ns" "tn_level (ns ! c) = Suc (tn_level (ns ! a))"
    using assms(1,3) by (auto simp: heap_ok_def)
  then show False using assms(2,4) by fastforce
qed

lemma tree_preorder_gens:
  assumes h: "heap_ok ns" and lv: "\<forall>b < length ns. tn_level (ns ! b) \<le> L"
  shows "\<forall>a \<in> set as. a < length ns \<and> L < tn_level (ns ! a) + Suc f \<Longrightarrow>
         \<exists>xs. tree_preorder (Suc f) ns as = Some xs \<and> mset xs = mset (gens f ns as)"
proof (induction f arbitrary: as)
  case 0
  then have "\<forall>a \<in> set as. tn_children (ns ! a) = []"
    using no_children_at_fuel_end [OF h lv] by simp
  then have "tree_preorder (Suc 0) ns as = Some as"
    by (induction as) simp_all
  then show ?case by simp
next
  case (Suc f)
  show ?case using Suc.prems
  proof (induction as)
    case (Cons a as)
    have ch: "\<forall>c \<in> set (tn_children (ns ! a)). c < length ns \<and> L < tn_level (ns ! c) + Suc f"
      using h Cons.prems by (auto simp: heap_ok_def)
    obtain X where X: "(if tn_children (ns ! a) = [] then Some [] else tree_preorder (Suc f) ns (tn_children (ns ! a))) = Some X"
        "mset X = mset (gens f ns (tn_children (ns ! a)))"
    proof (cases "tn_children (ns ! a) = []")
      case True
      then show ?thesis using that [of "[]"] by simp
    next
      case False
      obtain X where "tree_preorder (Suc f) ns (tn_children (ns ! a)) = Some X"
          "mset X = mset (gens f ns (tn_children (ns ! a)))"
        using Suc.IH [OF ch] by blast
      then show ?thesis using that [of X] False by simp
    qed
    have "\<forall>b \<in> set as. b < length ns \<and> L < tn_level (ns ! b) + Suc (Suc f)" using Cons.prems by simp
    then obtain Y where Y: "tree_preorder (Suc (Suc f)) ns as = Some Y" "mset Y = mset (gens (Suc f) ns as)"
      using Cons.IH by blast
    have pre: "tree_preorder (Suc (Suc f)) ns (a # as) = Some (a # X @ Y)"
      by (simp only: tree_preorder.simps(3) X(1) Y(1) option.simps)
    have g: "gens (Suc f) ns (a # as) = a # as @ gens f ns (tn_children (ns ! a) @ next_gen ns as)"
      by (simp add: next_gen_def)
    have "mset (gens (Suc f) ns (a # as)) = add_mset a (mset as + (mset X + mset (gens f ns (next_gen ns as))))"
      unfolding g using X(2) gens_append [of f ns "tn_children (ns ! a)" "next_gen ns as"] by simp
    also have "\<dots> = mset (a # X @ Y)" using Y(2) by (simp add: ac_simps)
    finally have m: "mset (gens (Suc f) ns (a # as)) = mset (a # X @ Y)" .
    show ?case by (rule exI [where x = "a # X @ Y"]) (simp only: pre m simp_thms)
  qed simp
qed

lemma concat_filter_select:
  "\<forall>a \<in> set xs. filter P (g a) = (if Q a then g a else []) \<Longrightarrow>
   concat (map (\<lambda>a. filter P (g a)) xs) = concat (map g (filter Q xs))"
  by (induction xs) auto

lemma map_as_nth: "map f xs = map (\<lambda>i. f (xs ! i)) [0..<length xs]"
proof -
  have "map f xs = map f (map (\<lambda>i. xs ! i) [0..<length xs])" by (simp only: map_nth)
  then show ?thesis by (simp only: map_map comp_def)
qed

lemma next_gen_level:
  assumes h: "heap_ok ns" and ch: "mset (all_children ns) = mset (filter (\<lambda>i. 1 < tn_level (ns ! i)) [0..<length ns])"
    and l: "1 \<le> l"
  shows "mset (next_gen ns (level_nodes ns l)) = mset (level_nodes ns (Suc l))"
proof -
  let ?P = "\<lambda>c. tn_level (ns ! c) = Suc l" and ?g = "\<lambda>a. tn_children (ns ! a)"
  have sel: "\<forall>a \<in> set [0..<length ns]. filter ?P (?g a) = (if tn_level (ns ! a) = l then ?g a else [])"
  proof
    fix a assume "a \<in> set [0..<length ns]"
    then have "\<forall>c \<in> set (?g a). tn_level (ns ! c) = Suc (tn_level (ns ! a))" using h by (auto simp: heap_ok_def)
    then show "filter ?P (?g a) = (if tn_level (ns ! a) = l then ?g a else [])" by (auto simp: filter_empty_conv)
  qed
  have "filter ?P (all_children ns) = next_gen ns (level_nodes ns l)"
    unfolding all_children_def map_as_nth [of tn_children ns] filter_concat map_map comp_def
      concat_filter_select [OF sel] next_gen_def level_nodes_def ..
  then have "mset (next_gen ns (level_nodes ns l)) = filter_mset ?P (mset (all_children ns))"
    by (simp only: mset_filter [symmetric])
  also have "\<dots> = mset (filter (\<lambda>i. 1 < tn_level (ns ! i) \<and> tn_level (ns ! i) = Suc l) [0..<length ns])"
    unfolding ch by simp
  also have "\<dots> = mset (level_nodes ns (Suc l))"
    unfolding level_nodes_def by (rule arg_cong [where f = mset], rule filter_cong) (use l in auto)
  finally show ?thesis .
qed

lemma gens_levels:
  assumes "heap_ok ns" "mset (all_children ns) = mset (filter (\<lambda>i. 1 < tn_level (ns ! i)) [0..<length ns])"
  shows "mset (gens f ns (level_nodes ns (Suc k))) = sum_list (map (\<lambda>l. mset (level_nodes ns l)) [Suc k..<Suc (Suc k + f)])"
proof (induction f arbitrary: k)
  case 0
  then show ?case by simp
next
  case (Suc f)
  have "mset (gens f ns (next_gen ns (level_nodes ns (Suc k)))) = mset (gens f ns (level_nodes ns (Suc (Suc k))))"
    by (rule gens_perm) (rule next_gen_level [OF assms], simp)
  then show ?case using Suc.IH [of "Suc k"] by (simp add: upt_conv_Cons del: upt_Suc)
qed

lemma sum_list_singletons: "sum_list (map (\<lambda>x. {#x#}) xs) = mset xs"
  by (induction xs) simp_all

lemma level_nodes_sum:
  assumes "distinct ls" "\<forall>i < length ns. tn_level (ns ! i) \<in> set ls"
  shows "sum_list (map (\<lambda>l. mset (level_nodes ns l)) ls) = mset [0..<length ns]"
proof -
  have "sum_list (map (\<lambda>l. mset (level_nodes ns l)) ls) =
        sum_list (map (\<lambda>l. sum_list (map (\<lambda>x. {#x#}) (filter (\<lambda>x. True \<and> tn_level (ns ! x) = l) [0..<length ns]))) ls)"
    by (simp add: level_nodes_def sum_list_singletons)
  also have "\<dots> = sum_list (map (\<lambda>x. {#x#}) (filter (\<lambda>x. True \<and> tn_level (ns ! x) \<in> set ls) [0..<length ns]))"
    by (rule sum_list_by_key [OF assms(1)])
  also have "\<dots> = mset [0..<length ns]"
    using assms(2) by (simp add: sum_list_singletons)
  finally show ?thesis .
qed

lemma preorder_visits_all:
  assumes h: "heap_ok ns" and lv: "\<forall>b < length ns. 1 \<le> tn_level (ns ! b) \<and> tn_level (ns ! b) \<le> L"
    and ch: "mset (all_children ns) = mset (filter (\<lambda>i. 1 < tn_level (ns ! i)) [0..<length ns])"
  shows "\<exists>xs. tree_preorder (Suc L) ns (level_nodes ns 1) = Some xs \<and> mset xs = mset [0..<length ns]"
proof -
  have lv': "\<forall>b < length ns. tn_level (ns ! b) \<le> L" using lv by blast
  have "\<forall>a \<in> set (level_nodes ns 1). a < length ns \<and> L < tn_level (ns ! a) + Suc L"
    by (simp add: level_nodes_def)
  then obtain xs where xs: "tree_preorder (Suc L) ns (level_nodes ns 1) = Some xs"
      "mset xs = mset (gens L ns (level_nodes ns (Suc 0)))"
    using tree_preorder_gens [OF h lv'] by fastforce
  have "mset (gens L ns (level_nodes ns (Suc 0))) = sum_list (map (\<lambda>l. mset (level_nodes ns l)) [Suc 0..<Suc (Suc 0 + L)])"
    by (rule gens_levels [OF h ch])
  also have "\<dots> = mset [0..<length ns]"
    by (rule level_nodes_sum) (use lv in auto)
  finally show ?thesis using xs by auto
qed

lemma tree_pass2_levels: "map tn_level (th_nodes (tree_pass2 rs h)) = map tn_level (th_nodes h)"
  by (induction rs arbitrary: h) (auto simp: attach_first_levels split: option.splits)

definition rows_ok :: "nat \<Rightarrow> tree_row list \<Rightarrow> bool" where
  \<comment> \<open>every row joined a profile, ids are unique, levels lie in 1..L and have no gaps\<close>
  "rows_ok L R \<longleftrightarrow>
     (\<forall>r \<in> set R. tr_referred r \<noteq> None \<and> 1 \<le> tr_level r \<and> tr_level r \<le> L) \<and>
     distinct (map (\<lambda>r. pj_id (the (tr_referred r))) R) \<and>
     (\<forall>r \<in> set R. 1 < tr_level r \<longrightarrow> (\<exists>r' \<in> set R. tr_level r' = tr_level r - 1))"

lemma build_tree_shape:
  assumes ok: "rows_ok L R" and klu: "key_level_unique R"
  defines "ns \<equiv> th_nodes (build_tree_structure R)"
  shows "length ns = length R \<and> (\<forall>i < length R. tn_level (ns ! i) = tr_level (R ! i)) \<and>
         th_roots (build_tree_structure R) = level_nodes ns 1 \<and>
         mset (all_children ns) = mset (filter (\<lambda>i. 1 < tn_level (ns ! i)) [0..<length ns])"
proof -
  let ?H1 = "tree_pass1 R empty_heap" and ?ids = "map (\<lambda>r. pj_id (the (tr_referred r))) R"
  have some: "\<forall>r \<in> set R. tr_referred r \<noteq> None" and di: "distinct ?ids"
    and cons: "\<forall>r \<in> set R. 1 < tr_level r \<longrightarrow> (\<exists>r' \<in> set R. tr_level r' = tr_level r - 1)"
    using ok by (auto simp: rows_ok_def)
  have n1: "th_nodes ?H1 = map row_node R" using tree_pass1_nodes [OF some, of empty_heap] by (simp add: empty_heap_def)
  have m1: "th_map ?H1 = zip ?ids [0..<length R]"
    using tree_pass1_map [OF some di, of empty_heap] by (simp add: empty_heap_def)
  have r1: "th_roots ?H1 = filter (\<lambda>i. tr_level (R ! i) = 1) [0..<length R]"
    using tree_pass1_roots_eq [OF some, of empty_heap] by (simp add: empty_heap_def)
  have lv1: "map tn_level (th_nodes ?H1) ! i = tr_level (R ! i)" if "i < length R" for i
    using that by (simp add: n1 row_node_def new_tree_node_def)
  have lvH: "map tn_level ns = map tn_level (th_nodes ?H1)"
    unfolding ns_def build_tree_structure_def by (rule tree_pass2_levels)
  have len: "length ns = length R" using arg_cong [OF lvH, of length] n1 by simp
  have lvi: "tn_level (ns ! i) = tr_level (R ! i)" if "i < length R" for i
    using lvH lv1 [OF that] that len by (metis nth_map)
  have roots: "th_roots (build_tree_structure R) = level_nodes ns 1"
    using tree_pass2_roots [of R ?H1] r1 lvi len
    by (auto simp: build_tree_structure_def level_nodes_def intro: filter_cong)
  have nil: "all_children (th_nodes ?H1) = []"
    by (simp add: n1 all_children_def row_node_def new_tree_node_def)
  have ac: "mset (all_children (th_nodes (tree_pass2 R ?H1))) =
      mset (all_children (th_nodes ?H1)) + mset (filter (\<lambda>i. 1 < map tn_level (th_nodes ?H1) ! i) [0..<length R])"
  proof (rule tree_pass2_count)
    show "list_all2 (\<lambda>r i. (\<exists>p. tr_referred r = Some p \<and> map_of (th_map ?H1) (pj_id p) = Some i) \<and>
            i < length (th_nodes ?H1) \<and> tr_level r = map tn_level (th_nodes ?H1) ! i) R [0..<length R]"
      unfolding list_all2_conv_all_nth
    proof (rule conjI, simp, intro allI impI)
      fix i assume iR: "i < length R"
      then obtain p where p: "tr_referred (R ! i) = Some p" using some nth_mem by blast
      have "map_of (zip ?ids [0..<length R]) (?ids ! i) = Some ([0..<length R] ! i)"
        using map_of_zip_nth [of ?ids "[0..<length R]" i] di iR by simp
      then show "(\<exists>p. tr_referred (R ! i) = Some p \<and> map_of (th_map ?H1) (pj_id p) = Some ([0..<length R] ! i)) \<and>
            [0..<length R] ! i < length (th_nodes ?H1) \<and> tr_level (R ! i) = map tn_level (th_nodes ?H1) ! ([0..<length R] ! i)"
        using p iR lv1 [OF iR] by (simp add: m1 n1)
    qed
    show "distinct [0..<length R]" by simp
    show "set [0..<length R] \<inter> set (all_children (th_nodes ?H1)) = {}" by (simp add: nil)
    show "heap_ok (th_nodes ?H1)" by (simp add: heap_ok_def n1 row_node_def new_tree_node_def)
    show "distinct (map tn_id (th_nodes ?H1))"
      using di by (simp add: n1 comp_def row_node_def new_tree_node_def)
    show "\<forall>(k, a) \<in> set (th_map ?H1). a < length (th_nodes ?H1)"
      by (auto simp: m1 n1 dest: set_zip_rightD)
    show "\<forall>i < length (th_nodes ?H1). 1 < map tn_level (th_nodes ?H1) ! i \<longrightarrow>
            (\<exists>(k, a) \<in> set (th_map ?H1). map tn_level (th_nodes ?H1) ! a = map tn_level (th_nodes ?H1) ! i - 1)"
    proof (intro allI impI)
      fix i assume i: "i < length (th_nodes ?H1)" and gt: "1 < map tn_level (th_nodes ?H1) ! i"
      then have iR: "i < length R" by (simp add: n1)
      obtain r' where r': "r' \<in> set R" "tr_level r' = tr_level (R ! i) - 1"
        using cons nth_mem [OF iR] gt lv1 [OF iR] by auto
      then obtain a where a: "a < length R" "R ! a = r'" by (auto simp: in_set_conv_nth)
      have "(?ids ! a, a) \<in> set (zip ?ids [0..<length R])"
        unfolding in_set_zip using a(1) by (intro exI [where x = a]) simp
      then show "\<exists>(k, a) \<in> set (th_map ?H1). map tn_level (th_nodes ?H1) ! a = map tn_level (th_nodes ?H1) ! i - 1"
        using a r' lv1 [OF a(1)] lv1 [OF iR] by (auto simp: m1)
    qed
  qed
  have "filter (\<lambda>i. 1 < map tn_level (th_nodes ?H1) ! i) [0..<length R] = filter (\<lambda>i. 1 < tn_level (ns ! i)) [0..<length ns]"
    using lv1 lvi len by (auto intro: filter_cong)
  then have "mset (all_children ns) = mset (filter (\<lambda>i. 1 < tn_level (ns ! i)) [0..<length ns])"
    using ac nil by (simp add: ns_def build_tree_structure_def)
  then show ?thesis using len lvi roots by blast
qed

lemma tree_total_rows:
  assumes ok: "rows_ok L R" and klu: "key_level_unique R"
  shows "count_nodes (Suc L) (th_nodes (build_tree_structure R)) (th_roots (build_tree_structure R)) 0 = Some (length R)"
proof -
  let ?ns = "th_nodes (build_tree_structure R)"
  have len: "length ?ns = length R" and lvi: "\<forall>i < length R. tn_level (?ns ! i) = tr_level (R ! i)"
    and roots: "th_roots (build_tree_structure R) = level_nodes ?ns 1"
    and ch: "mset (all_children ?ns) = mset (filter (\<lambda>i. 1 < tn_level (?ns ! i)) [0..<length ?ns])"
    using build_tree_shape [OF ok klu] by auto
  have h: "heap_ok ?ns" using build_tree_ok [OF klu] by blast
  have lv: "\<forall>b < length ?ns. 1 \<le> tn_level (?ns ! b) \<and> tn_level (?ns ! b) \<le> L"
    using ok lvi len nth_mem by (fastforce simp: rows_ok_def)
  obtain xs where xs: "tree_preorder (Suc L) ?ns (level_nodes ?ns 1) = Some xs" "mset xs = mset [0..<length ?ns]"
    using preorder_visits_all [OF h lv ch] by blast
  have "length xs = length R" using arg_cong [OF xs(2), of size] len by simp
  then show ?thesis using xs(1) roots by (simp add: count_nodes_preorder)
qed

lemma tree_query_rows_ok:
  assumes reach: "ref_reach g" and pok: "prof_ok prof" and tot: "\<forall>e \<in> set (ref_edges g). prof (edge_referred e) \<noteq> None"
  shows "rows_ok referral_cap (tree_query g prof u)"
proof -
  have inv: "ref_inv g" by (rule ref_reach_inv [OF reach])
  have ex: "\<forall>e. e \<in> set (ref_edges g) \<longleftrightarrow> edge_ok (referrer g) e" and de: "distinct (ref_edges g)"
    using inv by (auto simp: ref_inv_def)
  let ?E = "filter (\<lambda>e. edge_user e = u) (ref_edges g)"
  have ids: "map (\<lambda>r. pj_id (the (tr_referred r))) (tree_query g prof u) = map edge_referred (sort_key edge_level ?E)"
  proof -
    have "pj_id (the (prof (edge_referred e))) = edge_referred e" if "e \<in> set (ref_edges g)" for e
      using tot that pok by (auto simp: prof_ok_def)
    then show ?thesis by (auto simp: tree_query_def)
  qed
  have "inj_on edge_referred (set ?E)"
    by (rule inj_onI) (use ref_inv_level_unique [OF inv] in auto)
  then have "distinct (map edge_referred ?E)" using de by (simp add: distinct_map)
  moreover have "mset (map edge_referred (sort_key edge_level ?E)) = mset (map edge_referred ?E)" by simp
  ultimately have di: "distinct (map (\<lambda>r. pj_id (the (tr_referred r))) (tree_query g prof u))"
    unfolding ids by (metis mset_eq_imp_distinct_iff)
  have cons: "\<exists>r' \<in> set (tree_query g prof u). tr_level r' = tr_level r - 1"
    if r: "r \<in> set (tree_query g prof u)" and gt: "1 < tr_level r" for r
  proof -
    obtain e where e: "e \<in> set (ref_edges g)" "edge_user e = u"
        "r = \<lparr>tr_level = edge_level e, tr_referred = prof (edge_referred e)\<rparr>"
      using r by (auto simp: tree_query_def)
    have ok: "edge_ok (referrer g) e" using ex e(1) by blast
    obtain k where k: "edge_level e = Suc k" "0 < k" using gt e(3) by (cases "edge_level e") auto
    then obtain y where y: "referrer g (edge_referred e) = Some y" "kth_referrer (referrer g) k y = Some (edge_user e)"
      using ok by (auto simp: edge_ok_def split: option.splits)
    let ?e' = "\<lparr>edge_user = u, edge_referred = y, edge_level = k\<rparr>"
    have "edge_ok (referrer g) ?e'" using ok k y e(2) by (simp add: edge_ok_def)
    then have "?e' \<in> set ?E" using ex by simp
    then have "\<lparr>tr_level = k, tr_referred = prof y\<rparr> \<in> set (tree_query g prof u)"
      by (force simp: tree_query_def)
    then show ?thesis using k e(3) by force
  qed
  have "\<forall>r \<in> set (tree_query g prof u). tr_referred r \<noteq> None \<and> 1 \<le> tr_level r \<and> tr_level r \<le> referral_cap"
    using tot ex by (auto simp: tree_query_def edge_ok_def)
  then show ?thesis using di cons by (simp add: rows_ok_def)
qed

lemma referrals_total_all_levels:
  assumes "ref_reach g"
  shows "rs_total_referrals (referrals_load_data (Some u) cfg {} {} failed (ref_edges g) cms st) =
           length (filter (\<lambda>e. edge_user e = u) (ref_edges g))"
proof -
  have "\<forall>e \<in> set (ref_edges g). edge_level e \<in> set screen_levels"
    using ref_reach_inv [OF assms] screen_levels_cap by (auto simp: ref_inv_def edge_ok_def)
  then have "filter (\<lambda>e. edge_user e = u \<and> edge_level e \<in> set screen_levels) (ref_edges g) =
             filter (\<lambda>e. edge_user e = u) (ref_edges g)"
    by (auto intro: filter_cong)
  moreover obtain rows tot cnt where l: "load_referral_data {} {} (ref_edges g) cms u = (rows, tot, cnt)"
    by (cases "load_referral_data {} {} (ref_edges g) cms u") auto
  ultimately show ?thesis
    using load_referral_data_totals [OF l] by (simp add: referrals_load_data_def Let_def)
qed

text \<open>C32: when every referred user has a profile, the downline tree's Total Members equals the referrals screen's Total Referrals: the tree shows every edge of the user's downline once.\<close>

theorem tree_total_matches_referrals:
  assumes "ref_reach g" "prof_ok prof" "\<forall>e \<in> set (ref_edges g). prof (edge_referred e) \<noteq> None"
  shows "get_total_referrals (Suc referral_cap) (load_tree_data (Some u) False g prof st) =
           Some (rs_total_referrals (referrals_load_data (Some u) cfg {} {} failed (ref_edges g) cms st'))"
proof -
  let ?R = "tree_query g prof u"
  have "count_nodes (Suc referral_cap) (th_nodes (build_tree_structure ?R)) (th_roots (build_tree_structure ?R)) 0 =
          Some (length ?R)"
    using tree_total_rows [OF tree_query_rows_ok [OF assms]] tree_query_rows [OF assms(1,2)] by blast
  moreover have "length ?R = length (filter (\<lambda>e. edge_user e = u) (ref_edges g))"
    by (simp add: tree_query_def)
  ultimately show ?thesis
    using referrals_total_all_levels [OF assms(1)]
    by (simp add: get_total_referrals_def load_tree_data_def Let_def)
qed

theorem tree_total_matches_referrals_witness:
  "get_total_referrals (Suc referral_cap) (load_tree_data (Some 1) False branching_graph example_profiles initial_tree_screen) =
     Some (rs_total_referrals (referrals_load_data (Some 1) None {} {} False (ref_edges branching_graph) []
             initial_referrals_screen))"
  by (rule tree_total_matches_referrals [OF branching_graph_reach])
     (simp_all add: prof_ok_def example_profiles_def)

end
