(* ===== verification/DemoScreens.thy ===== *)
theory DemoScreens
  imports View
begin

text \<open>
  The demonstration screens of \<open>src/app/(tabs)/\<close>, which show hard-coded data and write
  nothing to the store.
  \<^item> \<open>planScreen.tsx\<close> (the installment payment screen the plans tab's Subscribe button
    opens): the amount field, the payment-mode buttons, \<open>handlePayNow\<close> with its check
    \<open>!amount || Number(amount) < 5000\<close>, the simulated two-second payment and the modals.
    \<open>Number\<close> is JavaScript's StringToNumber (\<open>string_to_number\<close>): surrounding white space
    is trimmed (the white space of the 8-bit characters HOL strings hold: tab, line
    breaks, space and no-break space; the other Unicode white space, such as U+2028 or
    U+FEFF, is outside the model), the empty string is 0, \<open>0x\<close>/\<open>0o\<close>/\<open>0b\<close> literals, a signed decimal
    literal with fraction and exponent, \<open>Infinity\<close>, and NaN for anything else.  Finite
    values are kept as exact rationals: the rounding to a binary64 double is not modelled,
    which can only matter for inputs closer to 5000 than the spacing of doubles there.
\<close>

section \<open>JavaScript's Number applied to a string\<close>

datatype js_number = JNaN | JFin rat | JInf bool \<comment> \<open>\<open>JInf True\<close> is +Infinity\<close>

definition is_hex_digit :: "char \<Rightarrow> bool" where
  "is_hex_digit c \<longleftrightarrow> is_digit c \<or> (of_char c :: nat) \<in> {97..102} \<or> (of_char c :: nat) \<in> {65..70}"

definition hex_val :: "char \<Rightarrow> nat" where
  "hex_val c = (if is_digit c then of_char c - 48 else if (of_char c :: nat) \<ge> 97 then of_char c - 87 else of_char c - 55)"

definition radix_value :: "nat \<Rightarrow> string \<Rightarrow> nat" where
  "radix_value b ds = foldl (\<lambda>a c. a * b + hex_val c) 0 ds"

definition radix_literal :: "string \<Rightarrow> js_number option" where
  \<comment> \<open>NonDecimalIntegerLiteral: \<open>0x\<close>, \<open>0o\<close> or \<open>0b\<close> and at least one digit of that base\<close>
  "radix_literal t =
     (case t of
        c0 # c1 # ds \<Rightarrow>
          (if c0 = CHR ''0'' \<and> ds \<noteq> [] then
             (if c1 \<in> {CHR ''x'', CHR ''X''} \<and> list_all is_hex_digit ds then Some (JFin (of_nat (radix_value 16 ds)))
              else if c1 \<in> {CHR ''o'', CHR ''O''} \<and> list_all (\<lambda>c. (of_char c :: nat) \<in> {48..55}) ds
              then Some (JFin (of_nat (radix_value 8 ds)))
              else if c1 \<in> {CHR ''b'', CHR ''B''} \<and> list_all (\<lambda>c. (of_char c :: nat) \<in> {48..49}) ds
              then Some (JFin (of_nat (radix_value 2 ds)))
              else None)
           else None)
      | _ \<Rightarrow> None)"

definition split_sign :: "string \<Rightarrow> bool \<times> string" where
  \<comment> \<open>an optional \<open>+\<close> or \<open>-\<close>; \<open>True\<close> when negative\<close>
  "split_sign r =
     (if r \<noteq> [] \<and> hd r = CHR ''-'' then (True, tl r)
      else if r \<noteq> [] \<and> hd r = CHR ''+'' then (False, tl r) else (False, r))"

definition exp_part :: "string \<Rightarrow> int option" where
  \<comment> \<open>ExponentPart, or nothing\<close>
  "exp_part r =
     (if r = [] then Some 0
      else if hd r \<in> {CHR ''e'', CHR ''E''} then
        (case split_sign (tl r) of (neg, ds) \<Rightarrow>
           if ds \<noteq> [] \<and> list_all is_digit ds
           then Some (if neg then - int (digits_value ds) else int (digits_value ds)) else None)
      else None)"

definition unsigned_decimal :: "string \<Rightarrow> rat option" where
  \<comment> \<open>StrUnsignedDecimalLiteral without Infinity: digits, an optional point and digits, an exponent\<close>
  "unsigned_decimal u =
     (let ip = takeWhile is_digit u; r1 = dropWhile is_digit u;
          dot = (r1 \<noteq> [] \<and> hd r1 = CHR ''.'');
          fp = (if dot then takeWhile is_digit (tl r1) else []);
          r2 = (if dot then dropWhile is_digit (tl r1) else r1)
      in if ip = [] \<and> fp = [] then None
         else map_option (\<lambda>e. (of_nat (digits_value ip) + of_nat (digits_value fp) / 10 ^ length fp) *
                              (if 0 \<le> e then 10 ^ nat e else 1 / 10 ^ nat (- e)))
                (exp_part r2))"

definition decimal_literal :: "string \<Rightarrow> js_number option" where
  "decimal_literal t =
     (case split_sign t of (neg, u) \<Rightarrow>
        if u = ''Infinity'' then Some (JInf (\<not> neg))
        else map_option (\<lambda>x. JFin (if neg then - x else x)) (unsigned_decimal u))"

definition string_to_number :: "string \<Rightarrow> js_number" where
  "string_to_number s =
     (let t = js_trim s in
      if t = [] then JFin 0
      else case radix_literal t of
             Some n \<Rightarrow> n
           | None \<Rightarrow> (case decimal_literal t of Some n \<Rightarrow> n | None \<Rightarrow> JNaN))"

definition js_num_less :: "js_number \<Rightarrow> rat \<Rightarrow> bool" where
  \<comment> \<open>\<open>x < y\<close> for a number \<open>x\<close>: false whenever \<open>x\<close> is NaN\<close>
  "js_num_less n y = (case n of JNaN \<Rightarrow> False | JFin x \<Rightarrow> x < y | JInf pos \<Rightarrow> \<not> pos)"

definition radix_letters :: "char set" where
  "radix_letters = {CHR ''x'', CHR ''X'', CHR ''o'', CHR ''O'', CHR ''b'', CHR ''B''}"

section \<open>The installment payment screen\<close>

record install_screen =
  is_plan_id :: string
  is_amount :: string
  is_method :: string
  is_processing :: bool
  is_success :: bool
  is_error :: bool
  is_timers :: nat \<comment> \<open>\<open>setTimeout\<close> callbacks scheduled and not yet run\<close>

definition initial_install_screen :: "string \<Rightarrow> install_screen" where
  "initial_install_screen pid =
     \<lparr>is_plan_id = pid, is_amount = [], is_method = ''UPI'', is_processing = False, is_success = False,
      is_error = False, is_timers = 0\<rparr>"

datatype install_event = SetAmount string | SelectMethod string | PayNow | PayTimer | ContinuePressed

definition below_minimum :: "string \<Rightarrow> bool" where
  \<comment> \<open>\<open>!amount || Number(amount) < 5000\<close>\<close>
  "below_minimum s \<longleftrightarrow> s = [] \<or> js_num_less (string_to_number s) 5000"

definition handle_pay_now :: "install_screen \<Rightarrow> install_screen" where
  "handle_pay_now st =
     (if below_minimum (is_amount st) then st\<lparr>is_error := True\<rparr>
      else st\<lparr>is_error := False, is_processing := True, is_timers := Suc (is_timers st)\<rparr>)"

definition pay_timer :: "install_screen \<Rightarrow> install_screen" where
  "pay_timer st =
     (if is_timers st = 0 then st
      else st\<lparr>is_processing := False, is_success := True, is_timers := is_timers st - 1\<rparr>)"

definition install_step :: "install_event \<Rightarrow> install_screen \<Rightarrow> install_screen \<times> route option" where
  "install_step e st =
     (case e of
        SetAmount s \<Rightarrow> (st\<lparr>is_amount := s\<rparr>, None)
      | SelectMethod m \<Rightarrow> (st\<lparr>is_method := m\<rparr>, None)
      | PayNow \<Rightarrow> (handle_pay_now st, None)
      | PayTimer \<Rightarrow> (pay_timer st, None)
      | ContinuePressed \<Rightarrow> (st, Some (ToMyActivityPlan None)))"

definition payment_modes :: "string list" where
  "payment_modes = [''UPI'', ''Card'', ''NetBanking'', ''Cash'']"

definition install_view :: "install_screen \<Rightarrow> install_event widget list" where
  \<comment> \<open>a visible modal covers the screen and takes every touch\<close>
  "install_view st =
     (if is_success st then
        [Text [Glyph CheckMark], Text [Str ''Payment Successful''], Text [Str ''Amount''],
         Text [Glyph RupeeSign, Str (is_amount st)], Text [Str ''Method''], Text [Str (is_method st)],
         Button [Text [Str ''Continue'']] ContinuePressed]
      else if is_processing st then [Text [Str ''Processing Payment'', Glyph Ellipsis]]
      else [Text [Str ''Installment Payment''], Text [Str ''Plan ID: '', Str (is_plan_id st)],
            Text [Str ''Enter Installment Amount *''], Text [Str (is_amount st)]] @
           (if is_error st then [Text [Str ''Minimum installment must be '', Glyph RupeeSign, Str ''5000'']] else []) @
           [Text [Str ''Select Payment Mode'']] @
           map (\<lambda>m. (if is_method st = m then Highlight [Button [Text [Str m]] (SelectMethod m)]
                     else Button [Text [Str m]] (SelectMethod m))) payment_modes @
           [Button [Text [Str ''Proceed to Pay'']] PayNow])"

definition install_open :: "string \<Rightarrow> install_screen \<Rightarrow> install_screen" where
  \<comment> \<open>\<open>router.push('/planScreen?planId=...')\<close> to the mounted tab: only the parameter changes\<close>
  "install_open pid st = st\<lparr>is_plan_id := pid\<rparr>"

definition install_run :: "install_event list \<Rightarrow> install_screen \<Rightarrow> install_screen" where
  "install_run es st = foldl (\<lambda>s e. fst (install_step e s)) st es"

lemma js_trim_no_space: "\<forall>c \<in> set s. \<not> js_is_space c \<Longrightarrow> js_trim s = s"
proof -
  assume d: "\<forall>c \<in> set s. \<not> js_is_space c"
  have "dropWhile js_is_space s = s" using d by (cases s) simp_all
  moreover have "dropWhile js_is_space (rev s) = rev s" using d by (cases "rev s") (auto dest: arg_cong [where f = set])
  ultimately show ?thesis by (simp add: js_trim_def)
qed

lemma radix_literal_None: "\<forall>c \<in> set t. c \<notin> radix_letters \<Longrightarrow> radix_literal t = None"
proof (cases t)
  case (Cons c0 r)
  assume d: "\<forall>c \<in> set t. c \<notin> radix_letters"
  show ?thesis
  proof (cases r)
    case (Cons c1 ds)
    then have "c1 \<notin> {CHR ''x'', CHR ''X''} \<and> c1 \<notin> {CHR ''o'', CHR ''O''} \<and> c1 \<notin> {CHR ''b'', CHR ''B''}"
      using d \<open>t = c0 # r\<close> by (simp add: radix_letters_def)
    then show ?thesis using \<open>t = c0 # r\<close> Cons
      by (simp only: radix_literal_def list.case if_False simp_thms) (simp only: if_cancel)
  qed (simp add: radix_literal_def \<open>t = c0 # r\<close>)
qed (simp add: radix_literal_def)

lemma digit_chars_facts:
  "is_digit c \<Longrightarrow> c \<notin> radix_letters \<and> \<not> js_is_space c \<and> c \<noteq> CHR ''.'' \<and> c \<noteq> CHR ''-'' \<and> c \<noteq> CHR ''+'' \<and>
     c \<noteq> CHR ''I''"
  by (auto simp: is_digit_def radix_letters_def js_is_space_def)

lemma radix_literal_digits: "list_all is_digit s \<Longrightarrow> radix_literal s = None"
  by (rule radix_literal_None) (use digit_chars_facts in \<open>unfold list_all_iff, blast\<close>)

lemma unsigned_decimal_digits:
  "s \<noteq> [] \<Longrightarrow> list_all is_digit s \<Longrightarrow> unsigned_decimal s = Some (of_nat (digits_value s))"
proof -
  assume "s \<noteq> []" "list_all is_digit s"
  then have tw: "takeWhile is_digit s = s" and dw: "dropWhile is_digit s = []"
    by (simp_all add: list_all_iff)
  show ?thesis
    by (simp only: unsigned_decimal_def Let_def tw dw) (simp add: exp_part_def \<open>s \<noteq> []\<close>)
qed

lemma string_to_number_digits:
  assumes "s \<noteq> []" "list_all is_digit s"
  shows "string_to_number s = JFin (of_nat (digits_value s))"
proof -
  obtain c cs where s: "s = c # cs" using assms(1) by (cases s) auto
  have c: "is_digit c" using assms(2) s by simp
  then have "c \<noteq> CHR ''-''" "c \<noteq> CHR ''+''" "c \<noteq> CHR ''I''" by (auto simp: is_digit_def)
  then have "split_sign s = (False, s)" "s \<noteq> ''Infinity''" using s by (auto simp: split_sign_def)
  then have dl: "decimal_literal s = Some (JFin (of_nat (digits_value s)))"
    using unsigned_decimal_digits [OF assms] by (simp add: decimal_literal_def)
  have "\<forall>c \<in> set s. \<not> js_is_space c" using assms(2) digit_chars_facts unfolding list_all_iff by blast
  then show ?thesis
    using assms(1) dl by (simp add: string_to_number_def js_trim_no_space radix_literal_digits [OF assms(2)])
qed

lemma dot_not_digit: "\<not> is_digit (CHR ''.'')"
  by (simp add: is_digit_def)

lemma unsigned_decimal_point:
  assumes "a \<noteq> []" "list_all is_digit a" "list_all is_digit d"
  shows "unsigned_decimal (a @ ''.'' @ d) = Some (unsigned_value (a @ ''.'' @ d))"
proof -
  have tw: "takeWhile is_digit (a @ ''.'' @ d) = a" and dw: "dropWhile is_digit (a @ ''.'' @ d) = ''.'' @ d"
    using assms(2) dot_not_digit by (simp_all add: list_all_iff takeWhile_append2 dropWhile_append2)
  have tw2: "takeWhile is_digit d = d" and dw2: "dropWhile is_digit d = []"
    using assms(3) by (simp_all add: list_all_iff)
  have na: "CHR ''.'' \<notin> set a" using assms(2) dot_not_digit by (auto simp: list_all_iff)
  have "takeWhile (\<lambda>c. c \<noteq> CHR ''.'') (a @ ''.'' @ d) = a"
    using na by (subst takeWhile_append2) auto
  then have uv: "unsigned_value (a @ ''.'' @ d) = of_nat (digits_value a) + of_nat (digits_value d) / 10 ^ length d"
    by (simp add: unsigned_value_def)
  show ?thesis
    by (simp only: unsigned_decimal_def Let_def tw dw) (simp add: tw2 dw2 uv [simplified] exp_part_def assms(1))
qed

lemma dot_minus_plain: "\<not> js_is_space (CHR ''.'') \<and> CHR ''.'' \<notin> radix_letters"
  "\<not> js_is_space (CHR ''-'') \<and> CHR ''-'' \<notin> radix_letters"
  by (simp_all add: js_is_space_def radix_letters_def)

lemma string_to_number_unsigned:
  assumes "body \<noteq> []" "is_digit (hd body)" "\<forall>c \<in> set body. is_digit c \<or> c = CHR ''.''"
    and "unsigned_decimal body = Some v"
  shows "string_to_number body = JFin v" "string_to_number (CHR ''-'' # body) = JFin (- v)"
proof -
  have chars: "\<forall>c \<in> set body. \<not> js_is_space c \<and> c \<notin> radix_letters"
  proof
    fix c assume "c \<in> set body"
    then have "is_digit c \<or> c = CHR ''.''" using assms(3) by blast
    then show "\<not> js_is_space c \<and> c \<notin> radix_letters" using digit_chars_facts dot_minus_plain(1) by blast
  qed
  have hd: "hd body \<noteq> CHR ''-''" "hd body \<noteq> CHR ''+''" "hd body \<noteq> CHR ''I''"
    using assms(2) digit_chars_facts by blast+
  then have inf: "body \<noteq> ''Infinity''" by auto
  have "split_sign body = (False, body)" "split_sign (CHR ''-'' # body) = (True, body)"
    using hd(1,2) by (simp_all add: split_sign_def)
  then have "decimal_literal body = Some (JFin v)" "decimal_literal (CHR ''-'' # body) = Some (JFin (- v))"
    using inf assms(4) by (simp_all add: decimal_literal_def)
  moreover have "js_trim body = body" "js_trim (CHR ''-'' # body) = CHR ''-'' # body"
    using chars dot_minus_plain(2) by (simp_all add: js_trim_no_space)
  moreover have "radix_literal body = None" "radix_literal (CHR ''-'' # body) = None"
    using chars dot_minus_plain(2) by (simp_all add: radix_literal_None)
  ultimately show "string_to_number body = JFin v" "string_to_number (CHR ''-'' # body) = JFin (- v)"
    using assms(1) by (simp_all add: string_to_number_def)
qed

lemma digits_set_is_digit: "set m \<subseteq> set ''0123456789'' \<Longrightarrow> list_all is_digit m"
  by (auto simp: list_all_iff is_digit_def)

lemma nat_str_nonempty: "nat_str n \<noteq> []"
proof -
  have "0 < decimal_len n" by (subst decimal_len.simps) simp
  then have "0 < length (nat_str n)" by (simp add: nat_str_def)
  then show ?thesis using length_greater_0_conv by blast
qed

lemma string_to_number_fixed_decimal: "string_to_number (js_to_fixed f x) = JFin (decimal_value (js_to_fixed f x))"
proof -
  define n where "n = nat (js_round (\<bar>x\<bar> * 10 ^ f))"
  define m where "m = nat_str n"
  define m' where "m' = (if length m \<le> f then replicate (Suc f - length m) (CHR ''0'') @ m else m)"
  define body where "body = (if f = 0 then m else take (length m' - f) m' @ ''.'' @ drop (length m' - f) m')"
  have dm: "list_all is_digit m" "m \<noteq> []"
    unfolding m_def by (rule digits_set_is_digit [OF set_nat_str], rule nat_str_nonempty)
  have pad: "set m' \<subseteq> set ''0123456789''" "f < length m'"
    using fixed_padding [where m=m and f=f] set_nat_str [of n] unfolding m'_def m_def by auto
  have dm': "list_all is_digit m'" using pad(1) by (rule digits_set_is_digit)
  have shape: "body \<noteq> [] \<and> is_digit (hd body) \<and> (\<forall>c \<in> set body. is_digit c \<or> c = CHR ''.'') \<and>
               unsigned_decimal body = Some (unsigned_value body)"
  proof (cases "f = 0")
    case True
    have "CHR ''.'' \<notin> set m" using dm(1) dot_not_digit by (auto simp: list_all_iff)
    then show ?thesis using True dm unsigned_decimal_digits [OF dm(2,1)]
      by (simp add: body_def unsigned_value_no_dot list_all_iff)
  next
    case False
    define a where "a = take (length m' - f) m'"
    define d where "d = drop (length m' - f) m'"
    have a: "a \<noteq> []" "list_all is_digit a" "list_all is_digit d"
      using pad(2) dm' by (auto simp: a_def d_def list_all_iff dest: in_set_takeD in_set_dropD)
    have "body = a @ ''.'' @ d" using False by (simp add: body_def a_def d_def)
    then show ?thesis using a unsigned_decimal_point [OF a] by (auto simp: list_all_iff)
  qed
  have "CHR ''-'' \<notin> set body" using shape digit_chars_facts [of "CHR ''-''"] by auto
  moreover have "js_to_fixed f x = (if x < 0 then CHR ''-'' # body else body)"
    by (simp add: js_to_fixed_def Let_def body_def m'_def m_def n_def)
  ultimately show ?thesis
    using shape string_to_number_unsigned [of body "unsigned_value body"]
    by (simp add: decimal_value_minus decimal_value_unsigned)
qed

lemma install_step_success: "is_success st \<Longrightarrow> is_success (fst (install_step e st))"
  by (cases e) (simp_all add: install_step_def handle_pay_now_def pay_timer_def)

lemma install_run_success: "is_success st \<Longrightarrow> is_success (install_run es st)"
proof (induction es arbitrary: st)
  case (Cons e es)
  then show ?case using install_step_success [OF Cons.prems, of e] by (simp add: install_run_def)
qed (simp add: install_run_def)

lemma install_view_success: "is_success st \<Longrightarrow> view_events (install_view st) = [ContinuePressed]"
  by (simp add: install_view_def)

lemma handle_pay_now_error: "is_error (handle_pay_now st) = below_minimum (is_amount st)"
  by (simp add: handle_pay_now_def)

text \<open>C33: for an amount typed as a non-empty string of decimal digits, Proceed to Pay shows the minimum-installment error exactly when the number is below 5000.\<close>

theorem install_digits_minimum:
  assumes "is_amount st \<noteq> []" "list_all is_digit (is_amount st)"
  shows "is_error (fst (install_step PayNow st)) \<longleftrightarrow> digits_value (is_amount st) < 5000"
  using assms string_to_number_digits [OF assms]
  by (simp add: install_step_def handle_pay_now_error below_minimum_def js_num_less_def)

theorem install_digits_minimum_witness:
  "is_error (fst (install_step PayNow ((initial_install_screen ''p1'')\<lparr>is_amount := ''4999''\<rparr>)))"
proof -
  have "''4999'' \<noteq> []" "list_all is_digit ''4999''" by (simp_all add: is_digit_def)
  then show ?thesis
    using install_digits_minimum [of "(initial_install_screen ''p1'')\<lparr>is_amount := ''4999''\<rparr>"] by simp
qed

text \<open>C34: an amount that is not a number (for example 1,000 typed with a separator) passes the minimum check, because NaN < 5000 is false, and the payment succeeds with that text as the amount.\<close>

theorem install_nan_accepted:
  assumes "s \<noteq> []" "string_to_number s = JNaN"
  shows "is_success (install_run [SetAmount s, PayNow, PayTimer] st) \<and>
         \<not> is_error (install_run [SetAmount s, PayNow, PayTimer] st) \<and>
         Text [Glyph RupeeSign, Str s] \<in> set (install_view (install_run [SetAmount s, PayNow, PayTimer] st))"
  using assms
  by (simp add: install_run_def install_step_def handle_pay_now_def pay_timer_def below_minimum_def
      js_num_less_def install_view_def)

theorem install_nan_accepted_witness:
  "is_success (install_run [SetAmount ''1,000'', PayNow, PayTimer] (initial_install_screen ''p1'')) \<and>
   Text [Glyph RupeeSign, Str ''1,000''] \<in> set (install_view (install_run [SetAmount ''1,000'', PayNow, PayTimer]
     (initial_install_screen ''p1'')))"
proof -
  have "string_to_number ''1,000'' = JNaN"
    by (simp add: string_to_number_def js_trim_def js_is_space_def radix_literal_def decimal_literal_def
        split_sign_def unsigned_decimal_def is_digit_def exp_part_def)
  then show ?thesis using install_nan_accepted [of "''1,000''" "initial_install_screen ''p1''"] by simp
qed

text \<open>C35: success is never reset: once a payment succeeded, the mounted installment screen opened again for any plan, after any events, still shows the success modal, whose only button is Continue, so no second installment can be paid from it.\<close>

theorem install_success_sticky:
  assumes "is_success st"
  shows "is_success (install_run es (install_open pid st)) \<and>
         view_events (install_view (install_run es (install_open pid st))) = [ContinuePressed]"
proof -
  have "is_success (install_open pid st)" using assms by (simp add: install_open_def)
  then have "is_success (install_run es (install_open pid st))" by (rule install_run_success)
  then show ?thesis using install_view_success by blast
qed

theorem install_success_sticky_witness:
  "view_events (install_view (install_run [SetAmount ''7000'', PayNow]
     (install_open ''p2'' (install_run [SetAmount ''6000'', PayNow, PayTimer] (initial_install_screen ''p1''))))) =
   [ContinuePressed]"
proof -
  have "string_to_number ''6000'' = JFin 6000"
    by (simp add: string_to_number_def js_trim_def js_is_space_def radix_literal_def decimal_literal_def
        split_sign_def unsigned_decimal_def is_digit_def exp_part_def)
  then have "is_success (install_run [SetAmount ''6000'', PayNow, PayTimer] (initial_install_screen ''p1''))"
    by (simp add: install_run_def install_step_def handle_pay_now_def pay_timer_def below_minimum_def
        js_num_less_def initial_install_screen_def)
  then show ?thesis using install_success_sticky by blast
qed

end
