(* ===== verification/DemoTabs.thy ===== *)
theory DemoTabs
  imports DemoScreens Admin
begin

text \<open>
  The remaining screens of \<open>src/app/(tabs)/\<close> that show hard-coded data, and the profile tab.
  \<^item> \<open>myActivityPlan.tsx\<close>: four plans built inside \<open>fetchPlans\<close>, the cards that open
    \<open>planDetail\<close> with the plan's id, and the Go to Referral History and Invite \& Earn buttons.
  \<^item> \<open>planDetail.tsx\<close>: the plan chosen by nested conditionals on the \<open>planId\<close> parameter,
    loaded by an effect that runs when the parameter changes and only when it is non-empty.
  \<^item> \<open>option.tsx\<close>, \<open>wallet.tsx\<close>, \<open>dummy.tsx\<close>: constants and the totals computed from them.
  \<^item> \<open>profile.tsx\<close>: the profile card from the auth context, the Admin Panel button, the
    Sign Out confirmation and the \<open>signOut\<close> of \<open>AuthContext.tsx\<close>.
  Every file of the \<open>(tabs)\<close> group is a screen of the tab navigator, which keeps a visited
  screen mounted: navigating to it again changes its parameters and keeps its state.  That is
  how \<open>detail_open\<close> and \<open>install_open\<close> treat a navigation.
\<close>

section \<open>My activity plans\<close>

record demo_plan =
  dp_id :: string
  dp_name :: string
  dp_monthly :: money
  dp_duration :: nat
  dp_bonus_pct :: money
  dp_bonus_amt :: money
  dp_status :: string
  dp_months_paid :: nat
  dp_pending :: money

definition activity_plans_data :: "demo_plan list" where
  "activity_plans_data =
     [\<lparr>dp_id = ''1'', dp_name = ''Gold Plan'', dp_monthly = 1000, dp_duration = 12, dp_bonus_pct = 5,
       dp_bonus_amt = 500, dp_status = ''active'', dp_months_paid = 5, dp_pending = 7000\<rparr>,
      \<lparr>dp_id = ''2'', dp_name = ''Silver Plan'', dp_monthly = 500, dp_duration = 6, dp_bonus_pct = 3,
       dp_bonus_amt = 150, dp_status = ''active'', dp_months_paid = 5, dp_pending = 500\<rparr>,
      \<lparr>dp_id = ''3'', dp_name = ''Platinum Plan'', dp_monthly = 2000, dp_duration = 24, dp_bonus_pct = 7,
       dp_bonus_amt = 1400, dp_status = ''active'', dp_months_paid = 5, dp_pending = 38000\<rparr>,
      \<lparr>dp_id = ''4'', dp_name = ''Bronze Plan'', dp_monthly = 300, dp_duration = 3, dp_bonus_pct = 2,
       dp_bonus_amt = 18, dp_status = ''active'', dp_months_paid = 2, dp_pending = 300\<rparr>]"

record activity_screen =
  as_plans :: "demo_plan list"
  as_loading :: bool

definition initial_activity_screen :: activity_screen where
  "initial_activity_screen = \<lparr>as_plans = [], as_loading = True\<rparr>"

definition fetch_plans :: "activity_screen \<Rightarrow> activity_screen" where
  \<comment> \<open>the mount effect: the literal list is set, and \<open>finally\<close> clears the loading flag\<close>
  "fetch_plans st = st\<lparr>as_plans := activity_plans_data, as_loading := False\<rparr>"

definition pending_per_month :: "'a demo_plan_scheme \<Rightarrow> money" where
  \<comment> \<open>\<open>remainingMonths > 0 ? plan.pending_amount / remainingMonths : 0\<close>, on JavaScript numbers\<close>
  "pending_per_month p =
     (let r = int (dp_duration p) - int (dp_months_paid p) in if 0 < r then dp_pending p / of_int r else 0)"

definition user_card :: "profile option \<Rightarrow> 'e widget list" where
  "user_card prof =
     [Text [Str (js_or_string (map_option prof_name prof) ''Demo User'')],
      Text [Str (js_or_string (map_option prof_phone prof) ''1234567890'')]]"

datatype activity_event = OpenPlan string | ReferralHistory | InviteEarn

definition activity_card :: "demo_plan \<Rightarrow> activity_event widget" where
  "activity_card p =
     Button [Text [Str (dp_name p)], Text [Str ''Monthly: '', Glyph RupeeSign, Num (dp_monthly p)],
             Text [Str ''Duration: '', NatF (dp_duration p), Str '' months | Paid: '', NatF (dp_months_paid p),
                   Str '' months | Status: '', Str (js_upper (dp_status p))],
             Text [Str ''Pending Payment: '', Glyph RupeeSign, Num (dp_pending p), Str '' | '', Glyph RupeeSign,
                   Fixed 0 (pending_per_month p), Str ''/month'']]
       (OpenPlan (dp_id p))"

definition activity_view :: "profile option \<Rightarrow> activity_screen \<Rightarrow> activity_event widget list" where
  "activity_view prof st =
     (if as_loading st then []
      else user_card prof @ [Text [Str ''My Activity Plans'']] @ map activity_card (as_plans st) @
           [Button [Text [Str ''Go to Referral History'']] ReferralHistory,
            Button [Text [Str ''Invite & Earn'']] InviteEarn])"

definition activity_route :: "activity_event \<Rightarrow> route" where
  "activity_route e =
     (case e of OpenPlan i \<Rightarrow> ToPlanDetail (Some i) | ReferralHistory \<Rightarrow> ToPlanDetail None | InviteEarn \<Rightarrow> ToWallet)"

section \<open>Plan detail\<close>

record detail_plan = demo_plan +
  dp_payment_months :: nat

definition plan_detail_data :: "string \<Rightarrow> detail_plan" where
  "plan_detail_data i =
     \<lparr>dp_id = js_or_string (Some i) ''1'',
      dp_name = (if i = ''1'' then ''Gold Plan'' else if i = ''2'' then ''Silver Plan''
                 else if i = ''3'' then ''Platinum Plan'' else ''Bronze Plan''),
      dp_monthly = (if i = ''1'' then 1000 else if i = ''2'' then 500 else if i = ''3'' then 2000 else 300),
      dp_duration = (if i = ''1'' then 12 else if i = ''2'' then 6 else if i = ''3'' then 24 else 3),
      dp_bonus_pct = (if i = ''1'' then 5 else if i = ''2'' then 3 else if i = ''3'' then 7 else 2),
      dp_bonus_amt = (if i = ''1'' then 500 else if i = ''2'' then 150 else if i = ''3'' then 1400 else 18),
      dp_status = (if i = ''1'' then ''active'' else if i = ''2'' then ''completed''
                   else if i = ''3'' then ''active'' else ''completed''),
      dp_months_paid = (if i = ''1'' then 10 else if i = ''2'' then 6 else if i = ''3'' then 20 else 3),
      dp_pending = (if i = ''1'' then 2000 else if i = ''2'' then 0 else if i = ''3'' then 8000 else 0),
      dp_payment_months = (if i = ''1'' then 12 else if i = ''2'' then 6 else if i = ''3'' then 24 else 3)\<rparr>"

definition detail_open :: "string option \<Rightarrow> detail_plan option \<Rightarrow> detail_plan option" where
  \<comment> \<open>\<open>useEffect(() => { if (planId) fetchPlanDetail(); }, [planId])\<close>: a missing or empty
      parameter leaves the plan loaded before\<close>
  "detail_open pid st = (case pid of Some i \<Rightarrow> if i = [] then st else Some (plan_detail_data i) | None \<Rightarrow> st)"

definition detail_view :: "profile option \<Rightarrow> detail_plan option \<Rightarrow> unit widget list" where
  \<comment> \<open>\<open>if (!plan) return null\<close>\<close>
  "detail_view prof st =
     (case st of
        None \<Rightarrow> []
      | Some p \<Rightarrow>
          user_card prof @
          [Text [Str (dp_name p)],
           Text [Str ''Monthly Amount:''], Text [Glyph RupeeSign, Num (dp_monthly p)],
           Text [Str ''Duration:''], Text [NatF (dp_duration p), Str '' months'']] @
          [Text [Str ''Months Paid:''], Text [NatF (dp_months_paid p)],
           Text [Str ''Bonus:''], Text [Num (dp_bonus_amt p), Str '' ('', Num (dp_bonus_pct p), Str ''%)''],
           Text [Str ''Status:''], Text [Str (js_upper (dp_status p))],
           Text [Str ''Pending Payment:''],
           Text [Glyph RupeeSign, Num (dp_pending p), Str '' | '', Glyph RupeeSign, Fixed 0 (pending_per_month p),
                 Str ''/month'']])"

definition detail_run :: "string option list \<Rightarrow> detail_plan option \<Rightarrow> detail_plan option" where
  "detail_run ps st = fold detail_open ps st"

section \<open>Plan details before payment (option.tsx)\<close>

definition js_plus :: "money \<Rightarrow> js_number \<Rightarrow> js_number" where
  \<comment> \<open>\<open>a + Number(s)\<close> for a finite \<open>a\<close>\<close>
  "js_plus a n = (case n of JFin y \<Rightarrow> JFin (a + y) | JNaN \<Rightarrow> JNaN | JInf pos \<Rightarrow> JInf pos)"

definition js_number_to_fixed :: "nat \<Rightarrow> js_number \<Rightarrow> string" where
  "js_number_to_fixed f n =
     (case n of JFin x \<Rightarrow> js_to_fixed f x | JNaN \<Rightarrow> ''NaN'' | JInf pos \<Rightarrow> if pos then ''Infinity'' else ''-Infinity'')"

definition plan_summary :: "money \<Rightarrow> nat \<Rightarrow> money \<Rightarrow> money \<Rightarrow> string \<times> string \<times> string" where
  \<comment> \<open>\<open>goldSavingGram\<close>, \<open>bonusAmount\<close> and \<open>totalPayable\<close>, each a \<open>toFixed(2)\<close> string\<close>
  "plan_summary monthly dur pct rate =
     (let gold = js_to_fixed 2 (monthly * of_nat dur / rate);
          bonus = js_to_fixed 2 (monthly * of_nat dur * pct / 100);
          tot = js_number_to_fixed 2 (js_plus (monthly * of_nat dur) (string_to_number bonus))
      in (gold, bonus, tot))"

definition detail_row :: "string \<Rightarrow> frag list \<Rightarrow> 'e widget list" where
  \<comment> \<open>the \<open>Detail\<close> component\<close>
  "detail_row label v = [Text [Str label, Str '':''], Text v]"

datatype option_event = PayConfirm

definition option_view :: "string \<Rightarrow> option_event widget list" where
  "option_view pid =
     (case plan_summary 1500 12 5 8500 of (gold, bonus, tot) \<Rightarrow>
        [Text [Str ''Plan Details'']] @
        detail_row ''Plan ID'' [Str pid] @ detail_row ''User ID'' [Str ''USER12345''] @
        detail_row ''Gold Rate'' [Glyph RupeeSign, Str '' '', Num 8500] @
        detail_row ''Start Date'' [Str ''01/01/2025''] @ detail_row ''End Date'' [Str ''01/01/2026''] @
        detail_row ''Duration'' [NatF 12, Str '' months''] @
        detail_row ''Monthly Amount'' [Glyph RupeeSign, Str '' '', Num 1500] @
        detail_row ''Bonus Amount'' [Glyph RupeeSign, Str '' '', Str bonus] @
        detail_row ''Total Payable'' [Glyph RupeeSign, Str '' '', Str tot] @
        detail_row ''Gold Saving (Grams)'' [Str gold, Str '' g''] @
        [Button [Text [Str ''Pay Confirm'']] PayConfirm])"

definition option_route :: "string \<Rightarrow> option_event \<Rightarrow> route" where
  "option_route pid e = (case e of PayConfirm \<Rightarrow> ToMyActivityPlan (Some pid))"

section \<open>Wallet tab (wallet.tsx)\<close>

record wallet_entry =
  we_id :: string
  we_type :: string
  we_amount :: money
  we_date :: string

definition wallet_earnings :: "wallet_entry list" where
  "wallet_earnings =
     [\<lparr>we_id = ''e1'', we_type = ''Referral'', we_amount = 500, we_date = ''2025-11-01''\<rparr>,
      \<lparr>we_id = ''e2'', we_type = ''Bonus'', we_amount = 200, we_date = ''2025-11-05''\<rparr>]"

definition wallet_commissions :: "wallet_entry list" where
  "wallet_commissions =
     [\<lparr>we_id = ''c1'', we_type = ''Sale'', we_amount = 150, we_date = ''2025-11-02''\<rparr>,
      \<lparr>we_id = ''c2'', we_type = ''Level Bonus'', we_amount = 120, we_date = ''2025-11-04''\<rparr>,
      \<lparr>we_id = ''c3'', we_type = ''Team Bonus'', we_amount = 250, we_date = ''2025-11-09''\<rparr>]"

definition reduce_amounts :: "wallet_entry list \<Rightarrow> money" where
  \<comment> \<open>\<open>xs.reduce((sum, e) => sum + e.amount, 0)\<close>\<close>
  "reduce_amounts xs = foldl (\<lambda>s e. s + we_amount e) 0 xs"

definition entry_widgets :: "wallet_entry \<Rightarrow> unit widget list" where
  "entry_widgets e = [Text [Str (we_type e)], Text [Glyph RupeeSign, Num (we_amount e)], Text [DateStr (we_date e)]]"

definition wallet_view :: "unit widget list" where
  "wallet_view =
     [Text [Str ''User Details''], Text [Str ''User ID''], Text [Str ''U12345''], Text [Str ''Name''],
      Text [Str ''Madhumitha''], Text [Str ''Email''], Text [Str ''madhumitha@example.com''], Text [Str ''Phone''],
      Text [Str ''+91 98765 43210''],
      Text [Str ''Total Earnings''], Text [Glyph RupeeSign, Num (reduce_amounts wallet_earnings)],
      Text [Str ''Total Commissions''], Text [Glyph RupeeSign, Num (reduce_amounts wallet_commissions)],
      Text [Str ''Earnings'']] @ concat (map entry_widgets wallet_earnings) @
     [Text [Str ''Commissions'']] @ concat (map entry_widgets wallet_commissions)"

section \<open>Referral program demo (dummy.tsx)\<close>

record bonus_row =
  br_amount :: money
  br_percent :: money

definition dummy_rows :: "bonus_row list" where
  "dummy_rows =
     [\<lparr>br_amount = 150, br_percent = 10\<rparr>, \<lparr>br_amount = 45, br_percent = 3\<rparr>, \<lparr>br_amount = 30, br_percent = 2\<rparr>,
      \<lparr>br_amount = 45/2, br_percent = 3/2\<rparr>, \<lparr>br_amount = 45/4, br_percent = 3/4\<rparr>,
      \<lparr>br_amount = 45/4, br_percent = 3/4\<rparr>, \<lparr>br_amount = 15/2, br_percent = 1/2\<rparr>,
      \<lparr>br_amount = 15/2, br_percent = 1/2\<rparr>, \<lparr>br_amount = 15/2, br_percent = 1/2\<rparr>,
      \<lparr>br_amount = 15/2, br_percent = 1/2\<rparr>]"

definition dummy_code :: string where
  "dummy_code = ''MADHU123''"

definition dummy_invite_link :: string where
  "dummy_invite_link = ''https://yourapp.com/ref/'' @ dummy_code"

definition dummy_bonus :: money where
  "dummy_bonus = 200"

definition dummy_total_amount :: money where
  "dummy_total_amount = foldl (\<lambda>s r. s + br_amount r) 0 dummy_rows"

definition dummy_total_percent :: money where
  "dummy_total_percent = foldl (\<lambda>s r. s + br_percent r) 0 dummy_rows"

record dummy_screen =
  dm_clipboard :: "string option"
  dm_alert :: "(string \<times> string) option"
  dm_shared :: "string list"

definition initial_dummy_screen :: dummy_screen where
  "initial_dummy_screen = \<lparr>dm_clipboard = None, dm_alert = None, dm_shared = []\<rparr>"

datatype dummy_event = CopyCode | ShareLink | DummyHistory | DummyEarn | DismissAlert

definition bonus_row_widgets :: "nat \<times> bonus_row \<Rightarrow> dummy_event widget list" where
  "bonus_row_widgets ir =
     (case ir of (i, r) \<Rightarrow>
        [Text [NatF i], Text [Glyph RupeeSign, Str '' '', Fixed 2 (br_amount r)], Text [Str ''('', Num (br_percent r), Str ''%)'']])"

definition dummy_view :: "dummy_screen \<Rightarrow> dummy_event widget list" where
  \<comment> \<open>an open alert is a native dialog over the screen\<close>
  "dummy_view ds =
     (case dm_alert ds of
        Some (title, msg) \<Rightarrow> [Text [Str title], Text [Str msg], Button [Text [Str ''OK'']] DismissAlert]
      | None \<Rightarrow>
          [Text [Str ''Referral Program''], Text [Str ''Total Referral Bonus''],
           Text [Glyph RupeeSign, Str '' '', Fixed 2 (dummy_total_amount + dummy_bonus)],
           Text [Str ''Your Referral Code''], Text [Str dummy_code], Button [Text [Str ''Copy Code'']] CopyCode,
           Text [Str ''Invite Link''], Text [Str dummy_invite_link], Button [Text [Str ''Share Link'']] ShareLink,
           Text [Str ''Referral Bonus Table''], Text [Str ''#''], Text [Str ''Amount''], Text [Str ''%'']] @
          concat (map bonus_row_widgets (enumerate 1 dummy_rows)) @
          [Text [Str ''Extra Bonus''], Text [Glyph RupeeSign, Str '' '', Fixed 2 dummy_bonus],
           Text [Str ''Total '', Glyph RupeeSign, Str '' '', Num (dummy_total_amount + dummy_bonus), Str '' ('',
                 Fixed 1 dummy_total_percent, Str ''%)''],
           Button [Text [Str ''Go to Referral History'']] DummyHistory,
           Button [Text [Str '' Earn & commissions'']] DummyEarn])"

definition dummy_step :: "bool \<Rightarrow> dummy_event \<Rightarrow> dummy_screen \<Rightarrow> dummy_screen \<times> route option" where
  \<comment> \<open>the flag says whether \<open>Share.share\<close> rejects\<close>
  "dummy_step share_fails e ds =
     (case e of
        CopyCode \<Rightarrow> (ds\<lparr>dm_clipboard := Some dummy_code, dm_alert := Some (''Copied!'', ''Copied to clipboard.'')\<rparr>, None)
      | ShareLink \<Rightarrow>
          (if share_fails then (ds\<lparr>dm_alert := Some (''Error'', ''Unable to share link.'')\<rparr>, None)
           else (ds\<lparr>dm_shared := dm_shared ds @ [''Join me using my referral link: '' @ dummy_invite_link]\<rparr>, None))
      | DummyHistory \<Rightarrow> (ds, Some (ToMyActivityPlan None))
      | DummyEarn \<Rightarrow> (ds, Some ToWallet)
      | DismissAlert \<Rightarrow> (ds\<lparr>dm_alert := None\<rparr>, None))"

section \<open>Profile tab (profile.tsx)\<close>

record profile_extra =
  px_status :: "string option"
  px_is_admin :: "bool option"

datatype profile_event = ProfAdmin | ProfWallet | ProfReferrals | ProfSignOut | AlertCancel | AlertConfirm

definition profile_view :: "profile option \<Rightarrow> profile_extra \<Rightarrow> bool \<Rightarrow> profile_event widget list" where
  \<comment> \<open>\<open>px\<close>: the \<open>status\<close> and \<open>is_admin\<close> columns of the loaded row; the flag: the Sign Out
      confirmation is open\<close>
  "profile_view prof px alert =
     (if alert then
        [Text [Str ''Sign Out''], Text [Str ''Are you sure you want to sign out?''],
         Button [Text [Str ''Cancel'']] AlertCancel, Button [Text [Str ''Sign Out'']] AlertConfirm]
      else
        [Text [Str ''Profile''], Text [Str (js_or_string (map_option prof_name prof) ''Demo User'')],
         Text [Str (js_or_string (map_option prof_phone prof) ''1234567890'')],
         Text [Str (js_or_string (if prof = None then None else map_option js_upper (px_status px)) ''ACTIVE'')],
         Text [Str ''Account Details''], Text [Str ''Phone Number''],
         Text [Str (js_or_string (map_option prof_phone prof) ''1234567890'')],
         Text [Str ''Referral Code''], Text [Str (js_or_string (map_option prof_code prof) ''REF000000'')]] @
        (case prof of Some p \<Rightarrow> if prof_referred_by p \<noteq> None then [Text [Str ''Referred By''], Text [Str ''Yes'']] else []
                    | None \<Rightarrow> []) @
        [Text [Str ''Quick Actions'']] @
        (if prof \<noteq> None \<and> px_is_admin px = Some True then [Button [Text [Str ''Admin Panel'']] ProfAdmin] else []) @
        [Button [Text [Str ''View Wallet'']] ProfWallet, Button [Text [Str ''My Referrals'']] ProfReferrals,
         Button [Text [Str ''Sign Out'']] ProfSignOut, Text [Str ''A S JEWELLERS''], Text [Str ''Version 1.0.0'']])"

definition profile_step :: "profile_event \<Rightarrow> bool \<times> auth_ctx \<Rightarrow> (bool \<times> auth_ctx) \<times> route option" where
  "profile_step e s =
     (case s of (alert, ctx) \<Rightarrow>
        case e of
          ProfAdmin \<Rightarrow> (s, Some ToAdmin)
        | ProfWallet \<Rightarrow> (s, Some ToHome)
        | ProfReferrals \<Rightarrow> (s, Some ToReferrals)
        | ProfSignOut \<Rightarrow> ((True, ctx), None)
        | AlertCancel \<Rightarrow> ((False, ctx), None)
        | AlertConfirm \<Rightarrow> ((False, sign_out ctx), Some ToLogin))"

lemma detail_run_snoc: "detail_run (ps @ [p]) st = detail_open p (detail_run ps st)"
  by (simp add: detail_run_def)

lemma detail_run_last:
  "detail_run ps st =
     (case filter (\<lambda>p. p \<noteq> None \<and> p \<noteq> Some []) ps of [] \<Rightarrow> st | qs \<Rightarrow> Some (plan_detail_data (the (last qs))))"
proof (induction ps rule: rev_induct)
  case Nil
  then show ?case by (simp add: detail_run_def)
next
  case (snoc p ps)
  show ?case
  proof (cases "p \<noteq> None \<and> p \<noteq> Some []")
    case True
    then obtain i where "p = Some i" "i \<noteq> []" by auto
    then show ?thesis by (simp add: detail_run_snoc detail_open_def list.case_eq_if)
  next
    case False
    then have "detail_open p st' = st'" for st' by (auto simp: detail_open_def split: option.split)
    moreover have "filter (\<lambda>p. p \<noteq> None \<and> p \<noteq> Some []) (ps @ [p]) = filter (\<lambda>p. p \<noteq> None \<and> p \<noteq> Some []) ps"
      using False by simp
    ultimately show ?thesis using snoc.IH by (simp only: detail_run_snoc)
  qed
qed

text \<open>C36: the Go to Referral History button opens plan details without a plan id, which then show the last plan opened from a card, or a blank screen if none was; never a referral history.\<close>

theorem referral_history_shows_last_plan:
  "activity_route ReferralHistory = ToPlanDetail None \<and>
   detail_view prof (detail_open None (detail_run ps None)) =
     (case filter (\<lambda>p. p \<noteq> None \<and> p \<noteq> Some []) ps of
        [] \<Rightarrow> []
      | qs \<Rightarrow> detail_view prof (Some (plan_detail_data (the (last qs)))))"
  by (simp add: activity_route_def detail_open_def detail_run_last detail_view_def list.case_eq_if)

lemma view_events_activity_cards: "view_events (map activity_card xs) = map (OpenPlan \<circ> dp_id) xs"
  by (induction xs) (simp_all add: activity_card_def)

lemma activity_view_events:
  "view_events (activity_view prof (fetch_plans st)) =
   map (OpenPlan \<circ> dp_id) activity_plans_data @ [ReferralHistory, InviteEarn]"
  by (simp add: activity_view_def fetch_plans_def view_events_activity_cards user_card_def)

lemma activity_detail_disagrees:
  assumes "OpenPlan i \<in> set (view_events (activity_view prof (fetch_plans st)))"
  shows "\<exists>p \<in> set activity_plans_data. dp_id p = i \<and> activity_route (OpenPlan i) = ToPlanDetail (Some i) \<and>
           (\<exists>q. detail_open (Some i) d = Some q \<and> dp_name q = dp_name p \<and> dp_months_paid q \<noteq> dp_months_paid p)"
proof -
  have "i \<in> {''1'', ''2'', ''3'', ''4''}" using assms by (auto simp: activity_view_events activity_plans_data_def)
  then show ?thesis
    by (elim insertE emptyE) (simp_all add: activity_plans_data_def activity_route_def detail_open_def plan_detail_data_def)
qed

lemma plan_summary_total:
  "snd (snd (plan_summary m d pct rate)) = js_to_fixed 2 (m * of_nat d + fixed_round 2 (m * of_nat d * pct / 100))"
  using string_to_number_fixed_decimal [of 2 "m * of_nat d * pct / 100"] js_to_fixed_roundtrip [of 2 "m * of_nat d * pct / 100"]
  by (simp add: plan_summary_def Let_def js_plus_def js_number_to_fixed_def)

lemma js_to_fixed_18900: "js_to_fixed 2 18900 = ''18900.00''"
proof -
  have "nat (js_round (\<bar>18900\<bar> * 10 ^ 2)) = 1890000" by (simp add: js_round_def)
  moreover have "nat_str 1890000 = ''1890000''" by (simp add: nat_str_def decimal_len.simps)
  ultimately show ?thesis by (simp add: js_to_fixed_def Let_def)
qed

lemma option_total_shown: "Text [Glyph RupeeSign, Str '' '', Str ''18900.00''] \<in> set (option_view pid)"
proof -
  have "fixed_round 2 (1500 * of_nat 12 * 5 / 100) = 900" by (simp add: fixed_round_def js_round_def)
  then have "snd (snd (plan_summary 1500 12 5 8500)) = ''18900.00''"
    by (simp add: plan_summary_total js_to_fixed_18900)
  then obtain gold bonus where "plan_summary 1500 12 5 8500 = (gold, bonus, ''18900.00'')"
    by (metis prod.collapse)
  then show ?thesis by (simp add: option_view_def detail_row_def)
qed

lemma wallet_totals: "reduce_amounts wallet_earnings = 700" "reduce_amounts wallet_commissions = 520"
  by (simp_all add: reduce_amounts_def wallet_earnings_def wallet_commissions_def)

lemma dummy_totals: "dummy_total_amount = 300" "dummy_total_percent = 20"
  by (simp_all add: dummy_total_amount_def dummy_total_percent_def dummy_rows_def)


lemma profile_admin_events:
  "ProfAdmin \<in> set (view_events (profile_view prof px alert)) \<longleftrightarrow>
   \<not> alert \<and> prof \<noteq> None \<and> px_is_admin px = Some True"
  by (simp add: profile_view_def split: option.split)

text \<open>C37: the Admin Panel button of the profile tab is offered exactly to the users the admin layout guard lets in (both read is_admin of the same row), and it routes to the admin screens.\<close>

theorem profile_admin_button_guard:
  assumes "ctx_profile ctx \<noteq> None" "filter (\<lambda>p. ap_id p = u) (ad_profiles db) = [p]"
    and "px_is_admin px = Some (ap_admin p)"
  shows "(ProfAdmin \<in> set (view_events (profile_view (ctx_profile ctx) px False)) \<longleftrightarrow>
          check_admin_access (Some u) False db = GateShow) \<and>
         snd (profile_step ProfAdmin (False, ctx)) = Some ToAdmin"
  using assms by (simp add: profile_admin_events check_admin_access_def profile_step_def)

lemma profile_sign_out:
  "profile_step AlertConfirm (True, ctx) = ((False, sign_out ctx), Some ToLogin) \<and>
   ctx_user (sign_out ctx) = None \<and> ctx_profile (sign_out ctx) = None \<and> stored_session (sign_out ctx) = None"
  by (simp add: profile_step_def sign_out_def)

theorem profile_admin_button_guard_witness:
  "ProfAdmin \<in> set (view_events (profile_view (Some \<lparr>prof_id = 1, prof_phone = ''9876543210'', prof_name = ''Asha'',
      prof_aadhar = [], prof_pan = [], prof_code = ''REF100001'', prof_referred_by = None, prof_active = True,
      prof_kyc = False\<rparr>) \<lparr>px_status = Some ''active'', px_is_admin = Some True\<rparr> False)) \<and>
   check_admin_access (Some 1) False example_admin_db = GateShow"
proof -
  let ?pr = "\<lparr>prof_id = 1, prof_phone = ''9876543210'', prof_name = ''Asha'', prof_aadhar = [], prof_pan = [],
             prof_code = ''REF100001'', prof_referred_by = None, prof_active = True, prof_kyc = False\<rparr>"
  let ?ap = "\<lparr>ap_id = 1, ap_name = Some ''Asha'', ap_phone = None, ap_phone_number = Some ''9876543210'',
             ap_admin = True, ap_created = 1\<rparr>"
  have "filter (\<lambda>p. ap_id p = 1) (ad_profiles example_admin_db) = [?ap]" by (simp add: example_admin_db_def)
  moreover have "ctx_profile (initial_ctx\<lparr>ctx_profile := Some ?pr\<rparr>) \<noteq> None" by simp
  moreover have "ProfAdmin \<in> set (view_events (profile_view (Some ?pr) \<lparr>px_status = Some ''active'', px_is_admin = Some True\<rparr> False))"
    by (simp add: profile_view_def)
  ultimately show ?thesis
    using profile_admin_button_guard [of "initial_ctx\<lparr>ctx_profile := Some ?pr\<rparr>" 1 example_admin_db ?ap
        "\<lparr>px_status = Some ''active'', px_is_admin = Some True\<rparr>"] by simp
qed

end
