(* ===== verification/Navigation.thy ===== *)
theory Navigation
  imports DemoTabs
begin

text \<open>
  The navigation layouts.  \<open>src/app/index.tsx\<close>, the screen of the root route \<open>/\<close>, shows a
  spinner and replaces itself with \<open>/auth/login\<close> 100 ms after mounting, whatever the
  session; \<open>src/app/(tabs)/_layout.tsx\<close> declares the six titled tabs.  The admin layout's
  guard (\<open>check_admin_access\<close> of theory \<open>Admin\<close>) sends a refused user to \<open>/auth/login\<close>
  or to \<open>/\<close>; \<open>gate_route\<close> is that redirect.  The root layout \<open>src/app/_layout.tsx\<close> only
  nests the two context providers around the stack and is not modelled further.
\<close>

datatype index_event = IdxMount | IdxTimer | IdxUnmount

record index_state =
  ix_mounted :: bool
  ix_timer :: bool \<comment> \<open>the 100 ms \<open>setTimeout\<close> is pending\<close>

definition initial_index_state :: index_state where
  "initial_index_state = \<lparr>ix_mounted = False, ix_timer = False\<rparr>"

definition index_step :: "index_event \<Rightarrow> index_state \<Rightarrow> index_state \<times> route option" where
  \<comment> \<open>the first effect sets \<open>isMounted\<close>; the second runs on that change and schedules the
      timer; unmounting clears it\<close>
  "index_step e st =
     (case e of
        IdxMount \<Rightarrow> (st\<lparr>ix_mounted := True, ix_timer := True\<rparr>, None)
      | IdxTimer \<Rightarrow> (if ix_timer st then (st\<lparr>ix_timer := False\<rparr>, Some ToLogin) else (st, None))
      | IdxUnmount \<Rightarrow> (st\<lparr>ix_timer := False\<rparr>, None))"

definition gate_route :: "admin_gate \<Rightarrow> route option" where
  \<comment> \<open>\<open>router.replace\<close> of \<open>checkAdminAccess\<close>\<close>
  "gate_route g = (case g of GateLogin \<Rightarrow> Some ToLogin | GateRoot \<Rightarrow> Some ToRoot | GateShow \<Rightarrow> None)"

definition tab_screens :: "(string \<times> string) list" where
  \<comment> \<open>the \<open>Tabs.Screen\<close> declarations: route name and tab title\<close>
  "tab_screens = [(''index'', ''Home''), (''wallet'', ''Wallet''), (''plans'', ''Plans''),
                  (''transactions'', ''Transactions''), (''referrals'', ''Referrals''), (''profile'', ''Profile'')]"

definition tab_bar_view :: "string widget list" where
  "tab_bar_view = map (\<lambda>(n, t). Button [Text [Str t]] n) tab_screens"

definition root_redirect :: "route option \<Rightarrow> route option" where
  \<comment> \<open>where a redirect ends: \<open>/\<close> mounts the index screen and its timer fires\<close>
  "root_redirect r =
     (if r = Some ToRoot then snd (index_step IdxTimer (fst (index_step IdxMount initial_index_state))) else r)"

lemma index_timer_login: "snd (index_step IdxTimer (fst (index_step IdxMount st))) = Some ToLogin"
  by (simp add: index_step_def)

lemma admin_refused_ends_at_login:
  assumes "check_admin_access user failed db \<noteq> GateShow"
  shows "root_redirect (gate_route (check_admin_access user failed db)) = Some ToLogin"
  using assms index_timer_login by (cases "check_admin_access user failed db") (simp_all add: gate_route_def root_redirect_def)

lemma tab_bar_events: "view_events tab_bar_view = map fst tab_screens"
  by (simp add: tab_bar_view_def tab_screens_def)

end
