(* ===== verification/AuthScreens.thy ===== *)
theory AuthScreens
  imports View
begin

text \<open>
  The two screens of \<open>src/app/auth/\<close>.  The login screen (\<open>login.tsx\<close>) keeps the typed phone
  and password, a loading flag, an error text and, for its \<open>console.log\<close> calls, the lines
  written to the console; \<open>handleLogin\<close> is \<open>handle_login\<close> of theory \<open>Auth\<close>.  The register
  screen (\<open>register.tsx\<close>) keeps the form, edited through the \<open>onChange\<close> filters of theory
  \<open>Auth\<close>, and the alert it shows; pressing Register runs \<open>handle_register\<close>, and the OK of the
  success alert replaces the screen with the login screen.  An alert is a native dialog over
  the screen.
\<close>

section \<open>Login screen\<close>

record login_screen =
  ls_phone :: string
  ls_password :: string
  ls_loading :: bool
  ls_error :: string
  ls_log :: "string list" \<comment> \<open>lines written by \<open>console.log\<close>, arguments joined by spaces\<close>

definition initial_login_screen :: login_screen where
  "initial_login_screen = \<lparr>ls_phone = [], ls_password = [], ls_loading = False, ls_error = [], ls_log = []\<rparr>"

datatype login_event = SetLoginPhone string | SetLoginPassword string | SignInPressed | RegisterLink

definition login_step :: "login_event \<Rightarrow> login_screen \<Rightarrow> login_screen \<times> route option" where
  \<comment> \<open>\<open>handleLogin\<close> sets \<open>loading\<close> and clears it before it returns; both updates are batched\<close>
  "login_step e st =
     (case e of
        SetLoginPhone t \<Rightarrow> (st\<lparr>ls_phone := t\<rparr>, None)
      | SetLoginPassword t \<Rightarrow> (st\<lparr>ls_password := t\<rparr>, None)
      | SignInPressed \<Rightarrow>
          (let st1 = st\<lparr>ls_log := ls_log st @ [''Attempting login with: '' @ ls_phone st @ '' '' @ ls_password st]\<rparr>
           in case handle_login (ls_phone st) (ls_password st) of
                LoginOk \<Rightarrow> (st1\<lparr>ls_error := [], ls_loading := False, ls_log := ls_log st1 @ [''Login successful!'']\<rparr>,
                            Some ToHome)
              | LoginError msg \<Rightarrow> (st1\<lparr>ls_error := msg, ls_loading := False, ls_log := ls_log st1 @ [''Login failed'']\<rparr>,
                                  None))
      | RegisterLink \<Rightarrow> (st, Some ToRegister))"

definition login_view :: "login_screen \<Rightarrow> login_event widget list" where
  "login_view st =
     [Text [Str ''A S JEWELLERS''], Text [Str ''Sign in to your account''],
      Text [Str ''Phone: '', Str (ls_phone st)], Text [Str ''Password: '', NatF (length (ls_password st)), Str '' chars''],
      Text [Str ''Loading: '', Str (if ls_loading st then ''Yes'' else ''No'')]] @
     (if ls_error st \<noteq> [] then [Text [Str ''Error: '', Str (ls_error st)], Text [Str (ls_error st)]] else []) @
     [Text [Str ''Phone Number''], Text [Str (ls_phone st)], Text [Str ''Password''],
      (if ls_loading st then Text [Str ''Signing In...''] else Button [Text [Str ''Sign In'']] SignInPressed),
      Button [Text [Str ''Don't have an account? '', Str ''Register'']] RegisterLink]"

section \<open>Register screen\<close>

record register_screen =
  rs_form :: reg_form
  rs_loading :: bool
  rs_alert :: "(string \<times> string) option"
  rs_done :: bool \<comment> \<open>the open alert is the success alert, whose OK goes to the login screen\<close>

definition empty_form :: reg_form where
  "empty_form = \<lparr>rf_full_name = [], rf_phone = [], rf_password = [], rf_confirm = [], rf_aadhar = [], rf_pan = [],
                  rf_referral = []\<rparr>"

definition initial_register_screen :: register_screen where
  "initial_register_screen = \<lparr>rs_form = empty_form, rs_loading = False, rs_alert = None, rs_done = False\<rparr>"

definition reg_error_text :: "(reg_error \<Rightarrow> string) \<Rightarrow> reg_error \<Rightarrow> string" where
  \<comment> \<open>the alert text of each early return; a thrown backend error shows \<open>err.message || 'Unable to register'\<close>\<close>
  "reg_error_text msg e =
     (case e of
        ErrFullName \<Rightarrow> ''Enter full name''
      | ErrPhone \<Rightarrow> ''Enter valid phone number''
      | ErrPassword \<Rightarrow> ''Password must be at least 6 characters''
      | ErrMismatch \<Rightarrow> ''Passwords do not match''
      | ErrAadhar \<Rightarrow> ''Enter valid 12-digit Aadhar''
      | ErrPan \<Rightarrow> ''Invalid PAN format (ABCDE1234F)''
      | ErrInvalidReferralCode \<Rightarrow> ''Invalid referral code''
      | _ \<Rightarrow> (if msg e = [] then ''Unable to register'' else msg e))"

datatype register_event =
    SetFullName string | SetRegPhone string | SetRegPassword string | SetConfirm string | SetAadhar string
  | SetPanNumber string | SetReferral string | RegisterPressed | AlertOk | LoginLink

definition register_step :: "reg_write set \<Rightarrow> nat \<Rightarrow> (reg_error \<Rightarrow> string) \<Rightarrow> register_event \<Rightarrow>
    auth_db \<times> register_screen \<Rightarrow> (auth_db \<times> register_screen) \<times> route option" where
  "register_step F n msg e s =
     (case s of (db, st) \<Rightarrow>
       (case e of
          SetFullName t \<Rightarrow> ((db, st\<lparr>rs_form := (rs_form st)\<lparr>rf_full_name := t\<rparr>\<rparr>), None)
        | SetRegPhone t \<Rightarrow> ((db, st\<lparr>rs_form := (rs_form st)\<lparr>rf_phone := t\<rparr>\<rparr>), None)
        | SetRegPassword t \<Rightarrow> ((db, st\<lparr>rs_form := (rs_form st)\<lparr>rf_password := t\<rparr>\<rparr>), None)
        | SetConfirm t \<Rightarrow> ((db, st\<lparr>rs_form := (rs_form st)\<lparr>rf_confirm := t\<rparr>\<rparr>), None)
        | SetAadhar t \<Rightarrow> ((db, st\<lparr>rs_form := (rs_form st)\<lparr>rf_aadhar := aadhar_input t\<rparr>\<rparr>), None)
        | SetPanNumber t \<Rightarrow> ((db, st\<lparr>rs_form := (rs_form st)\<lparr>rf_pan := pan_input t\<rparr>\<rparr>), None)
        | SetReferral t \<Rightarrow> ((db, st\<lparr>rs_form := (rs_form st)\<lparr>rf_referral := referral_input t\<rparr>\<rparr>), None)
        | RegisterPressed \<Rightarrow>
            (case handle_register F n (rs_form st) db of
               (Inl err, db') \<Rightarrow> ((db', st\<lparr>rs_loading := False, rs_alert := Some (''Error'', reg_error_text msg err),
                                            rs_done := False\<rparr>), None)
             | (Inr u, db') \<Rightarrow> ((db', st\<lparr>rs_loading := False, rs_alert := Some (''Success'', ''Account created successfully!''),
                                          rs_done := True\<rparr>), None))
        | AlertOk \<Rightarrow> ((db, st\<lparr>rs_alert := None, rs_done := False\<rparr>), if rs_done st then Some ToLogin else None)
        | LoginLink \<Rightarrow> ((db, st), Some ToLogin)))"

definition register_input :: "string \<Rightarrow> string \<Rightarrow> register_event widget list" where
  \<comment> \<open>the \<open>Input\<close> component: its label and the text field's value\<close>
  "register_input label v = [Text [Str label], Text [Str v]]"

definition register_view :: "register_screen \<Rightarrow> register_event widget list" where
  "register_view st =
     (case rs_alert st of
        Some (title, m) \<Rightarrow> [Text [Str title], Text [Str m], Button [Text [Str ''OK'']] AlertOk]
      | None \<Rightarrow>
          [Text [Str ''Create Account''], Text [Str ''Join A S Jewellers Today'']] @
          register_input ''Full Name *'' (rf_full_name (rs_form st)) @
          register_input ''Phone Number *'' (rf_phone (rs_form st)) @
          [Text [Str ''Password *''], Text [Str ''Confirm Password *'']] @
          register_input ''Aadhar Number *'' (rf_aadhar (rs_form st)) @
          register_input ''PAN Number *'' (rf_pan (rs_form st)) @
          register_input ''Referral Code (Optional)'' (rf_referral (rs_form st)) @
          [if rs_loading st then Text [Str ''Creating Account...''] else Button [Text [Str ''Register'']] RegisterPressed,
           Button [Text [Str ''Already have an account? '', Str ''Sign In'']] LoginLink])"

lemma login_logs_password:
  "''Attempting login with: '' @ ls_phone st @ '' '' @ ls_password st \<in> set (ls_log (fst (login_step SignInPressed st))) \<and>
   Text [Str ''Password: '', NatF (length (ls_password st)), Str '' chars''] \<in> set (login_view st)"
  by (simp add: login_step_def login_view_def Let_def split: login_outcome.split)

lemma login_hard_coded:
  "login_step SignInPressed (initial_login_screen\<lparr>ls_phone := ''1234567890'', ls_password := ''123456''\<rparr>) =
   (initial_login_screen\<lparr>ls_phone := ''1234567890'', ls_password := ''123456'',
      ls_log := [''Attempting login with: 1234567890 123456'', ''Login successful!'']\<rparr>, Some ToHome)"
  by (simp add: login_step_def handle_login_def initial_login_screen_def)

text \<open>C38: after a successful registration the success alert leads to the login screen, which rejects the phone and password just registered (unless they are the hard-coded pair) and stays on the screen.\<close>

theorem register_then_login_screen_rejects:
  assumes "handle_register F n (rs_form st) db = (Inr u, db')"
    and "(rf_phone (rs_form st), rf_password (rs_form st)) \<noteq> (''1234567890'', ''123456'')"
  shows "snd (register_step F n msg AlertOk (fst (register_step F n msg RegisterPressed (db, st)))) = Some ToLogin \<and>
         snd (login_step SignInPressed (initial_login_screen\<lparr>ls_phone := rf_phone (rs_form st),
                                                             ls_password := rf_password (rs_form st)\<rparr>)) = None \<and>
         ls_error (fst (login_step SignInPressed (initial_login_screen\<lparr>ls_phone := rf_phone (rs_form st),
                                                             ls_password := rf_password (rs_form st)\<rparr>))) =
           ''Invalid phone number or password''"
  using assms by (auto simp: register_step_def login_step_def handle_login_def Let_def)

theorem register_then_login_screen_rejects_witness:
  "snd (register_step {} 42 (\<lambda>e. []) AlertOk
     (fst (register_step {} 42 (\<lambda>e. []) RegisterPressed (empty_auth_db, initial_register_screen\<lparr>rs_form := example_form\<rparr>)))) =
     Some ToLogin \<and>
   ls_error (fst (login_step SignInPressed (initial_login_screen\<lparr>ls_phone := ''98765-43210'', ls_password := ''secret1''\<rparr>))) =
     ''Invalid phone number or password''"
proof -
  have "(rf_phone example_form, rf_password example_form) \<noteq> (''1234567890'', ''123456'')" by (simp add: example_form_def)
  then show ?thesis
    using register_then_login_screen_rejects [of "{}" 42 "initial_register_screen\<lparr>rs_form := example_form\<rparr>" empty_auth_db 1
        example_registered "\<lambda>e. []"] conjunct1 [OF example_registered_eval]
    by (simp add: example_form_def)
qed

end
