(* ===== verification/Schedule.thy ===== *)
theory Schedule
  imports PlansView
begin

text \<open>
  Progress of a whole payment schedule.  \<open>pay_presses Fs u\<close> is one press of the pay
  button of the plans tab by user \<open>u\<close> for each set of failing writes in \<open>Fs\<close>, each press on
  a freshly loaded screen (\<open>pay_month\<close>).  The writes whose failure \<open>makePayment\<close> tolerates
  are the gold holding inserts and the wallet updates (\<open>tolerated_writes\<close>).  From any state
  of the ledger invariant, one press per remaining month, each with only tolerated failures,
  completes the schedule: every month is recorded, the bonus payment is present, and a further
  press is answered with AllPaid.
\<close>

definition tolerated_writes :: "db_write set" where
  "tolerated_writes = {W_HoldingInsert, W_WalletGold, W_BonusHoldingInsert, W_BonusWalletGold}"

definition pay_presses :: "db_write set list \<Rightarrow> uid \<Rightarrow> ledger_db \<Rightarrow> ledger_db" where
  "pay_presses Fs u db = fold (\<lambda>F d. snd (pay_month F u d)) Fs db"

lemma pay_presses_snoc: "pay_presses (Fs @ [F]) u db = snd (pay_month F u (pay_presses Fs u db))"
  by (simp add: pay_presses_def)

lemma make_payment_monthly_tolerated:
  assumes "n < payment_months pl" "F \<subseteq> tolerated_writes"
  shows "length (monthly_of (payments (snd (make_payment F (Some u) (Some (s, Some pl)) n db))) (sub_id s)) =
         Suc (length (monthly_of (payments db) (sub_id s)))"
proof -
  have "W_PaymentInsert \<notin> F" "W_SubTotal \<notin> F" "W_SubBonus \<notin> F" "W_BonusPaymentInsert \<notin> F"
    using assms(2) by (auto simp: tolerated_writes_def)
  then show ?thesis using assms(1)
    by (auto simp: make_payment_def gold_credit_def Let_def monthly_of_def payment_row_def)
qed

lemma pay_month_progress:
  assumes ls: "load_subscription db u = Some (s, Some pl)"
    and lt: "length (monthly_of (payments db) (sub_id s)) < payment_months pl" and F: "F \<subseteq> tolerated_writes"
  shows "\<exists>s'. load_subscription (snd (pay_month F u db)) u = Some (s', Some pl) \<and> sub_id s' = sub_id s \<and>
           length (monthly_of (payments (snd (pay_month F u db))) (sub_id s)) =
           Suc (length (monthly_of (payments db) (sub_id s)))"
proof -
  define n where "n = length (monthly_of (payments db) (sub_id s))"
  have pm: "snd (pay_month F u db) = snd (make_payment F (Some u) (Some (s, Some pl)) n db)"
    using ls by (simp add: pay_month_view n_def)
  obtain s' where s': "load_subscription (snd (pay_month F u db)) u = Some (s', Some pl)" "sub_frame s' = sub_frame s"
    using load_subscription_frame [OF make_payment_frame make_payment_plans ls] pm by metis
  moreover have "sub_id s' = sub_id s" using s'(2) by (simp add: sub_frame_def)
  moreover have "length (monthly_of (payments (snd (pay_month F u db))) (sub_id s)) = Suc n"
    using make_payment_monthly_tolerated [OF lt [folded n_def] F] pm n_def by simp
  ultimately show ?thesis using n_def by blast
qed

lemma pay_presses_count:
  assumes ls: "load_subscription db u = Some (s, Some pl)"
    and le: "length (monthly_of (payments db) (sub_id s)) + length Fs \<le> payment_months pl"
    and F: "\<forall>F \<in> set Fs. F \<subseteq> tolerated_writes"
  shows "\<exists>s'. load_subscription (pay_presses Fs u db) u = Some (s', Some pl) \<and> sub_id s' = sub_id s \<and>
           length (monthly_of (payments (pay_presses Fs u db)) (sub_id s)) =
           length (monthly_of (payments db) (sub_id s)) + length Fs"
  using le F
proof (induction Fs rule: rev_induct)
  case Nil
  then show ?case using ls by (simp add: pay_presses_def)
next
  case (snoc F Fs)
  then obtain s' where s': "load_subscription (pay_presses Fs u db) u = Some (s', Some pl)" "sub_id s' = sub_id s"
    and c: "length (monthly_of (payments (pay_presses Fs u db)) (sub_id s)) =
            length (monthly_of (payments db) (sub_id s)) + length Fs"
    by auto
  have "length (monthly_of (payments (pay_presses Fs u db)) (sub_id s')) < payment_months pl"
    using c s'(2) snoc.prems(1) by simp
  moreover have "F \<subseteq> tolerated_writes" using snoc.prems(2) by simp
  ultimately show ?case using pay_month_progress [of "pay_presses Fs u db" u s' pl F] s' c
    by (auto simp: pay_presses_snoc)
qed

lemma pay_presses_inv:
  "ledger_inv db \<Longrightarrow> \<forall>F \<in> set Fs. F \<subseteq> tolerated_writes \<Longrightarrow> ledger_inv (pay_presses Fs u db)"
proof (induction Fs rule: rev_induct)
  case (snoc F Fs)
  have "F \<inter> unsafe_writes = {}" using snoc.prems(2) by (auto simp: tolerated_writes_def unsafe_writes_def)
  from ledger_inv_pay_month [OF snoc.IH [OF snoc.prems(1)] this] snoc.prems(2) show ?case
    by (simp add: pay_presses_snoc)
qed (simp add: pay_presses_def)

lemma inv_loaded_consistent:
  assumes "ledger_inv db" "load_subscription db u = Some (s, Some pl)"
  shows "sub_consistent db s \<and> plan_of db s = Some pl"
  using assms load_subscription_Some [OF assms(2)] by (auto simp: ledger_inv_def)

lemma consistent_count:
  assumes "sub_consistent db s" "plan_of db s = Some pl"
  shows "length (monthly_of (payments db) (sub_id s)) \<le> payment_months pl \<and>
         (length (monthly_of (payments db) (sub_id s)) = payment_months pl \<longrightarrow> 0 < payment_months pl \<longrightarrow>
            map amount (bonus_of (payments db) (sub_id s)) = [bonus_amount_rs])"
proof (intro conjI impI)
  show "length (monthly_of (payments db) (sub_id s)) \<le> payment_months pl"
    using assms by (simp add: sub_consistent_def Let_def)
next
  assume "length (monthly_of (payments db) (sub_id s)) = payment_months pl" "0 < payment_months pl"
  then have "monthly_of (payments db) (sub_id s) \<noteq> []" by auto
  with assms \<open>length (monthly_of (payments db) (sub_id s)) = payment_months pl\<close>
  show "map amount (bonus_of (payments db) (sub_id s)) = [bonus_amount_rs]"
    by (simp add: sub_consistent_def Let_def)
qed

text \<open>C5: from any state of the ledger invariant, pressing pay once per remaining month, with failures only in the holding and wallet writes that makePayment ignores, completes the schedule: every month is recorded, the bonus payment is present, and a further press returns AllPaid.\<close>

theorem ledger_schedule_completes:
  assumes inv: "ledger_inv db" and ls: "load_subscription db u = Some (s, Some pl)" and pos: "0 < payment_months pl"
    and len: "length Fs = payment_months pl - length (monthly_of (payments db) (sub_id s))"
    and F: "\<forall>F \<in> set Fs. F \<subseteq> tolerated_writes"
  shows "length (monthly_of (payments (pay_presses Fs u db)) (sub_id s)) = payment_months pl \<and>
         map amount (bonus_of (payments (pay_presses Fs u db)) (sub_id s)) = [bonus_amount_rs] \<and>
         fst (pay_month {} u (pay_presses Fs u db)) = AllPaid"
proof -
  define db' where "db' = pay_presses Fs u db"
  have le: "length (monthly_of (payments db) (sub_id s)) \<le> payment_months pl"
    using consistent_count inv_loaded_consistent [OF inv ls] by blast
  then obtain s' where s': "load_subscription db' u = Some (s', Some pl)" "sub_id s' = sub_id s"
    and c: "length (monthly_of (payments db') (sub_id s)) = payment_months pl"
    using pay_presses_count [OF ls _ F] len unfolding db'_def by auto
  have "ledger_inv db'" unfolding db'_def by (rule pay_presses_inv [OF inv F])
  from inv_loaded_consistent [OF this s'(1)] have b: "map amount (bonus_of (payments db') (sub_id s)) = [bonus_amount_rs]"
    using consistent_count [of db' s' pl] c s'(2) pos by simp
  have "fst (pay_month {} u db') = AllPaid"
    using s' c by (simp add: pay_month_view make_payment_def)
  then show ?thesis using c b unfolding db'_def by simp
qed

theorem ledger_schedule_completes_witness:
  "length (monthly_of (payments (pay_presses (replicate 12 {W_WalletGold}) 1 (example_subscribed ''p1''))) 0) = 12 \<and>
   fst (pay_month {} 1 (pay_presses (replicate 12 {W_WalletGold}) 1 (example_subscribed ''p1''))) = AllPaid"
proof -
  have "0 < payment_months example_plan" "\<forall>F \<in> set (replicate 12 {W_WalletGold}). F \<subseteq> tolerated_writes"
    by (simp_all add: example_plan_def tolerated_writes_def)
  then show ?thesis
    using ledger_schedule_completes [OF example_p1_inv example_subscribed_p1, of "replicate 12 {W_WalletGold}"]
      example_p1_unpaid
    by (simp add: example_plan_def)
qed

end
