(* ===== verification/Spec2Isabelle.thy ===== *)
theory Spec2Isabelle
  imports Gateway AccountViews Home Transactions Admin PlansView TreeCount Navigation AuthScreens Schedule
begin

text \<open>
  \<^bold>\<open>A verification library for the A S Jewellers gold-savings app.\<close>

  The repository is a React Native front end (\<open>src/app\<close>, \<open>src/components\<close>,
  \<open>src/contexts\<close>) over a hosted database, plus two server functions
  (\<open>src/supabase/functions\<close>).  The core the spec describes is scattered through the
  screens: the plans screen (\<open>src/app/(tabs)/plans.tsx\<close>) enrols users in savings plans
  and records monthly payments, converting rupees to milligrams of gold at the latest
  rate and issuing a completion bonus; registration (\<open>src/app/auth/register.tsx\<close>)
  creates the wallet row; the referral screens read a referral edge table and per-level
  commissions that database triggers outside the repository maintain.

  \<^bold>\<open>Theories.\<close>
  \<^item> \<open>Prelude\<close>: \<open>money = rat\<close> (JavaScript numbers read as exact rationals; rounding of
    IEEE doubles is not modelled), opaque row and user identifiers as \<open>nat\<close>, the SQL
    \<open>UPDATE ... WHERE\<close> over a table held as a list (\<open>update_where\<close>), \<open>Math.round\<close>
    (\<open>js_round\<close>) and the list lemmas the components share.
  \<^item> \<open>RateProvider\<close>: the \<open>gold_rates\<close> query of \<open>plans.tsx\<close>
    (\<open>latest_rate\<close>), the payment path's fallback (\<open>gold_rate_used\<close>, 6500 on a missing
    or falsy rate) and the display path (\<open>load_gold_rate\<close>).  Lemmas: the rate used is
    never zero, a nonzero latest rate is the one of greatest date, and the divergence
    between display and payment on a zero rate.
  \<^item> \<open>Wallet\<close>: the \<open>wallets\<close> row (\<open>index.tsx\<close>, \<open>WalletData\<close>), the zero wallet of
    registration (\<open>new_wallet\<close>), the gold update of the payment flow
    (\<open>add_gold_mg\<close>, an UPDATE that is a no-op without a row), and the spec's credit and
    debit with total recomputation (section 4.5; not in the sources).
  \<^item> \<open>Ledger\<close>: the plans, subscriptions, payments and gold holdings tables as records in
    one \<open>ledger_db\<close>; \<open>subscribeToPlan\<close> as \<open>subscribe_to_plan\<close>, \<open>makePayment\<close>
    as \<open>make_payment\<close> with each of its database writes (\<open>gold_credit\<close>,
    \<open>set_sub\<close>) and the code's reaction to each write failing, the loading queries, and
    one press of the pay button on a freshly loaded screen as \<open>pay_month\<close>.  Runs are
    the step relation \<open>ledger_step\<close> and its closure \<open>ledger_reach\<close>, each step with its
    own set of failing writes.
  \<^item> \<open>Gateway\<close>: the two server functions
    (\<open>src/supabase/functions/create-razorpay-order/index.ts\<close> as \<open>create_order\<close>,
    \<open>src/supabase/functions/verify-razorpay-payment/index.ts\<close> as \<open>verify_payment\<close>)
    over the \<open>investment_accounts\<close> and \<open>transactions\<close> tables, each with its whole
    guard chain as a \<open>gw_response\<close>.  The HMAC, the Razorpay order endpoint and the
    payment fetch are parameters (functions supplied by the caller), and the failure of
    the two writes is an input.  Lemmas: a bad signature or an uncaptured payment changes
    nothing; a good one credits \<open>paise / 100\<close> and logs one top-up; replaying it credits
    again; order amounts are rounded to paise within half a paisa and round-trip.
  \<^item> \<open>Referral\<close>: the referral graph of spec section 4.3, modelled from the spec because
    the code that fills \<open>referral_tree\<close> is not in the repository: users, the
    \<open>referred_by\<close> map (\<open>referrer\<close>), the edge table, \<open>register_referral\<close> with its
    cascade (\<open>cascade_edges\<close>, truncated at \<open>referral_cap = 10\<close>, the observed cap and
    the loop bound of \<open>referrals.tsx\<close>) and \<open>ancestors_of\<close>.  Runs are \<open>ref_reach\<close>;
    the invariant \<open>ref_inv\<close> says the edge table is exactly the \<open>k\<close>-th-referrer relation
    (\<open>kth_referrer\<close>) up to the cap and that the referrer map has no cycle.
  \<^item> \<open>Commission\<close>: the commission engine of spec section 4.4 (also from the spec; no
    code of the repository writes \<open>referral_commissions\<close>): \<open>credit_levels\<close> walks the
    ancestors, \<open>on_qualifying_payment\<close> rejects a known source id, \<open>run_commission\<close>
    commits all or nothing.  Lemmas: idempotence, the referral balance equals the sum of
    the records (\<open>comm_reach\<close> runs), wallets stay well formed, the spec scenario.
  \<^item> \<open>ReferralViews\<close>: the screens that read these tables, from the code:
    \<open>loadReferralData\<close> and its siblings in \<open>src/app/(tabs)/referrals.tsx\<close>, the
    referral statistics of the home screen, and \<open>src/app/tree.tsx\<close>, whose
    \<open>buildTreeStructure\<close> mutates shared node objects and is modelled over an explicit
    heap (\<open>tree_heap\<close>).  \<open>countChildren\<close> recurses through that heap and takes fuel;
    the fuel \<open>referral_cap + 1\<close> is enough because the built tree only links a node to
    nodes one level deeper and levels are at most the cap.  Lemmas: termination with that
    fuel, the screen totals equal the edge count and the commission gain, the tree places
    deeper members under the wrong parent, and the home and referrals screens disagree on
    \<open>Total Referrals\<close>.
  \<^item> \<open>Auth\<close>: registration (\<open>src/app/auth/register.tsx\<close>, \<open>handle_register\<close> with
    its guard chain \<open>validate_registration\<close>, the sign-up \<open>auth_sign_up\<close>, the
    referral lookup \<open>resolve_referrer\<close> and the two inserts), the login screen
    (\<open>src/app/auth/login.tsx\<close>, \<open>handle_login\<close>) and the session context
    (\<open>src/contexts/AuthContext.tsx\<close>: \<open>sign_in_with_password\<close>, \<open>fetch_profile\<close>,
    \<open>sign_out\<close>, \<open>restore_session\<close>, \<open>auth_state_change\<close>,
    \<open>reload_profile\<close>).  The hosted auth service is its contract: a list of accounts,
    fresh ids, duplicate e-mails refused.  Lemmas: the registration invariant
    (\<open>auth_reach\<close>, \<open>auth_inv\<close>), sign-in after registration, the login screen's
    hard-coded credentials, the account orphaned by an invalid referral code, the
    referral-code format with its decimal round trip.
  \<^item> \<open>Accounts\<close>: the account context (\<open>src/contexts/AccountContext.tsx\<close>:
    \<open>load_accounts\<close> with its ordering and selection, \<open>set_selected_account\<close>,
    \<open>create_account\<close> over the insert, the user effect \<open>user_changed\<close>), the create
    handler of \<open>accounts.tsx\<close> and the KYC submission of \<open>kyc/[accountId].tsx\<close>
    (\<open>kyc_submit\<close>).  The insert (\<open>insert_account\<close>) assumes a database rule that
    refuses an eleventh account with a message containing Maximum 10: no such rule is in
    the repository, the code only matches that message, so no theorem here claims the limit
    holds.  Lemmas: a saved id that is not the user's leaves nothing selected, the primary account is the default selection, a
    successful KYC submission stores valid numbers and changes no verification flag.
  \<^item> \<open>View\<close>: what a screen displays, as a list of widgets (texts of fragments, buttons
    carrying their event, highlighted groups), the events a rendered screen can raise
    (\<open>view_events\<close>) and \<open>Number.prototype.toFixed\<close> (\<open>js_to_fixed\<close>) with its
    reading back by a decimal reader and its half-unit rounding bound.
  \<^item> \<open>AccountViews\<close>: the accounts screen, the account switcher and the KYC screen
    rendered (\<open>accounts_view\<close>, \<open>switcher_view\<close>, \<open>kyc_view\<close>) with their event
    handlers.  Lemmas: every button refers to a listed account, a user below the limit can
    always add an account through the buttons (progress), upper-casing the PAN in the
    input changes nothing in the submission.
  \<^item> \<open>Home\<close>: the home tab (\<open>src/app/(tabs)/index.tsx\<close>): \<open>home_load\<close> is
    \<open>loadData\<close>, one view function per card, the account modal over the hard-coded
    \<open>DUMMY_ACCOUNTS\<close>, the handlers as \<open>home_step\<close>; \<open>home_reach\<close> runs the screen by
    its own buttons.  Lemmas: on a consistent ledger every reachable home screen renders
    (the plan join is never empty), its account is a dummy one and exactly one is
    highlighted; the gold holdings shown are the gold of the user's payments.
  \<^item> \<open>Transactions\<close>: the transactions tab (\<open>src/app/(tabs)/transactions.tsx\<close>): the
    payment list and the monthly schedule (\<open>build_schedule\<close>).  Lemma: on a consistent
    ledger the first \<open>n\<close> months are paid and the rest pending.
  \<^item> \<open>PlansView\<close>: the render of the plans tab (\<open>src/app/(tabs)/plans.tsx\<close>): the
    screen state and mount effect (\<open>plans_mount\<close>), \<open>renderPlanCard\<close> (\<open>plan_card\<close>),
    \<open>renderActiveSubscription\<close> (\<open>active_view\<close>) and the two buttons
    (\<open>plans_step\<close>: the pay button runs \<open>make_payment\<close> of \<open>Ledger\<close> and reloads the
    subscription).  Lemmas: after the mount the screen shows the ledger's count of monthly
    payments and offers the pay button exactly while months remain; pressing it with no
    failing write records the next month and keeps \<open>ledger_inv\<close>; no event of the screen
    creates or changes a subscription, because Subscribe Now only navigates to the demo
    screen and \<open>initiatePayment\<close> is never called.  That unused flow
    (\<open>initiatePayment\<close>, \<open>processPaymentGateway\<close>) is \<open>gateway_step\<close>; without a profile
    it leaves the screen loading for good.
  \<^item> \<open>ReferralScreens\<close>: the render of \<open>src/app/tree.tsx\<close> (\<open>renderTreeNode\<close>,
    \<open>getTotalReferrals\<close> and \<open>getLevelCounts\<close> as fuel-bounded recursions over the node
    heap of \<open>ReferralViews\<close>, \<open>tree_preorder\<close> the reference traversal both counters fold
    over) and of \<open>src/app/(tabs)/referrals.tsx\<close> (cards, share message, tree button).
    Lemmas: the tree loaded from a reachable graph renders with fuel cap + 1 and its
    per-level summary adds up to Total Members; tapping a member twice restores the view.
  \<^item> \<open>TreeCount\<close>: when every referred user has a profile, \<open>buildTreeStructure\<close> gives
    one node per row, the roots are the level-1 nodes and every deeper node is linked once
    under a node of the previous level (an invariant of the second pass over the rows); the
    preorder from the roots, taken generation by generation, then visits every node, so
    the tree's Total Members equals the referrals screen's Total Referrals.
  \<^item> \<open>Admin\<close>: \<open>src/app/admin/\<close>: the access guard, the dashboard statistics, the users
    list with search and role toggle, the transactions list and the withdrawal requests.
    Lemmas: only an admin profile passes the guard; two admins acting from stale screens
    turn a completed withdrawal into a rejected one and no wallet is ever debited; the
    users list always shows No Phone.
  \<^item> \<open>DemoScreens\<close>: the installment payment screen \<open>src/app/(tabs)/planScreen.tsx\<close>
    (\<open>handlePayNow\<close>, the two-second timer, \<open>handleContinue\<close>, both modals) with
    JavaScript's \<open>Number\<close> on strings (\<open>string_to_number\<close>: trimming, radix literals,
    signed decimals with exponent, Infinity, NaN).  Lemmas: for a digit string the minimum
    check is exactly \<open>< 5000\<close>; a NaN amount passes it; success is never reset.
  \<^item> \<open>DemoTabs\<close>: the other screens of the tab group that show constants
    (\<open>myActivityPlan.tsx\<close>, \<open>planDetail.tsx\<close> with its \<open>[planId]\<close> effect, \<open>option.tsx\<close>,
    \<open>wallet.tsx\<close>, \<open>dummy.tsx\<close>) and the profile tab (\<open>profile.tsx\<close>: Admin Panel
    button, sign-out confirmation, \<open>signOut\<close>).  Lemmas: Go to Referral History shows the last
    plan opened or nothing; the list and the detail screen disagree on every plan; the
    Total Payable of \<open>option.tsx\<close> adds the bonus; the Admin Panel button is offered exactly
    to the users the admin guard admits.  Screens of the tab navigator stay mounted, so a
    navigation to one of them changes its parameters and keeps its state.
  \<^item> \<open>Navigation\<close>: the root index screen \<open>src/app/index.tsx\<close> (always replaced by the
    login screen after 100 ms), the redirect of the admin guard and the declared tabs.
  \<^item> \<open>AuthScreens\<close>: the login and register screens of \<open>src/app/auth/\<close> (their state, the
    lines written to the console, the alerts and the render).  Lemmas: the typed password is
    logged in clear; after a successful registration the success alert leads to the login
    screen, which rejects the credentials just registered.
  \<^item> \<open>Schedule\<close>: runs of pay-button presses (\<open>pay_presses\<close>, each a \<open>pay_month\<close> whose
    failing writes are among those \<open>makePayment\<close> ignores, \<open>tolerated_writes\<close>).  Lemma: from
    any state of \<open>ledger_inv\<close>, one press per remaining month records every month and the
    bonus, and the next press is answered with AllPaid.
  \<^item> This theory: properties that span components, such as the referrer stored by a
    registration always being accepted by the referral graph.

  \<^bold>\<open>What is proved.\<close>  The ledger invariant (\<open>ledger_inv\<close>: monthly payments numbered
  1..n within the schedule, \<open>total_paid\<close> their sum, the bonus present exactly when the
  schedule is complete) holds in every reachable state as long as the three writes whose
  failure the code does not tolerate succeed, and one such failure is shown to break it.
  Payment rows are append-only under any failures; holdings match payments when no
  holding insert fails; wallet gold equals the user's payment gold when no wallet update
  fails; every payment carries \<open>(amount / rate) * 1000\<close> milligrams.  The functional
  behaviour of a regular payment, of the final payment (hard-coded 4500 bonus with month
  number 12) and of the schedule-complete branch is stated as equations; a double
  submission from one screen snapshot records a month twice and loses an increment; no
  subscription ever leaves the Active status.

  \<^bold>\<open>Modelling choices.\<close>  The hosted store is a record of tables; failure of each remote
  write is an input, so atomicity can be discussed.  The React state of the plans screen
  is the \<open>(subscription, plan)\<close> view and the count of loaded payments that
  \<open>make_payment\<close> takes; \<open>pay_month\<close> loads them from the database first.  Dates are
  \<open>(year, month0, day)\<close> with JavaScript's \<open>setMonth\<close> day overflow; time zones are not
  modelled.  The only recursion that may not end in the code is \<open>countChildren\<close> over
  the mutable tree; it is given fuel, with a lemma that the chosen fuel suffices.

  The screens are related to the core through shared state: the home and transactions
  tabs read the ledger tables, so their properties are stated over \<open>ledger_inv\<close>; the
  account screens act on the account context and table of \<open>Accounts\<close>.

  \<^bold>\<open>Next steps.\<close>  Schedules interrupted by a failed payment insert (a retry then
  continues the schedule), and the referral commission flow once code for it exists under
  \<open>src/\<close>.

  \<^bold>\<open>Not modelled.\<close>  Styles and layout; the root stack layout
  \<open>src/app/_layout.tsx\<close>, which only nests the two context providers; the tab
  navigator's own behaviour (which screens it adds and keeps mounted) is taken as stated
  above; secure session storage; the payment gateway's own API; the clipboard, share sheet
  and native alert dialogs beyond their visible effect; date formatting
  (\<open>toLocaleDateString\<close>) and \<open>toLocaleString\<close>, kept as fragments of the display; the
  rounding of JavaScript numbers to binary64.\<close>

text \<open>C18: the referrer stored by a successful registration is always accepted by the referral graph (no InvalidReferrer).\<close>

theorem registration_referrer_accepted:
  assumes "auth_inv db" "handle_register F n f db = (Inr u, db')"
    and "set (ref_users g) = prof_id ` set (profiles db)"
  shows "u \<notin> set (ref_users g) \<and>
         (\<exists>g'. register_referral u (prof_referred_by (last (profiles db'))) g = Inr g')"
proof -
  obtain db1 r where su: "auth_sign_up (auth_email (rf_phone f)) (rf_password f) db = Inr (u, db1)"
    and rr: "resolve_referrer (rf_referral f) (profiles db1) = Inr r"
    and pr: "profiles db' = profiles db1 @ [new_profile u f (generated_referral_code n) r]"
    using handle_register_Inr [OF assms(2)] by blast
  note s = auth_inv_sign_up [OF assms(1) su]
  have "\<forall>a. r = Some a \<longrightarrow> a \<in> set (ref_users g)"
    using resolve_referrer_Some [of "rf_referral f" "profiles db1"] rr s assms(3) by auto
  then have "\<exists>g'. register_referral u r g = Inr g'"
    by (cases r) (auto simp: register_referral_def)
  then show ?thesis using pr s assms(3) by auto
qed

theorem registration_referrer_accepted_witness:
  "prof_referred_by (last (profiles (snd (handle_register {} 5
      (example_form\<lparr>rf_phone := ''9123456780'', rf_referral := '' ref100042''\<rparr>) example_registered)))) = Some 1 \<and>
   (\<exists>g'. register_referral 2 (Some 1) \<lparr>ref_users = [1], referrer = Map.empty, ref_edges = []\<rparr> = Inr g')"
proof -
  let ?f = "example_form\<lparr>rf_phone := ''9123456780'', rf_referral := '' ref100042''\<rparr>"
  have inv: "auth_inv example_registered"
    unfolding example_registered_def by (rule auth_inv_register [OF auth_inv_empty])
  have ps: "profiles example_registered = [new_profile 1 example_form (generated_referral_code 42) None]"
    unfolding example_registered_def
    by (simp add: handle_register_def example_form_def validate_registration_def js_trim_def js_is_space_def
        aadhar_ok_def pan_ok_def is_digit_def is_upper_ascii_def auth_sign_up_def empty_auth_db_def
        resolve_referrer_def insert_profile_wallet_def Let_def)
  have nu: "next_uid example_registered = 2"
    unfolding example_registered_def
    by (simp add: handle_register_def example_form_def validate_registration_def js_trim_def js_is_space_def
        aadhar_ok_def pan_ok_def is_digit_def is_upper_ascii_def auth_sign_up_def empty_auth_db_def
        resolve_referrer_def insert_profile_wallet_def Let_def)
  have h: "handle_register {} 5 ?f example_registered =
      (Inr 2, snd (handle_register {} 5 ?f example_registered)) \<and>
      prof_referred_by (last (profiles (snd (handle_register {} 5 ?f example_registered)))) = Some 1"
    using conjunct2 [OF example_registered_eval] nu ps
    by (simp add: handle_register_def example_form_def validate_registration_def js_trim_def js_is_space_def
        aadhar_ok_def pan_ok_def is_digit_def is_upper_ascii_def auth_sign_up_def auth_email_def
        strip_non_digits_def resolve_referrer_def lookup_referrer_def js_upper_def js_upper_char_def
        generated_referral_code_def new_profile_def insert_profile_wallet_def Let_def)
  have g: "set (ref_users \<lparr>ref_users = [1], referrer = Map.empty, ref_edges = []\<rparr>) =
      prof_id ` set (profiles example_registered)"
    by (simp add: ps)
  show ?thesis
    using registration_referrer_accepted [OF inv conjunct1 [OF h] g] conjunct2 [OF h] by simp
qed

end
